(* ===== verification/Prelude.thy ===== *)
theory Prelude imports
  Main
  "HOL-Library.Word"
  "HOL-Library.Finite_Map"
  "HOL-Library.List_Lexorder"
  "HOL-Library.Sublist"
begin

section \<open>Shared types, combinators and automation\<close>

text \<open>
  Everything the component theories share: the type abbreviations for Rust's
  primitive types, the combinators that model Rust's \<open>Result\<close> (\<open>?\<close> is
  \<open>res_bind\<close>, \<open>map_err\<close> is \<open>res_map_err\<close>), a few list lemmas, and the
  collections of rewrite rules that the component proofs pass to the simplifier.
\<close>

named_theorems codec_simps \<open>unfold a codec or one of its fields\<close>
named_theorems run_simps \<open>unfold one step of a program run\<close>
named_theorems sys_simps \<open>unfold the record updates of the connection model\<close>
named_theorems lit_simps \<open>evaluate string literals\<close>

type_synonym byte = "8 word"
type_synonym bytes = "byte list"
type_synonym i32 = "32 word"
type_synonym i64 = "64 word"

subsection \<open>Result\<close>

text \<open>A Rust \<open>Result<'a, 'e>\<close> is \<open>'e + 'a\<close>: \<open>Inl\<close> is \<open>Err\<close>, \<open>Inr\<close> is \<open>Ok\<close>.\<close>

fun res_bind :: "'e + 'a \<Rightarrow> ('a \<Rightarrow> 'e + 'b) \<Rightarrow> 'e + 'b" where
  "res_bind (Inl e) f = Inl e"
| "res_bind (Inr a) f = f a"

fun res_map_err :: "('e \<Rightarrow> 'f) \<Rightarrow> 'e + 'a \<Rightarrow> 'f + 'a" where
  "res_map_err f (Inl e) = Inl (f e)"
| "res_map_err f (Inr a) = Inr a"

fun res_map :: "('a \<Rightarrow> 'b) \<Rightarrow> 'e + 'a \<Rightarrow> 'e + 'b" where
  "res_map f (Inl e) = Inl e"
| "res_map f (Inr a) = Inr (f a)"

definition or_else :: "'a option \<Rightarrow> 'a \<Rightarrow> 'a" where
  "or_else m d = (case m of None \<Rightarrow> d | Some x \<Rightarrow> x)"

definition ok_or_else :: "'e \<Rightarrow> 'a option \<Rightarrow> 'e + 'a" where
  "ok_or_else e m = (case m of None \<Rightarrow> Inl e | Some a \<Rightarrow> Inr a)"

fun is_ok :: "'e + 'a \<Rightarrow> bool" where
  "is_ok (Inl e) = False"
| "is_ok (Inr a) = True"

lemma res_bind_assoc: "res_bind (res_bind r f) g = res_bind r (\<lambda>x. res_bind (f x) g)"
  by (cases r) simp_all

lemma res_bind_Inr_iff: "res_bind r f = Inr b \<longleftrightarrow> (\<exists>a. r = Inr a \<and> f a = Inr b)"
  by (cases r) simp_all

lemma res_bind_Inl_iff: "res_bind r f = Inl e \<longleftrightarrow> r = Inl e \<or> (\<exists>a. r = Inr a \<and> f a = Inl e)"
  by (cases r) simp_all

lemma res_map_Inl_iff [simp]: "res_map f r = Inl e \<longleftrightarrow> r = Inl e"
  by (cases r) simp_all

lemma res_map_Inr_iff: "res_map f r = Inr b \<longleftrightarrow> (\<exists>a. r = Inr a \<and> b = f a)"
  by (cases r) auto

lemma res_map_err_Inr_iff [simp]: "res_map_err f r = Inr a \<longleftrightarrow> r = Inr a"
  by (cases r) simp_all

lemma ok_or_else_simps [simp]:
  "ok_or_else e None = Inl e"
  "ok_or_else e (Some a) = Inr a"
  by (simp_all add: ok_or_else_def)

lemma is_ok_iff: "is_ok r \<longleftrightarrow> (\<exists>a. r = Inr a)"
  by (cases r) simp_all

text \<open>\<open>collect\<close> into a \<open>Result\<close>: the first error, or every value.\<close>

fun res_collect :: "('a \<Rightarrow> 'e + 'b) \<Rightarrow> 'a list \<Rightarrow> 'e + 'b list" where
  "res_collect f [] = Inr []"
| "res_collect f (x # xs) = res_bind (f x) (\<lambda>y. res_bind (res_collect f xs) (\<lambda>ys. Inr (y # ys)))"

lemma res_collect_all_ok:
  "(\<And>x. x \<in> set xs \<Longrightarrow> f x = Inr (g x)) \<Longrightarrow> res_collect f xs = Inr (map g xs)"
  by (induction xs) auto

subsection \<open>Lists\<close>

lemma append_lexord_common:
  fixes xs ys zs :: "'a::linorder list"
  shows "xs @ ys < xs @ zs \<longleftrightarrow> ys < zs"
  by (induction xs) auto

lemma append_lexord_common_le:
  fixes xs ys zs :: "'a::linorder list"
  shows "xs @ ys \<le> xs @ zs \<longleftrightarrow> ys \<le> zs"
  by (induction xs) auto

lemma list_lex_prefix_interval:
  fixes p k s :: "'a::linorder list"
  assumes "p \<le> k" and "k < p @ s"
  shows "prefix p k"
  using assms
proof (induction p arbitrary: k)
  case Nil
  show ?case by simp
next
  case (Cons a p)
  then show ?case by (cases k) auto
qed

lemma prefix_le_list:
  fixes p k :: "'a::linorder list"
  assumes "prefix p k"
  shows "p \<le> k"
proof -
  from assms obtain t where "k = p @ t" by (auto simp: prefix_def)
  then show ?thesis using append_lexord_common_le [of p "[]" t] by simp
qed

end
