(* ===== verification/Rust_Str.thy ===== *)
theory Rust_Str imports Prelude
begin

section \<open>Rust's char, str and String\<close>

text \<open>
  A Rust \<open>char\<close> is a Unicode scalar value and a \<open>String\<close> is a sequence of them
  stored as UTF-8. The model keeps the scalar values (type \<open>uchr\<close>, a string is
  \<open>uchr list\<close>) and has the UTF-8 codec of the standard library as functions:
  \<open>str_bytes\<close> (\<open>as_bytes\<close>/\<open>into_bytes\<close>), \<open>from_utf8\<close> and \<open>from_utf8_lossy\<close>.
  Also here: \<open>trim\<close>, decimal printing and the standard library's integer and
  boolean parsers, whose error texts reach the peer through the contract layer.
\<close>

subsection \<open>Unicode scalar values\<close>

definition scalar_value :: "nat \<Rightarrow> bool" where
  "scalar_value n \<longleftrightarrow> n < 0xD800 \<or> (0xE000 \<le> n \<and> n < 0x110000)"

typedef uchr = "{n. scalar_value n}"
  morphisms code_point Abs_uchr
  by (rule exI [of _ 0]) (simp add: scalar_value_def)

setup_lifting type_definition_uchr

instantiation uchr :: "{equal, linorder}"
begin

lift_definition equal_uchr :: "uchr \<Rightarrow> uchr \<Rightarrow> bool" is "(=)" .

lift_definition less_eq_uchr :: "uchr \<Rightarrow> uchr \<Rightarrow> bool" is "(\<le>)" .

lift_definition less_uchr :: "uchr \<Rightarrow> uchr \<Rightarrow> bool" is "(<)" .

instance
  by standard (transfer; auto)+

end

type_synonym str = "uchr list"

text \<open>\<open>uc\<close> embeds the characters of Isabelle's literals (U+0000 to U+00FF); \<open>lit\<close> is
  a string literal of the source. \<open>uchr_of\<close> is \<open>char::from_u32\<close> with U+FFFD for a
  number that is no scalar value.\<close>

lift_definition uc :: "char \<Rightarrow> uchr" is "\<lambda>c. of_char c :: nat"
proof -
  fix c :: char
  have "(of_char c :: nat) = of_char (char_of (of_char c :: nat)) mod 256" by simp
  then have "of_char c < (256 :: nat)" by (metis mod_less_divisor zero_less_numeral)
  then show "scalar_value (of_char c)" unfolding scalar_value_def by linarith
qed

lift_definition uchr_of :: "nat \<Rightarrow> uchr" is "\<lambda>n. if scalar_value n then n else 0xFFFD"
  by (simp add: scalar_value_def)

definition lit :: "string \<Rightarrow> str" where
  "lit s = map uc s"

lemma code_point_uc [simp]: "code_point (uc c) = of_char c"
  by (fact uc.rep_eq)

lemma code_point_uchr_of [simp]: "scalar_value n \<Longrightarrow> code_point (uchr_of n) = n"
  by (simp add: uchr_of.rep_eq)

lemma uchr_of_code_point [simp]: "uchr_of (code_point c) = c"
  by transfer simp

lemma scalar_value_code_point [simp]: "scalar_value (code_point c)"
  using code_point [of c] by simp

lemma uchr_eq_iff: "c = d \<longleftrightarrow> code_point c = code_point d"
  by (simp add: code_point_inject)

lemma uchr_less_iff: "c < d \<longleftrightarrow> code_point c < code_point d"
  by transfer simp

lemma uchr_le_iff: "c \<le> d \<longleftrightarrow> code_point c \<le> code_point d"
  by transfer simp

lemma uc_inject [simp]: "uc c = uc d \<longleftrightarrow> c = d"
  by (simp add: uchr_eq_iff)

lemma lit_Nil [simp]: "lit [] = []"
  by (simp add: lit_def)

lemma lit_Cons: "lit (c # s) = uc c # lit s"
  by (simp add: lit_def)

lemma lit_inject [simp]: "lit s = lit t \<longleftrightarrow> s = t"
  by (simp add: lit_def inj_map_eq_map inj_def)

lemma lit_eq_Nil [simp]: "lit s = [] \<longleftrightarrow> s = []"
  by (simp add: lit_def)

lemma Nil_eq_lit [simp]: "[] = lit s \<longleftrightarrow> s = []"
  by (cases s) (simp_all add: lit_def)

lemma lit_append: "lit (s @ t) = lit s @ lit t"
  by (simp add: lit_def)

lemma code_point_bound: "code_point c < 0x110000"
  using scalar_value_code_point [of c] by (auto simp: scalar_value_def)

subsection \<open>UTF-8 encoding\<close>

definition byte_of :: "nat \<Rightarrow> byte" where
  "byte_of n = word_of_nat n"

lemma unat_byte_of [simp]: "n < 256 \<Longrightarrow> unat (byte_of n) = n"
  by (simp add: byte_of_def unat_of_nat take_bit_eq_mod)

lemma byte_of_unat [simp]: "byte_of (unat b) = b"
  by (simp add: byte_of_def)

lemma unat_byte_less [simp]: "unat (b :: byte) < 256"
  using unsigned_less [of b] by simp

definition utf8_char :: "uchr \<Rightarrow> bytes" where
  "utf8_char c = (let n = code_point c in
     if n < 0x80 then [byte_of n]
     else if n < 0x800 then [byte_of (0xC0 + n div 64), byte_of (0x80 + n mod 64)]
     else if n < 0x10000 then
       [byte_of (0xE0 + n div 4096), byte_of (0x80 + n div 64 mod 64),
        byte_of (0x80 + n mod 64)]
     else
       [byte_of (0xF0 + n div 262144), byte_of (0x80 + n div 4096 mod 64),
        byte_of (0x80 + n div 64 mod 64), byte_of (0x80 + n mod 64)])"

definition str_bytes :: "str \<Rightarrow> bytes" where
  "str_bytes s = concat (map utf8_char s)"

lemma str_bytes_Nil [simp]: "str_bytes [] = []"
  by (simp add: str_bytes_def)

lemma str_bytes_Cons [simp]: "str_bytes (c # s) = utf8_char c @ str_bytes s"
  by (simp add: str_bytes_def)

lemma str_bytes_append [simp]: "str_bytes (s @ t) = str_bytes s @ str_bytes t"
  by (simp add: str_bytes_def)

lemma utf8_char_nonempty [simp]: "utf8_char c \<noteq> []"
  by (simp add: utf8_char_def Let_def)

lemma str_bytes_eq_Nil [simp]: "str_bytes s = [] \<longleftrightarrow> s = []"
  by (cases s) simp_all

subsection \<open>UTF-8 decoding\<close>

text \<open>
  One step of the standard library's decoder at the head of a byte string: a scalar
  value and the rest, an invalid sequence of some length and the rest, or the bytes of
  a sequence that the end of the input cuts short. The second byte is checked against
  the range its first byte allows, so that overlong forms, surrogates and values above
  U+10FFFF are refused, each with the length the standard library reports.
\<close>

datatype utf8_step = Utf8_Char uchr bytes | Utf8_Invalid nat bytes | Utf8_Incomplete

definition is_cont :: "byte \<Rightarrow> bool" where
  "is_cont b \<longleftrightarrow> 0x80 \<le> unat b \<and> unat b < 0xC0"

definition second_ok :: "nat \<Rightarrow> byte \<Rightarrow> bool" where
  "second_ok f b \<longleftrightarrow>
     (if f = 0xE0 then 0xA0 \<le> unat b \<and> unat b < 0xC0
      else if f = 0xED then 0x80 \<le> unat b \<and> unat b < 0xA0
      else if f = 0xF0 then 0x90 \<le> unat b \<and> unat b < 0xC0
      else if f = 0xF4 then 0x80 \<le> unat b \<and> unat b < 0x90
      else is_cont b)"

definition utf8_width :: "nat \<Rightarrow> nat" where
  "utf8_width f =
     (if f < 0x80 then 1 else if 0xC2 \<le> f \<and> f < 0xE0 then 2
      else if 0xE0 \<le> f \<and> f < 0xF0 then 3 else if 0xF0 \<le> f \<and> f < 0xF5 then 4 else 0)"

fun utf8_next :: "bytes \<Rightarrow> utf8_step" where
  "utf8_next [] = Utf8_Incomplete"
| "utf8_next (b # bs) = (let f = unat b; w = utf8_width f in
     if w = 1 then Utf8_Char (uchr_of f) bs
     else if w = 0 then Utf8_Invalid 1 bs
     else (case bs of [] \<Rightarrow> Utf8_Incomplete
       | b2 # bs2 \<Rightarrow>
         if \<not> second_ok f b2 then Utf8_Invalid 1 bs
         else if w = 2 then Utf8_Char (uchr_of ((f - 0xC0) * 64 + (unat b2 - 0x80))) bs2
         else (case bs2 of [] \<Rightarrow> Utf8_Incomplete
           | b3 # bs3 \<Rightarrow>
             if \<not> is_cont b3 then Utf8_Invalid 2 bs2
             else if w = 3 then
               Utf8_Char (uchr_of ((f - 0xE0) * 4096 + (unat b2 - 0x80) * 64 + (unat b3 - 0x80))) bs3
             else (case bs3 of [] \<Rightarrow> Utf8_Incomplete
               | b4 # bs4 \<Rightarrow>
                 if \<not> is_cont b4 then Utf8_Invalid 3 bs3
                 else Utf8_Char (uchr_of ((f - 0xF0) * 262144 + (unat b2 - 0x80) * 4096
                        + (unat b3 - 0x80) * 64 + (unat b4 - 0x80))) bs4))))"

declare utf8_next.simps [simp del]

lemma utf8_next_Nil [simp]: "utf8_next [] = Utf8_Incomplete"
  by (simp add: utf8_next.simps)

lemma utf8_next_Char_length: "utf8_next bs = Utf8_Char c rest \<Longrightarrow> length rest < length bs"
  by (cases bs) (auto simp: utf8_next.simps Let_def split: if_splits list.splits)

lemma utf8_next_Invalid_length: "utf8_next bs = Utf8_Invalid k rest \<Longrightarrow> length rest < length bs"
  by (cases bs) (auto simp: utf8_next.simps Let_def split: if_splits list.splits)

lemma split_base64:
  fixes n :: nat
  shows "n div 64 * 64 + n mod 64 = n"
    and "n div 4096 * 4096 + n div 64 mod 64 * 64 + n mod 64 = n"
    and "n div 262144 * 262144 + n div 4096 mod 64 * 4096 + n div 64 mod 64 * 64 + n mod 64 = n"
proof -
  have d: "n div 4096 = n div 64 div 64" "n div 262144 = n div 64 div 64 div 64"
    by (simp_all add: div_mult2_eq)
  show "n div 64 * 64 + n mod 64 = n" by simp
  show "n div 4096 * 4096 + n div 64 mod 64 * 64 + n mod 64 = n"
    unfolding d using div_mult_mod_eq [of n 64] div_mult_mod_eq [of "n div 64" 64] by linarith
  show "n div 262144 * 262144 + n div 4096 mod 64 * 4096 + n div 64 mod 64 * 64 + n mod 64 = n"
    unfolding d using div_mult_mod_eq [of n 64] div_mult_mod_eq [of "n div 64" 64]
      div_mult_mod_eq [of "n div 64 div 64" 64] by linarith
qed

text \<open>The decoder inverts the encoder, and accepts nothing else.\<close>

lemma utf8_next_utf8_char [simp]: "utf8_next (utf8_char c @ bs) = Utf8_Char c bs"
proof -
  define n where "n = code_point c"
  have cp: "code_point c = n" and c: "uchr_of n = c" by (simp_all add: n_def)
  have sv: "scalar_value n" by (simp add: n_def)
  then have "n < 0x110000" by (auto simp: scalar_value_def)
  then consider "n < 0x80" | "0x80 \<le> n" "n < 0x800" | "0x800 \<le> n" "n < 0x10000"
    | "0x10000 \<le> n" "n < 0x110000" by linarith
  then show ?thesis
  proof cases
    case 1
    then show ?thesis
      by (simp add: utf8_char_def cp utf8_next.simps utf8_width_def c Let_def)
  next
    case 2
    then have "n div 64 < 32" "2 \<le> n div 64" by auto
    with 2 show ?thesis
      by (simp add: utf8_char_def cp utf8_next.simps utf8_width_def c
        second_ok_def is_cont_def Let_def split_base64)
  next
    case 3
    then have b: "n div 4096 < 16" by auto
    have "n div 4096 = n div 64 div 64" by (simp add: div_mult2_eq)
    then have q: "n div 64 = n div 4096 * 64 + n div 64 mod 64"
      using div_mult_mod_eq [of "n div 64" 64] by linarith
    have "32 \<le> n div 64 mod 64" if "n div 4096 = 0" using that q 3 by linarith
    moreover have "n div 64 mod 64 < 32" if "n div 4096 = 13"
      using that q sv unfolding scalar_value_def by linarith
    ultimately have "second_ok (224 + n div 4096) (byte_of (128 + n div 64 mod 64))"
      using 3 sv b unfolding second_ok_def is_cont_def by auto
    with 3 b show ?thesis
      by (simp add: utf8_char_def cp utf8_next.simps utf8_width_def c
        is_cont_def Let_def split_base64)
  next
    case 4
    then have b: "n div 262144 < 5" by auto
    have "n div 262144 = n div 4096 div 64" by (simp add: div_mult2_eq)
    then have q: "n div 4096 = n div 262144 * 64 + n div 4096 mod 64"
      using div_mult_mod_eq [of "n div 4096" 64] by linarith
    have "16 \<le> n div 4096 mod 64" if "n div 262144 = 0" using that q 4 by linarith
    moreover have "n div 4096 mod 64 < 16" if "n div 262144 = 4" using that q 4 by linarith
    ultimately have "second_ok (240 + n div 262144) (byte_of (128 + n div 4096 mod 64))"
      using 4 b unfolding second_ok_def is_cont_def by auto
    with 4 b show ?thesis
      by (simp add: utf8_char_def cp utf8_next.simps utf8_width_def c
        is_cont_def Let_def split_base64)
  qed
qed

text \<open>The encoder on a number given by its base-64 digits.\<close>

lemma div_mod_64:
  fixes x y :: nat
  assumes "y < 64"
  shows "(x * 64 + y) div 64 = x" and "(x * 64 + y) mod 64 = y"
  using assms by simp_all

lemma utf8_char_join2:
  assumes "2 \<le> x" "x < 32" "y < 64"
  shows "utf8_char (uchr_of (x * 64 + y)) = [byte_of (0xC0 + x), byte_of (0x80 + y)]"
proof -
  have "scalar_value (x * 64 + y)" using assms unfolding scalar_value_def by linarith
  then have "code_point (uchr_of (x * 64 + y)) = x * 64 + y" by simp
  then show ?thesis using assms div_mod_64 [OF assms(3), of x]
    by (simp add: utf8_char_def Let_def)
qed

lemma utf8_char_join3:
  assumes "x < 16" "y < 64" "z < 64" and "x = 0 \<Longrightarrow> 32 \<le> y" and "x = 13 \<Longrightarrow> y < 32"
  shows "utf8_char (uchr_of (x * 4096 + y * 64 + z))
    = [byte_of (0xE0 + x), byte_of (0x80 + y), byte_of (0x80 + z)]"
proof -
  define n where "n = x * 4096 + y * 64 + z"
  have "n = (x * 64 + y) * 64 + z" by (simp add: n_def)
  then have d: "n div 64 = x * 64 + y" "n mod 64 = z" by (simp_all only: div_mod_64 [OF assms(3)])
  have "n div 4096 = n div 64 div 64" by (simp add: div_mult2_eq)
  then have "n div 4096 = x" using d div_mod_64 [OF assms(2)] by simp
  moreover have "0x800 \<le> n" using assms(4) unfolding n_def by (cases "x = 0") auto
  moreover have "n < 0x10000" using assms unfolding n_def by linarith
  moreover have "scalar_value n"
  proof (cases "x < 13")
    case True then show ?thesis using assms unfolding n_def scalar_value_def by linarith
  next
    case False then show ?thesis using assms unfolding n_def scalar_value_def
      by (cases "x = 13") auto
  qed
  ultimately show ?thesis unfolding n_def [symmetric] using d div_mod_64 [OF assms(2), of x]
    by (simp add: utf8_char_def Let_def)
qed

lemma utf8_char_join4:
  assumes "x < 5" "y < 64" "z < 64" "u < 64" and "x = 0 \<Longrightarrow> 16 \<le> y" and "x = 4 \<Longrightarrow> y < 16"
  shows "utf8_char (uchr_of (x * 262144 + y * 4096 + z * 64 + u))
    = [byte_of (0xF0 + x), byte_of (0x80 + y), byte_of (0x80 + z), byte_of (0x80 + u)]"
proof -
  define n where "n = x * 262144 + y * 4096 + z * 64 + u"
  have "n = ((x * 64 + y) * 64 + z) * 64 + u" by (simp add: n_def)
  then have d: "n div 64 = (x * 64 + y) * 64 + z" "n mod 64 = u"
    by (simp_all only: div_mod_64 [OF assms(4)])
  have "n div 4096 = n div 64 div 64" by (simp add: div_mult2_eq)
  then have e: "n div 4096 = x * 64 + y" using d div_mod_64 [OF assms(3)] by simp
  have "n div 262144 = n div 4096 div 64" by (simp add: div_mult2_eq)
  then have "n div 262144 = x" using e div_mod_64 [OF assms(2)] by simp
  moreover have "0x10000 \<le> n" using assms(5) unfolding n_def by (cases "x = 0") auto
  moreover have "n < 0x110000"
  proof (cases "x = 4")
    case True then show ?thesis using assms unfolding n_def by linarith
  next
    case False then show ?thesis using assms unfolding n_def by linarith
  qed
  ultimately show ?thesis unfolding n_def [symmetric]
    using d e div_mod_64 [OF assms(3), of "x * 64 + y"] div_mod_64 [OF assms(2), of x]
    by (simp add: utf8_char_def Let_def scalar_value_def)
qed

lemma second_ok_cont: "second_ok f b \<Longrightarrow> is_cont b"
  by (auto simp: second_ok_def is_cont_def split: if_splits)

lemma is_contE:
  assumes "is_cont b"
  obtains y where "y < 64" and "b = byte_of (0x80 + y)" and "unat b = 0x80 + y"
proof (rule that [of "unat b - 0x80"])
  show "unat b - 0x80 < 64" using assms by (auto simp: is_cont_def)
  show u: "unat b = 0x80 + (unat b - 0x80)" using assms by (auto simp: is_cont_def)
  show "b = byte_of (0x80 + (unat b - 0x80))" using u byte_of_unat [of b] by simp
qed

lemma utf8_width_cases:
  obtains "f < 0x80" "utf8_width f = 1"
  | "utf8_width f = 0"
  | x where "f = 0xC0 + x" "2 \<le> x" "x < 32" "utf8_width f = 2"
  | x where "f = 0xE0 + x" "x < 16" "utf8_width f = 3"
  | x where "f = 0xF0 + x" "x < 5" "utf8_width f = 4"
proof -
  consider "f < 0x80" | "0x80 \<le> f" "f < 0xC2" | "0xC2 \<le> f" "f < 0xE0" | "0xE0 \<le> f" "f < 0xF0"
    | "0xF0 \<le> f" "f < 0xF5" | "0xF5 \<le> f" by linarith
  then show thesis
  proof cases
    case 3 then show thesis using that(3) [of "f - 0xC0"] by (simp add: utf8_width_def)
  next
    case 4 then show thesis using that(4) [of "f - 0xE0"] by (simp add: utf8_width_def)
  next
    case 5 then show thesis using that(5) [of "f - 0xF0"] by (simp add: utf8_width_def)
  qed (use that(1,2) in \<open>simp_all add: utf8_width_def\<close>)
qed

lemma utf8_next_sound:
  assumes "utf8_next bs = Utf8_Char c rest"
  shows "bs = utf8_char c @ rest"
proof (cases bs)
  case Nil
  then show ?thesis using assms by simp
next
  case (Cons b bs1)
  have b: "b = byte_of (unat b)" by simp
  show ?thesis
  proof (cases rule: utf8_width_cases [of "unat b"])
    case 1
    then have "scalar_value (unat b)" by (simp add: scalar_value_def)
    then show ?thesis using 1 assms Cons
      by (auto simp: utf8_next.simps utf8_char_def)
  next
    case 2
    then show ?thesis using assms Cons by (simp add: utf8_next.simps)
  next
    case (3 x)
    then obtain b2 where b2: "bs1 = b2 # rest" "second_ok (unat b) b2"
      and c: "c = uchr_of ((unat b - 0xC0) * 64 + (unat b2 - 0x80))"
      using assms Cons by (auto simp: utf8_next.simps Let_def split: list.splits if_splits)
    from second_ok_cont [OF b2(2)] obtain y where "y < 64" "b2 = byte_of (0x80 + y)" "unat b2 = 0x80 + y"
      by (rule is_contE)
    with 3 b c b2 Cons show ?thesis by (simp add: utf8_char_join2)
  next
    case (4 x)
    then obtain b2 b3 where b2: "bs1 = b2 # b3 # rest" "second_ok (unat b) b2" "is_cont b3"
      and c: "c = uchr_of ((unat b - 0xE0) * 4096 + (unat b2 - 0x80) * 64 + (unat b3 - 0x80))"
      using assms Cons by (auto simp: utf8_next.simps Let_def split: list.splits if_splits)
    from second_ok_cont [OF b2(2)] obtain y where y: "y < 64" "b2 = byte_of (0x80 + y)" "unat b2 = 0x80 + y"
      by (rule is_contE)
    from b2(3) obtain z where z: "z < 64" "b3 = byte_of (0x80 + z)" "unat b3 = 0x80 + z"
      by (rule is_contE)
    have "x = 0 \<Longrightarrow> 32 \<le> y" "x = 13 \<Longrightarrow> y < 32"
      using b2(2) 4(1) y by (auto simp: second_ok_def)
    with 4 b c b2 Cons y z show ?thesis by (simp add: utf8_char_join3)
  next
    case (5 x)
    then obtain b2 b3 b4 where b2: "bs1 = b2 # b3 # b4 # rest" "second_ok (unat b) b2" "is_cont b3" "is_cont b4"
      and c: "c = uchr_of ((unat b - 0xF0) * 262144 + (unat b2 - 0x80) * 4096
        + (unat b3 - 0x80) * 64 + (unat b4 - 0x80))"
      using assms Cons by (auto simp: utf8_next.simps Let_def split: list.splits if_splits)
    from second_ok_cont [OF b2(2)] obtain y where y: "y < 64" "b2 = byte_of (0x80 + y)" "unat b2 = 0x80 + y"
      by (rule is_contE)
    from b2(3) obtain z where z: "z < 64" "b3 = byte_of (0x80 + z)" "unat b3 = 0x80 + z"
      by (rule is_contE)
    from b2(4) obtain u where u: "u < 64" "b4 = byte_of (0x80 + u)" "unat b4 = 0x80 + u"
      by (rule is_contE)
    have "x = 0 \<Longrightarrow> 16 \<le> y" "x = 4 \<Longrightarrow> y < 16"
      using b2(2) 5(1) y by (auto simp: second_ok_def)
    with 5 b c b2 Cons y z u show ?thesis by (simp add: utf8_char_join4)
  qed
qed

text \<open>
  \<open>Utf8Error\<close>: where the valid prefix ends, and the length of the invalid sequence
  (\<open>None\<close>: the input ends inside a sequence). \<open>String::from_utf8\<close> stops at the first
  error; \<open>String::from_utf8_lossy\<close> writes U+FFFD for each invalid sequence.
\<close>

record utf8_error =
  valid_up_to :: nat
  error_len :: "nat option"

function from_utf8_at :: "nat \<Rightarrow> bytes \<Rightarrow> utf8_error + str" where
  "from_utf8_at i bs = (if bs = [] then Inr [] else
     (case utf8_next bs of
        Utf8_Char c rest \<Rightarrow> res_map ((#) c) (from_utf8_at (i + (length bs - length rest)) rest)
      | Utf8_Invalid k rest \<Rightarrow> Inl \<lparr>valid_up_to = i, error_len = Some k\<rparr>
      | Utf8_Incomplete \<Rightarrow> Inl \<lparr>valid_up_to = i, error_len = None\<rparr>))"
  by pat_completeness auto
termination
  by (relation "measure (\<lambda>(i, bs). length bs)") (auto dest: utf8_next_Char_length)

declare from_utf8_at.simps [simp del]

definition from_utf8 :: "bytes \<Rightarrow> utf8_error + str" where
  "from_utf8 bs = from_utf8_at 0 bs"

definition REPLACEMENT :: uchr where
  "REPLACEMENT = uchr_of 0xFFFD"

function from_utf8_lossy :: "bytes \<Rightarrow> str" where
  "from_utf8_lossy bs = (if bs = [] then [] else
     (case utf8_next bs of
        Utf8_Char c rest \<Rightarrow> c # from_utf8_lossy rest
      | Utf8_Invalid k rest \<Rightarrow> REPLACEMENT # from_utf8_lossy rest
      | Utf8_Incomplete \<Rightarrow> [REPLACEMENT]))"
  by pat_completeness auto
termination
  by (relation "measure length") (auto dest: utf8_next_Char_length utf8_next_Invalid_length)

declare from_utf8_lossy.simps [simp del]

lemma from_utf8_at_str_bytes: "from_utf8_at i (str_bytes s) = Inr s"
proof (induction s arbitrary: i)
  case Nil
  show ?case by (simp add: from_utf8_at.simps)
next
  case (Cons c s)
  then show ?case by (simp add: from_utf8_at.simps [of i "utf8_char c @ str_bytes s"])
qed

lemma from_utf8_str_bytes [simp]: "from_utf8 (str_bytes s) = Inr s"
  by (simp add: from_utf8_def from_utf8_at_str_bytes)

lemma from_utf8_at_sound: "from_utf8_at i bs = Inr s \<Longrightarrow> bs = str_bytes s"
proof (induction i bs arbitrary: s rule: from_utf8_at.induct)
  case (1 i bs)
  show ?case
  proof (cases "bs = []")
    case True
    with "1.prems" show ?thesis by (simp add: from_utf8_at.simps)
  next
    case False
    from "1.prems" False obtain c rest where n: "utf8_next bs = Utf8_Char c rest"
      by (auto simp: from_utf8_at.simps [of i bs] split: utf8_step.splits)
    with "1.prems" False obtain s' where "s = c # s'"
      and "from_utf8_at (i + (length bs - length rest)) rest = Inr s'"
      by (cases "from_utf8_at (i + (length bs - length rest)) rest")
        (auto simp: from_utf8_at.simps [of i bs])
    with "1.IH" [OF False n] n utf8_next_sound [OF n] show ?thesis by simp
  qed
qed

lemma from_utf8_iff: "from_utf8 bs = Inr s \<longleftrightarrow> bs = str_bytes s"
  by (auto simp: from_utf8_def from_utf8_at_str_bytes dest: from_utf8_at_sound)

lemma from_utf8_lossy_str_bytes [simp]: "from_utf8_lossy (str_bytes s) = s"
  by (induction s) (simp_all add: from_utf8_lossy.simps)

lemma str_bytes_inject [simp]: "str_bytes s = str_bytes t \<longleftrightarrow> s = t"
  by (metis from_utf8_lossy_str_bytes)

lemma from_utf8_lossy_eq_from_utf8: "from_utf8 bs = Inr s \<Longrightarrow> from_utf8_lossy bs = s"
  by (simp add: from_utf8_iff)

subsection \<open>The order on strings\<close>

text \<open>
  Rust compares strings by their bytes. UTF-8 was designed so that this is the order of
  the scalar values, which is what the model's list order compares.
\<close>

lemma byte_of_less [simp]: "a < 256 \<Longrightarrow> b < 256 \<Longrightarrow> byte_of a < byte_of b \<longleftrightarrow> a < b"
  by (simp add: word_less_nat_alt)

lemma byte_of_eq [simp]: "a < 256 \<Longrightarrow> b < 256 \<Longrightarrow> byte_of a = byte_of b \<longleftrightarrow> a = b"
  by (metis unat_byte_of)

lemma div_mod_less_iff:
  fixes n m d :: nat
  assumes "n < m"
  shows "n div d < m div d \<or> n div d = m div d \<and> n mod d < m mod d"
proof -
  have "n div d \<le> m div d" using assms by (simp add: div_le_mono)
  moreover have "n mod d < m mod d" if "n div d = m div d"
    using assms that div_mult_mod_eq [of n d] div_mult_mod_eq [of m d] by (metis add_less_cancel_left)
  ultimately show ?thesis by linarith
qed

lemma utf8_char_less:
  assumes "c < d"
  shows "utf8_char c @ x < utf8_char d @ y"
proof -
  define n m where "n = code_point c" and "m = code_point d"
  have nm: "n < m" "m < 0x110000" using assms code_point_bound [of d]
    by (simp_all add: n_def m_def uchr_less_iff)
  let ?n1 = "n div 64" and ?m1 = "m div 64"
  let ?n2 = "n div 4096" and ?m2 = "m div 4096"
  let ?n3 = "n div 262144" and ?m3 = "m div 262144"
  have dd: "k div 4096 = k div 64 div 64" "k div 262144 = k div 64 div 64 div 64" for k :: nat
    by (simp_all add: div_mult2_eq)
  have l1: "?n1 < ?m1 \<or> ?n1 = ?m1 \<and> n mod 64 < m mod 64"
    using nm(1) by (rule div_mod_less_iff)
  have l2: "?n2 < ?m2 \<or> ?n2 = ?m2 \<and> ?n1 mod 64 < ?m1 mod 64" if "?n1 < ?m1"
    using div_mod_less_iff [OF that, of 64] by (simp add: dd)
  have l3: "?n3 < ?m3 \<or> ?n3 = ?m3 \<and> ?n2 mod 64 < ?m2 mod 64" if "?n2 < ?m2"
    using div_mod_less_iff [OF that, of 64] by (simp add: dd)
  have e: "?n1 = ?m1 \<Longrightarrow> ?n2 = ?m2" "?n2 = ?m2 \<Longrightarrow> ?n3 = ?m3"
    by (simp_all add: dd(1) dd(2) div_mult2_eq [of _ 4096 64, simplified])
  have cp: "code_point c = n" "code_point d = m" by (simp_all add: n_def m_def)
  note [simp] = utf8_char_def Let_def cp
  consider "m < 0x80" | "n < 0x80" "0x80 \<le> m" | "0x80 \<le> n" "m < 0x800"
    | "0x80 \<le> n" "n < 0x800" "0x800 \<le> m" | "0x800 \<le> n" "m < 0x10000"
    | "0x800 \<le> n" "n < 0x10000" "0x10000 \<le> m" | "0x10000 \<le> n" by linarith
  then show ?thesis
  proof cases
    case 1 with nm show ?thesis by simp
  next
    case 2
    have "?m1 < 32 \<Longrightarrow> 192 + ?m1 < 256" "?m2 < 16 \<Longrightarrow> 224 + ?m2 < 256" "?m3 < 5" using nm by auto
    with 2 show ?thesis by auto
  next
    case 3
    have "?m1 < 32" "?n1 < 32" using 3 nm by auto
    with 3 nm l1 show ?thesis by auto
  next
    case 4
    have "?n1 < 32" "m < 0x10000 \<Longrightarrow> ?m2 < 16" "?m3 < 5" using 4 nm by auto
    with 4 nm show ?thesis by auto
  next
    case 5
    have "?m2 < 16" "?n2 < 16" using 5 nm by auto
    with 5 nm l1 l2 show ?thesis by auto
  next
    case 6
    have "?n2 < 16" "?m3 < 5" using 6 nm by auto
    with 6 nm show ?thesis by auto
  next
    case 7
    have "?n3 < 5" "?m3 < 5" using 7 nm by auto
    with 7 nm l1 l2 l3 e show ?thesis by auto
  qed
qed

lemma str_bytes_less: "s < t \<Longrightarrow> str_bytes s < str_bytes t"
proof (induction s arbitrary: t)
  case Nil
  then show ?case by (cases t) (auto intro: neq_le_trans)
next
  case (Cons c s)
  then show ?case
    by (cases t) (auto intro: utf8_char_less simp: append_lexord_common)
qed

text \<open>The byte order that Rust (and the peer) use and the model's order agree.\<close>

lemma str_bytes_less_iff: "str_bytes s < str_bytes t \<longleftrightarrow> s < t"
  by (metis str_bytes_less less_asym linorder_neqE)

lemma str_bytes_le_iff: "str_bytes s \<le> str_bytes t \<longleftrightarrow> s \<le> t"
  by (simp add: linorder_not_less [symmetric] str_bytes_less_iff)

end
