(* ===== verification/Rust_Num.thy ===== *)
theory Rust_Num imports Rust_Str
begin

section \<open>Trimming, printing and parsing of primitive values\<close>

text \<open>
  The parts of the standard library's text conversions that the shim calls:
  \<open>str::trim\<close>, \<open>Display\<close> for integers, \<open>bool\<close>, \<open>Utf8Error\<close> and \<open>ParseIntError\<close>,
  and \<open>FromStr\<close> for the integer types and \<open>bool\<close>. Integers are \<open>int\<close> with the
  bounds of their Rust type; the parser's accumulator overflows as the checked
  arithmetic of the standard library does.
\<close>

subsection \<open>trim\<close>

definition is_whitespace :: "uchr \<Rightarrow> bool" where
  "is_whitespace c \<longleftrightarrow> (let n = code_point c in
     (9 \<le> n \<and> n \<le> 13) \<or> n = 0x20 \<or> n = 0x85 \<or> n = 0xA0 \<or> n = 0x1680 \<or> (0x2000 \<le> n \<and> n \<le> 0x200A)
     \<or> n = 0x2028 \<or> n = 0x2029 \<or> n = 0x202F \<or> n = 0x205F \<or> n = 0x3000)"

definition trim :: "str \<Rightarrow> str" where
  "trim s = rev (dropWhile is_whitespace (rev (dropWhile is_whitespace s)))"

lemma dropWhile_none: "(\<And>x. x \<in> set xs \<Longrightarrow> \<not> P x) \<Longrightarrow> dropWhile P xs = xs"
  by (cases xs) simp_all

lemma trim_id: "(\<And>c. c \<in> set s \<Longrightarrow> \<not> is_whitespace c) \<Longrightarrow> trim s = s"
  using dropWhile_none [of s is_whitespace] dropWhile_none [of "rev s" is_whitespace]
  by (simp add: trim_def)

lemma dropWhile_append_all: "(\<And>x. x \<in> set xs \<Longrightarrow> P x) \<Longrightarrow> dropWhile P (xs @ ys) = dropWhile P ys"
  by (induction xs) auto

lemma trim_padded:
  assumes "\<And>c. c \<in> set ws \<union> set ws' \<Longrightarrow> is_whitespace c"
    and "s \<noteq> []" and "\<And>c. c \<in> set s \<Longrightarrow> \<not> is_whitespace c"
  shows "trim (ws @ s @ ws') = s"
proof -
  have "dropWhile is_whitespace (ws @ s @ ws') = s @ ws'"
    using assms by (cases s) (simp_all add: dropWhile_append_all)
  moreover have "dropWhile is_whitespace (rev ws' @ rev s) = rev s"
    using assms dropWhile_append_all [of "rev ws'" is_whitespace "rev s"] dropWhile_none [of "rev s" is_whitespace]
    by simp
  ultimately show ?thesis by (simp add: trim_def)
qed

subsection \<open>Decimal digits\<close>

definition digit_chr :: "nat \<Rightarrow> uchr" where
  "digit_chr d = uchr_of (48 + d)"

definition to_digit :: "uchr \<Rightarrow> nat option" where
  "to_digit c = (let n = code_point c in if 48 \<le> n \<and> n \<le> 57 then Some (n - 48) else None)"

fun show_nat :: "nat \<Rightarrow> str" where
  "show_nat n = (if n < 10 then [digit_chr n] else show_nat (n div 10) @ [digit_chr (n mod 10)])"

declare show_nat.simps [simp del]

definition show_int :: "int \<Rightarrow> str" where
  "show_int i = (if i < 0 then lit ''-'' @ show_nat (nat (- i)) else show_nat (nat i))"

definition show_bool :: "bool \<Rightarrow> str" where
  "show_bool b = (if b then lit ''true'' else lit ''false'')"

lemma code_point_digit_chr [simp]: "d < 10 \<Longrightarrow> code_point (digit_chr d) = 48 + d"
  by (simp add: digit_chr_def scalar_value_def)

lemma to_digit_digit_chr [simp]: "d < 10 \<Longrightarrow> to_digit (digit_chr d) = Some d"
  by (simp add: to_digit_def)

lemma show_nat_nonempty [simp]: "show_nat n \<noteq> []"
  by (simp add: show_nat.simps [of n])

lemma show_nat_digits: "c \<in> set (show_nat n) \<Longrightarrow> \<exists>d<10. c = digit_chr d"
proof (induction n rule: show_nat.induct)
  case (1 n)
  show ?case
  proof (cases "n < 10")
    case True
    with "1.prems" show ?thesis by (auto simp: show_nat.simps [of n])
  next
    case False
    with "1.prems" consider "c \<in> set (show_nat (n div 10))" | "c = digit_chr (n mod 10)"
      by (auto simp: show_nat.simps [of n])
    then show ?thesis
    proof cases
      case 1
      then show ?thesis using "1.IH" False by blast
    next
      case 2
      then show ?thesis by (intro exI [of _ "n mod 10"]) simp
    qed
  qed
qed

lemma digit_not_whitespace: "d < 10 \<Longrightarrow> \<not> is_whitespace (digit_chr d)"
  by (simp add: is_whitespace_def)

lemma show_int_not_whitespace: "c \<in> set (show_int i) \<Longrightarrow> \<not> is_whitespace c"
  by (auto simp: show_int_def lit_Cons is_whitespace_def split: if_splits dest!: show_nat_digits)

lemma trim_show_int [simp]: "trim (show_int i) = show_int i"
  by (rule trim_id) (rule show_int_not_whitespace)

subsection \<open>The integer types\<close>

datatype int_ty = U8 | U16 | U32 | U64 | Usize | I8 | I16 | I32 | I64 | Isize

fun int_ty_signed :: "int_ty \<Rightarrow> bool" where
  "int_ty_signed t = (t \<in> {I8, I16, I32, I64, Isize})"

fun int_ty_bits :: "int_ty \<Rightarrow> nat" where
  "int_ty_bits U8 = 8" | "int_ty_bits U16 = 16" | "int_ty_bits U32 = 32"
| "int_ty_bits U64 = 64" | "int_ty_bits Usize = 64"
| "int_ty_bits I8 = 8" | "int_ty_bits I16 = 16" | "int_ty_bits I32 = 32"
| "int_ty_bits I64 = 64" | "int_ty_bits Isize = 64"

definition int_ty_min :: "int_ty \<Rightarrow> int" where
  "int_ty_min t = (if int_ty_signed t then - (2 ^ (int_ty_bits t - 1)) else 0)"

definition int_ty_max :: "int_ty \<Rightarrow> int" where
  "int_ty_max t = (if int_ty_signed t then 2 ^ (int_ty_bits t - 1) - 1 else 2 ^ int_ty_bits t - 1)"

lemma int_ty_min_le_0: "int_ty_min t \<le> 0"
  by (cases t) (simp_all add: int_ty_min_def)

lemma int_ty_max_ge_0: "0 \<le> int_ty_max t"
  by (cases t) (simp_all add: int_ty_max_def)

subsection \<open>FromStr for integers\<close>

datatype int_error = IntEmpty | IntInvalidDigit | IntPosOverflow | IntNegOverflow

fun int_error_display :: "int_error \<Rightarrow> str" where
  "int_error_display IntEmpty = lit ''cannot parse integer from empty string''"
| "int_error_display IntInvalidDigit = lit ''invalid digit found in string''"
| "int_error_display IntPosOverflow = lit ''number too large to fit in target type''"
| "int_error_display IntNegOverflow = lit ''number too small to fit in target type''"

fun parse_pos :: "int_ty \<Rightarrow> int \<Rightarrow> str \<Rightarrow> int_error + int" where
  "parse_pos t acc [] = Inr acc"
| "parse_pos t acc (c # cs) = (case to_digit c of None \<Rightarrow> Inl IntInvalidDigit
     | Some d \<Rightarrow> if acc * 10 > int_ty_max t then Inl IntPosOverflow
         else if acc * 10 + int d > int_ty_max t then Inl IntPosOverflow
         else parse_pos t (acc * 10 + int d) cs)"

fun parse_neg :: "int_ty \<Rightarrow> int \<Rightarrow> str \<Rightarrow> int_error + int" where
  "parse_neg t acc [] = Inr acc"
| "parse_neg t acc (c # cs) = (case to_digit c of None \<Rightarrow> Inl IntInvalidDigit
     | Some d \<Rightarrow> if acc * 10 < int_ty_min t then Inl IntNegOverflow
         else if acc * 10 - int d < int_ty_min t then Inl IntNegOverflow
         else parse_neg t (acc * 10 - int d) cs)"

definition parse_int :: "int_ty \<Rightarrow> str \<Rightarrow> int_error + int" where
  "parse_int t s = (case s of [] \<Rightarrow> Inl IntEmpty
     | c # cs \<Rightarrow>
       if (c = uc (CHR ''+'') \<or> c = uc (CHR ''-'')) \<and> cs = [] then Inl IntInvalidDigit
       else if c = uc (CHR ''+'') then parse_pos t 0 cs
       else if c = uc (CHR ''-'') \<and> int_ty_signed t then parse_neg t 0 cs
       else parse_pos t 0 s)"

definition parse_bool :: "str \<Rightarrow> bool option" where
  "parse_bool s = (if s = lit ''true'' then Some True else if s = lit ''false'' then Some False else None)"

definition utf8_error_display :: "utf8_error \<Rightarrow> str" where
  "utf8_error_display e = (case error_len e of
     Some n \<Rightarrow> lit ''invalid utf-8 sequence of '' @ show_nat n @ lit '' bytes from index '' @ show_nat (valid_up_to e)
   | None \<Rightarrow> lit ''incomplete utf-8 byte sequence from index '' @ show_nat (valid_up_to e))"

subsection \<open>Parsing inverts printing, and stays in the type's range\<close>

fun digits_value :: "nat \<Rightarrow> nat list \<Rightarrow> nat" where
  "digits_value acc [] = acc"
| "digits_value acc (d # ds) = digits_value (acc * 10 + d) ds"

lemma digits_value_append: "digits_value acc (ds @ [d]) = digits_value acc ds * 10 + d"
  by (induction ds arbitrary: acc) simp_all

lemma digits_value_mono: "acc \<le> digits_value acc ds"
proof (induction ds arbitrary: acc)
  case (Cons d ds)
  have "acc \<le> acc * 10 + d" by simp
  also have "\<dots> \<le> digits_value (acc * 10 + d) ds" by (rule Cons.IH)
  finally show ?case by simp
qed simp

lemma show_nat_digits_value:
  "\<exists>ds. show_nat n = map digit_chr ds \<and> (\<forall>d\<in>set ds. d < 10) \<and> digits_value 0 ds = n"
proof (induction n rule: show_nat.induct)
  case (1 n)
  show ?case
  proof (cases "n < 10")
    case True
    then show ?thesis by (intro exI [of _ "[n]"]) (simp add: show_nat.simps)
  next
    case False
    with 1 obtain ds where "show_nat (n div 10) = map digit_chr ds" "\<forall>d\<in>set ds. d < 10"
      "digits_value 0 ds = n div 10" by blast
    with False show ?thesis
      by (intro exI [of _ "ds @ [n mod 10]"]) (auto simp: show_nat.simps [of n] digits_value_append)
  qed
qed

lemma parse_pos_digits:
  assumes "\<forall>d\<in>set ds. d < 10" and "int (digits_value acc ds) \<le> int_ty_max t"
  shows "parse_pos t (int acc) (map digit_chr ds) = Inr (int (digits_value acc ds))"
  using assms
proof (induction ds arbitrary: acc)
  case (Cons d ds)
  have "acc * 10 + d \<le> digits_value acc (d # ds)" using digits_value_mono by simp
  then have "int acc * 10 + int d \<le> int_ty_max t" using Cons.prems by linarith
  with Cons.IH [of "acc * 10 + d"] Cons.prems show ?case by (auto simp: ac_simps)
qed simp

lemma parse_neg_digits:
  assumes "\<forall>d\<in>set ds. d < 10" and "int_ty_min t \<le> - int (digits_value acc ds)"
  shows "parse_neg t (- int acc) (map digit_chr ds) = Inr (- int (digits_value acc ds))"
  using assms
proof (induction ds arbitrary: acc)
  case (Cons d ds)
  have "acc * 10 + d \<le> digits_value acc (d # ds)" using digits_value_mono by simp
  then have b: "int_ty_min t \<le> - int acc * 10 - int d" using Cons.prems by linarith
  then have "parse_neg t (- int acc) (map digit_chr (d # ds))
      = parse_neg t (- int acc * 10 - int d) (map digit_chr ds)"
    using Cons.prems(1) by simp
  also have "- int acc * 10 - int d = - int (acc * 10 + d)" by simp
  also have "parse_neg t \<dots> (map digit_chr ds) = Inr (- int (digits_value (acc * 10 + d) ds))"
    using Cons.prems by (intro Cons.IH) simp_all
  finally show ?case by simp
qed simp

lemma uc_sign_not_digit: "d < 10 \<Longrightarrow> digit_chr d \<noteq> uc (CHR ''+'') \<and> digit_chr d \<noteq> uc (CHR ''-'')"
  by (auto simp: uchr_eq_iff)

lemma parse_int_show_int:
  assumes "int_ty_min t \<le> i" and "i \<le> int_ty_max t"
  shows "parse_int t (show_int i) = Inr i"
proof (cases "i < 0")
  case True
  obtain ds where ds: "show_nat (nat (- i)) = map digit_chr ds" "\<forall>d\<in>set ds. d < 10"
    "digits_value 0 ds = nat (- i)" using show_nat_digits_value by blast
  then have "ds \<noteq> []" using show_nat_nonempty [of "nat (- i)"] by auto
  moreover have "int_ty_signed t" using True assms by (cases t) (simp_all add: int_ty_min_def)
  ultimately show ?thesis using True ds assms parse_neg_digits [of ds t 0]
    by (simp add: show_int_def parse_int_def lit_Cons)
next
  case False
  obtain ds where ds: "show_nat (nat i) = map digit_chr ds" "\<forall>d\<in>set ds. d < 10"
    "digits_value 0 ds = nat i" using show_nat_digits_value by blast
  then obtain d ds' where "ds = d # ds'" using show_nat_nonempty [of "nat i"] by (cases ds) auto
  with False ds assms parse_pos_digits [of ds 0 t] show ?thesis
    by (auto simp: show_int_def parse_int_def uc_sign_not_digit simp del: parse_pos.simps)
qed

text \<open>Beyond the range the parsers fail, with the error of the side that overflows.\<close>

lemma parse_pos_overflow:
  assumes "\<forall>d\<in>set ds. d < 10" and "int acc \<le> int_ty_max t" and "int_ty_max t < int (digits_value acc ds)"
  shows "parse_pos t (int acc) (map digit_chr ds) = Inl IntPosOverflow"
  using assms
proof (induction ds arbitrary: acc)
  case (Cons d ds)
  show ?case
  proof (cases "int acc * 10 + int d \<le> int_ty_max t")
    case True
    with Cons.IH [of "acc * 10 + d"] Cons.prems show ?thesis by (auto simp: ac_simps)
  next
    case False
    with Cons.prems show ?thesis by simp
  qed
qed simp

lemma parse_neg_overflow:
  assumes "\<forall>d\<in>set ds. d < 10" and "int_ty_min t \<le> - int acc" and "- int (digits_value acc ds) < int_ty_min t"
  shows "parse_neg t (- int acc) (map digit_chr ds) = Inl IntNegOverflow"
  using assms
proof (induction ds arbitrary: acc)
  case (Cons d ds)
  show ?case
  proof (cases "int_ty_min t \<le> - int acc * 10 - int d")
    case True
    then have "parse_neg t (- int acc) (map digit_chr (d # ds)) = parse_neg t (- int acc * 10 - int d) (map digit_chr ds)"
      using Cons.prems(1) by simp
    also have "- int acc * 10 - int d = - int (acc * 10 + d)" by simp
    also have "parse_neg t \<dots> (map digit_chr ds) = Inl IntNegOverflow" using True Cons.prems by (intro Cons.IH) (simp_all add: algebra_simps)
    finally show ?thesis .
  next
    case False
    with Cons.prems show ?thesis by simp
  qed
qed simp

lemma parse_int_show_int_iff:
  "parse_int t (show_int i) =
     (if int_ty_max t < i then Inl IntPosOverflow
      else if int_ty_min t \<le> i then Inr i
      else if int_ty_signed t then Inl IntNegOverflow else Inl IntInvalidDigit)"
proof (cases "int_ty_min t \<le> i \<and> i \<le> int_ty_max t")
  case True
  then show ?thesis by (simp add: parse_int_show_int)
next
  case out: False
  show ?thesis
  proof (cases "i < 0")
    case True
    obtain ds where ds: "show_nat (nat (- i)) = map digit_chr ds" "\<forall>d\<in>set ds. d < 10"
      "digits_value 0 ds = nat (- i)" using show_nat_digits_value by blast
    then have "ds \<noteq> []" using show_nat_nonempty [of "nat (- i)"] by auto
    moreover have "to_digit (uc (CHR ''-'')) = None" by (simp add: to_digit_def)
    ultimately show ?thesis using True out ds int_ty_min_le_0 [of t] int_ty_max_ge_0 [of t] parse_neg_overflow [of ds t 0]
      by (simp add: show_int_def parse_int_def lit_Cons)
  next
    case False
    obtain ds where ds: "show_nat (nat i) = map digit_chr ds" "\<forall>d\<in>set ds. d < 10"
      "digits_value 0 ds = nat i" using show_nat_digits_value by blast
    then obtain d ds' where "ds = d # ds'" using show_nat_nonempty [of "nat i"] by (cases ds) auto
    with False out ds int_ty_min_le_0 [of t] int_ty_max_ge_0 [of t] parse_pos_overflow [of ds 0 t] show ?thesis
      by (auto simp: show_int_def parse_int_def uc_sign_not_digit simp del: parse_pos.simps)
  qed
qed

lemma show_int_nonempty [simp]: "show_int i \<noteq> []"
  by (simp add: show_int_def)

lemma trim_padded_int:
  "(\<And>c. c \<in> set ws \<union> set ws' \<Longrightarrow> is_whitespace c) \<Longrightarrow> trim (ws @ show_int i @ ws') = show_int i"
  by (rule trim_padded) (auto dest: show_int_not_whitespace)

lemma parse_pos_range:
  assumes "parse_pos t acc s = Inr i" and "0 \<le> acc" and "acc \<le> int_ty_max t"
  shows "0 \<le> i \<and> i \<le> int_ty_max t"
  using assms
proof (induction s arbitrary: acc)
  case (Cons c s)
  then obtain d where "\<not> acc * 10 + int d > int_ty_max t" "parse_pos t (acc * 10 + int d) s = Inr i"
    by (auto split: option.splits if_splits)
  with Cons show ?case by simp
qed simp

lemma parse_neg_range:
  assumes "parse_neg t acc s = Inr i" and "acc \<le> 0" and "int_ty_min t \<le> acc"
  shows "int_ty_min t \<le> i \<and> i \<le> 0"
  using assms
proof (induction s arbitrary: acc)
  case (Cons c s)
  then obtain d where "\<not> acc * 10 - int d < int_ty_min t" "parse_neg t (acc * 10 - int d) s = Inr i"
    by (auto split: option.splits if_splits)
  with Cons show ?case by simp
qed simp

lemma parse_int_range:
  assumes "parse_int t s = Inr i"
  shows "int_ty_min t \<le> i \<and> i \<le> int_ty_max t"
proof -
  from assms obtain cs where "parse_pos t 0 cs = Inr i \<or> parse_neg t 0 cs = Inr i"
    by (auto simp: parse_int_def simp del: parse_pos.simps parse_neg.simps split: list.splits if_splits)
  then show ?thesis
    using int_ty_min_le_0 [of t] int_ty_max_ge_0 [of t]
      parse_pos_range [of t 0 cs i] parse_neg_range [of t 0 cs i] by auto
qed

text \<open>
  The numerals of an integer type and their values: decimal digits, with a plus sign before them or none, or, for
  a signed type, with a minus sign.
\<close>

definition decimal :: "int_ty \<Rightarrow> str \<Rightarrow> int \<Rightarrow> bool" where
  "decimal t s i \<longleftrightarrow> (\<exists>ds. ds \<noteq> [] \<and> (\<forall>d\<in>set ds. d < 10)
     \<and> ((s = map digit_chr ds \<or> s = uc (CHR ''+'') # map digit_chr ds) \<and> i = int (digits_value 0 ds)
       \<or> int_ty_signed t \<and> s = uc (CHR ''-'') # map digit_chr ds \<and> i = - int (digits_value 0 ds)))"

lemma to_digit_Some: "to_digit c = Some d \<Longrightarrow> d < 10 \<and> c = digit_chr d"
  by (auto simp: to_digit_def Let_def uchr_eq_iff split: if_splits)

lemma parse_pos_Inr:
  assumes "parse_pos t (int acc) s = Inr i"
  shows "\<exists>ds. (\<forall>d\<in>set ds. d < 10) \<and> s = map digit_chr ds \<and> i = int (digits_value acc ds)"
  using assms
proof (induction s arbitrary: acc)
  case Nil
  then show ?case by (intro exI [of _ "[]"]) simp
next
  case (Cons c s)
  then obtain d where d: "to_digit c = Some d" "parse_pos t (int acc * 10 + int d) s = Inr i"
    by (auto split: option.splits if_splits)
  then obtain ds where "\<forall>d\<in>set ds. d < 10" "s = map digit_chr ds" "i = int (digits_value (acc * 10 + d) ds)"
    using Cons.IH [of "acc * 10 + d"] by auto
  with to_digit_Some [OF d(1)] show ?case by (intro exI [of _ "d # ds"]) simp
qed

lemma parse_neg_Inr:
  assumes "parse_neg t (- int acc) s = Inr i"
  shows "\<exists>ds. (\<forall>d\<in>set ds. d < 10) \<and> s = map digit_chr ds \<and> i = - int (digits_value acc ds)"
  using assms
proof (induction s arbitrary: acc)
  case Nil
  then show ?case by (intro exI [of _ "[]"]) simp
next
  case (Cons c s)
  then obtain d where d: "to_digit c = Some d" "parse_neg t (- int acc * 10 - int d) s = Inr i"
    by (auto split: option.splits if_splits)
  moreover have "- int acc * 10 - int d = - int (acc * 10 + d)" by simp
  ultimately obtain ds where "\<forall>d\<in>set ds. d < 10" "s = map digit_chr ds" "i = - int (digits_value (acc * 10 + d) ds)"
    using Cons.IH [of "acc * 10 + d"] by metis
  with to_digit_Some [OF d(1)] show ?case by (intro exI [of _ "d # ds"]) simp
qed

text \<open>\<open>FromStr\<close> accepts exactly the numerals whose value is in the type's range.\<close>

lemma parse_int_sound:
  assumes "parse_int t s = Inr i"
  shows "decimal t s i"
proof -
  from assms obtain c cs where s: "s = c # cs" by (cases s) (auto simp: parse_int_def)
  consider (plus) "c = uc (CHR ''+'')" "cs \<noteq> []" "parse_pos t 0 cs = Inr i"
    | (minus) "c = uc (CHR ''-'')" "cs \<noteq> []" "int_ty_signed t" "parse_neg t 0 cs = Inr i"
    | (digits) "parse_pos t 0 s = Inr i"
    using assms by (auto simp: parse_int_def s simp del: parse_pos.simps int_ty_signed.simps split: if_splits)
  then show ?thesis
  proof cases
    case plus
    from parse_pos_Inr [of t 0 cs i] plus s show ?thesis by (auto simp: decimal_def)
  next
    case minus
    from parse_neg_Inr [of t 0 cs i] minus s show ?thesis by (auto simp: decimal_def simp del: int_ty_signed.simps)
  next
    case digits
    from parse_pos_Inr [of t 0 s i] digits s show ?thesis by (auto simp: decimal_def)
  qed
qed

lemma parse_int_complete:
  assumes "decimal t s i" and "int_ty_min t \<le> i" and "i \<le> int_ty_max t"
  shows "parse_int t s = Inr i"
proof -
  from assms(1) obtain ds where ds: "ds \<noteq> []" "\<forall>d\<in>set ds. d < 10"
    and cases: "(s = map digit_chr ds \<or> s = uc (CHR ''+'') # map digit_chr ds) \<and> i = int (digits_value 0 ds)
       \<or> int_ty_signed t \<and> s = uc (CHR ''-'') # map digit_chr ds \<and> i = - int (digits_value 0 ds)"
    by (auto simp: decimal_def)
  then obtain d ds' where d: "ds = d # ds'" "d < 10" by (cases ds) auto
  from cases show ?thesis
  proof
    assume pos: "(s = map digit_chr ds \<or> s = uc (CHR ''+'') # map digit_chr ds) \<and> i = int (digits_value 0 ds)"
    with parse_pos_digits [OF ds(2), of 0 t] assms(3) have "parse_pos t 0 (map digit_chr ds) = Inr i" by simp
    with pos d show ?thesis by (auto simp: parse_int_def uc_sign_not_digit simp del: parse_pos.simps)
  next
    assume neg: "int_ty_signed t \<and> s = uc (CHR ''-'') # map digit_chr ds \<and> i = - int (digits_value 0 ds)"
    with parse_neg_digits [OF ds(2), of t 0] assms(2) have "parse_neg t 0 (map digit_chr ds) = Inr i" by simp
    with neg ds(1) show ?thesis by (auto simp: parse_int_def uchr_eq_iff simp del: parse_neg.simps int_ty_signed.simps)
  qed
qed

lemma parse_int_iff: "parse_int t s = Inr i \<longleftrightarrow> decimal t s i \<and> int_ty_min t \<le> i \<and> i \<le> int_ty_max t"
  using parse_int_sound parse_int_complete parse_int_range by blast

subsection \<open>Debug formatting of strings\<close>

text \<open>
  \<open>{s:?}\<close> quotes a string: the quote, the backslash and the usual control characters have
  two-character escapes, the other control characters and the characters for which
  \<open>esc\<close> holds are written \<open>\u{hex}\<close>. \<open>esc\<close> stands for the Unicode tables of the standard
  library (not printable, or extending a grapheme) and is only asked beyond ASCII.
\<close>

definition hex_chr :: "nat \<Rightarrow> uchr" where
  "hex_chr d = (if d < 10 then uchr_of (48 + d) else uchr_of (87 + d))"

fun show_hex :: "nat \<Rightarrow> str" where
  "show_hex n = (if n < 16 then [hex_chr n] else show_hex (n div 16) @ [hex_chr (n mod 16)])"

declare show_hex.simps [simp del]

definition escape_debug :: "(uchr \<Rightarrow> bool) \<Rightarrow> uchr \<Rightarrow> str" where
  "escape_debug esc c = (let n = code_point c in
     if n = 0 then [uchr_of 92, uchr_of 48]
     else if n = 9 then [uchr_of 92, uchr_of 116]
     else if n = 13 then [uchr_of 92, uchr_of 114]
     else if n = 10 then [uchr_of 92, uchr_of 110]
     else if n = 92 \<or> n = 34 then [uchr_of 92, c]
     else if 32 \<le> n \<and> n < 127 then [c]
     else if n < 128 \<or> esc c then lit (CHR 0x5C # ''u{'') @ show_hex n @ lit ''}''
     else [c])"

definition debug_str :: "(uchr \<Rightarrow> bool) \<Rightarrow> str \<Rightarrow> str" where
  "debug_str esc s = uchr_of 34 # concat (map (escape_debug esc) s) @ [uchr_of 34]"

end
