(* ===== verification/Messages.thy ===== *)
theory Messages imports Rust_Num
begin

section \<open>The protobuf messages of the shim protocol\<close>

text \<open>
  One record per generated message struct the shim uses
  (\<open>fabric-shim-protos/src/generated\<close>), with the struct's fields in its order, and the
  message type enumeration. A prost enumeration field is stored as its \<open>i32\<close>; the
  generated getter \<open>r#type()\<close> reads it and gives the default \<open>Undefined\<close> for a number the
  enumeration does not have. A \<open>HashMap\<close> field is a finite map.
\<close>

subsection \<open>ChaincodeMessage::Type\<close>

datatype msg_type =
    MT_Undefined
  | MT_Register
  | MT_Registered
  | MT_Init
  | MT_Ready
  | MT_Transaction
  | MT_Completed
  | MT_Error
  | MT_GetState
  | MT_PutState
  | MT_DelState
  | MT_InvokeChaincode
  | MT_Response
  | MT_GetStateByRange
  | MT_GetQueryResult
  | MT_QueryStateNext
  | MT_QueryStateClose
  | MT_Keepalive
  | MT_GetHistoryForKey
  | MT_GetStateMetadata
  | MT_PutStateMetadata
  | MT_GetPrivateDataHash
  | MT_PurgePrivateData
  | MT_WriteBatchState
  | MT_GetStateMultiple

fun msg_type_i32 :: "msg_type \<Rightarrow> i32" where
  "msg_type_i32 MT_Undefined = 0"
| "msg_type_i32 MT_Register = 1"
| "msg_type_i32 MT_Registered = 2"
| "msg_type_i32 MT_Init = 3"
| "msg_type_i32 MT_Ready = 4"
| "msg_type_i32 MT_Transaction = 5"
| "msg_type_i32 MT_Completed = 6"
| "msg_type_i32 MT_Error = 7"
| "msg_type_i32 MT_GetState = 8"
| "msg_type_i32 MT_PutState = 9"
| "msg_type_i32 MT_DelState = 10"
| "msg_type_i32 MT_InvokeChaincode = 11"
| "msg_type_i32 MT_Response = 13"
| "msg_type_i32 MT_GetStateByRange = 14"
| "msg_type_i32 MT_GetQueryResult = 15"
| "msg_type_i32 MT_QueryStateNext = 16"
| "msg_type_i32 MT_QueryStateClose = 17"
| "msg_type_i32 MT_Keepalive = 18"
| "msg_type_i32 MT_GetHistoryForKey = 19"
| "msg_type_i32 MT_GetStateMetadata = 20"
| "msg_type_i32 MT_PutStateMetadata = 21"
| "msg_type_i32 MT_GetPrivateDataHash = 22"
| "msg_type_i32 MT_PurgePrivateData = 23"
| "msg_type_i32 MT_WriteBatchState = 24"
| "msg_type_i32 MT_GetStateMultiple = 25"

definition msg_types :: "msg_type list" where
  "msg_types = [MT_Undefined, MT_Register, MT_Registered, MT_Init, MT_Ready, MT_Transaction, MT_Completed, MT_Error, MT_GetState, MT_PutState, MT_DelState, MT_InvokeChaincode, MT_Response, MT_GetStateByRange, MT_GetQueryResult, MT_QueryStateNext, MT_QueryStateClose, MT_Keepalive, MT_GetHistoryForKey, MT_GetStateMetadata, MT_PutStateMetadata, MT_GetPrivateDataHash, MT_PurgePrivateData, MT_WriteBatchState, MT_GetStateMultiple]"

text \<open>\<open>r#type()\<close>: the enumeration value of the stored number, \<open>Undefined\<close> if there is none.\<close>

definition msg_type_of :: "i32 \<Rightarrow> msg_type" where
  "msg_type_of n = (case List.find (\<lambda>t. msg_type_i32 t = n) msg_types of
     None \<Rightarrow> MT_Undefined | Some t \<Rightarrow> t)"

fun as_str_name :: "msg_type \<Rightarrow> str" where
  "as_str_name MT_Undefined = lit ''UNDEFINED''"
| "as_str_name MT_Register = lit ''REGISTER''"
| "as_str_name MT_Registered = lit ''REGISTERED''"
| "as_str_name MT_Init = lit ''INIT''"
| "as_str_name MT_Ready = lit ''READY''"
| "as_str_name MT_Transaction = lit ''TRANSACTION''"
| "as_str_name MT_Completed = lit ''COMPLETED''"
| "as_str_name MT_Error = lit ''ERROR''"
| "as_str_name MT_GetState = lit ''GET_STATE''"
| "as_str_name MT_PutState = lit ''PUT_STATE''"
| "as_str_name MT_DelState = lit ''DEL_STATE''"
| "as_str_name MT_InvokeChaincode = lit ''INVOKE_CHAINCODE''"
| "as_str_name MT_Response = lit ''RESPONSE''"
| "as_str_name MT_GetStateByRange = lit ''GET_STATE_BY_RANGE''"
| "as_str_name MT_GetQueryResult = lit ''GET_QUERY_RESULT''"
| "as_str_name MT_QueryStateNext = lit ''QUERY_STATE_NEXT''"
| "as_str_name MT_QueryStateClose = lit ''QUERY_STATE_CLOSE''"
| "as_str_name MT_Keepalive = lit ''KEEPALIVE''"
| "as_str_name MT_GetHistoryForKey = lit ''GET_HISTORY_FOR_KEY''"
| "as_str_name MT_GetStateMetadata = lit ''GET_STATE_METADATA''"
| "as_str_name MT_PutStateMetadata = lit ''PUT_STATE_METADATA''"
| "as_str_name MT_GetPrivateDataHash = lit ''GET_PRIVATE_DATA_HASH''"
| "as_str_name MT_PurgePrivateData = lit ''PURGE_PRIVATE_DATA''"
| "as_str_name MT_WriteBatchState = lit ''WRITE_BATCH_STATE''"
| "as_str_name MT_GetStateMultiple = lit ''GET_STATE_MULTIPLE''"

definition from_str_name :: "str \<Rightarrow> msg_type option" where
  "from_str_name s = List.find (\<lambda>t. as_str_name t = s) msg_types"

text \<open>The derived \<open>Debug\<close> text, which appears in protocol error messages.\<close>

fun msg_type_debug :: "msg_type \<Rightarrow> str" where
  "msg_type_debug MT_Undefined = lit ''Undefined''"
| "msg_type_debug MT_Register = lit ''Register''"
| "msg_type_debug MT_Registered = lit ''Registered''"
| "msg_type_debug MT_Init = lit ''Init''"
| "msg_type_debug MT_Ready = lit ''Ready''"
| "msg_type_debug MT_Transaction = lit ''Transaction''"
| "msg_type_debug MT_Completed = lit ''Completed''"
| "msg_type_debug MT_Error = lit ''Error''"
| "msg_type_debug MT_GetState = lit ''GetState''"
| "msg_type_debug MT_PutState = lit ''PutState''"
| "msg_type_debug MT_DelState = lit ''DelState''"
| "msg_type_debug MT_InvokeChaincode = lit ''InvokeChaincode''"
| "msg_type_debug MT_Response = lit ''Response''"
| "msg_type_debug MT_GetStateByRange = lit ''GetStateByRange''"
| "msg_type_debug MT_GetQueryResult = lit ''GetQueryResult''"
| "msg_type_debug MT_QueryStateNext = lit ''QueryStateNext''"
| "msg_type_debug MT_QueryStateClose = lit ''QueryStateClose''"
| "msg_type_debug MT_Keepalive = lit ''Keepalive''"
| "msg_type_debug MT_GetHistoryForKey = lit ''GetHistoryForKey''"
| "msg_type_debug MT_GetStateMetadata = lit ''GetStateMetadata''"
| "msg_type_debug MT_PutStateMetadata = lit ''PutStateMetadata''"
| "msg_type_debug MT_GetPrivateDataHash = lit ''GetPrivateDataHash''"
| "msg_type_debug MT_PurgePrivateData = lit ''PurgePrivateData''"
| "msg_type_debug MT_WriteBatchState = lit ''WriteBatchState''"
| "msg_type_debug MT_GetStateMultiple = lit ''GetStateMultiple''"

lemma msg_types_complete: "t \<in> set msg_types"
  by (cases t) (simp_all add: msg_types_def)

lemma find_inj:
  assumes "inj_on f (set xs)" and "x \<in> set xs"
  shows "List.find (\<lambda>y. f y = f x) xs = Some x"
  using assms
proof (induction xs)
  case (Cons y ys)
  show ?case
  proof (cases "f y = f x")
    case True
    with Cons.prems have "y = x" by (auto dest: inj_onD)
    then show ?thesis by simp
  next
    case False
    with Cons show ?thesis by (auto simp: inj_on_def)
  qed
qed simp

lemma inj_msg_type_i32: "inj msg_type_i32"
proof -
  have "distinct (map msg_type_i32 msg_types)" by (simp add: msg_types_def)
  moreover have "set msg_types = UNIV" using msg_types_complete by blast
  ultimately show ?thesis by (simp add: distinct_map)
qed

lemma inj_as_str_name: "inj as_str_name"
proof -
  have "distinct (map as_str_name msg_types)" by (simp add: msg_types_def)
  moreover have "set msg_types = UNIV" using msg_types_complete by blast
  ultimately show ?thesis by (simp add: distinct_map)
qed

lemma msg_type_of_i32 [simp]: "msg_type_of (msg_type_i32 t) = t"
  using find_inj [OF inj_on_subset [OF inj_msg_type_i32 subset_UNIV] msg_types_complete]
  by (simp add: msg_type_of_def)

lemma from_str_name_as_str_name [simp]: "from_str_name (as_str_name t) = Some t"
  using find_inj [OF inj_on_subset [OF inj_as_str_name subset_UNIV] msg_types_complete]
  by (simp add: from_str_name_def)

lemma msg_type_of_unknown: "n \<notin> msg_type_i32 ` UNIV \<Longrightarrow> msg_type_of n = MT_Undefined"
proof -
  assume "n \<notin> msg_type_i32 ` UNIV"
  then have "List.find (\<lambda>t. msg_type_i32 t = n) msg_types = None"
    by (auto simp: find_None_iff)
  then show ?thesis by (simp add: msg_type_of_def)
qed

subsection \<open>Message structs\<close>

record timestamp =
  ts_seconds :: i64
  ts_nanos :: i32

record chaincode_event =
  ev_chaincode_id :: str
  ev_tx_id :: str
  ev_event_name :: str
  ev_payload :: bytes

record chaincode_id =
  cid_path :: str
  cid_name :: str
  cid_version :: str

record chaincode_input =
  ci_args :: "bytes list"
  ci_decorations :: "(str, bytes) fmap"
  ci_is_init :: bool

record chaincode_spec =
  cs_type :: i32
  cs_chaincode_id :: "chaincode_id option"
  cs_input :: "chaincode_input option"
  cs_timeout :: i32

record pb_response =
  pr_status :: i32
  pr_message :: str
  pr_payload :: bytes

record signed_proposal =
  sp_proposal_bytes :: bytes
  sp_signature :: bytes

record proposal =
  prop_header :: bytes
  prop_payload :: bytes
  prop_extension :: bytes

record chaincode_proposal_payload =
  cpp_input :: bytes
  cpp_transient_map :: "(str, bytes) fmap"

record header =
  hd_channel_header :: bytes
  hd_signature_header :: bytes

record channel_header =
  ch_type :: i32
  ch_version :: i32
  ch_timestamp :: "timestamp option"
  ch_channel_id :: str
  ch_tx_id :: str
  ch_epoch :: i64
  ch_extension :: bytes
  ch_tls_cert_hash :: bytes

record signature_header =
  sh_creator :: bytes
  sh_nonce :: bytes

record serialized_identity =
  si_mspid :: str
  si_id_bytes :: bytes

record chaincode_message =
  cm_type :: i32
  cm_timestamp :: "timestamp option"
  cm_payload :: bytes
  cm_txid :: str
  cm_proposal :: "signed_proposal option"
  cm_chaincode_event :: "chaincode_event option"
  cm_channel_id :: str

record get_state =
  gs_key :: str
  gs_collection :: str

record put_state =
  ps_key :: str
  ps_value :: bytes
  ps_collection :: str

record del_state =
  ds_key :: str
  ds_collection :: str

record purge_private_state =
  pps_key :: str
  pps_collection :: str

record get_state_by_range =
  gsr_start_key :: str
  gsr_end_key :: str
  gsr_collection :: str
  gsr_metadata :: bytes

record get_query_result =
  gqr_query :: str
  gqr_collection :: str
  gqr_metadata :: bytes

record query_metadata =
  qm_page_size :: i32
  qm_bookmark :: str

record get_history_for_key =
  ghk_key :: str

record query_state_next =
  qsn_id :: str

record query_state_close =
  qsc_id :: str

record query_result_bytes =
  qrb_result_bytes :: bytes

record query_response =
  qr_results :: "query_result_bytes list"
  qr_has_more :: bool
  qr_id :: str
  qr_metadata :: bytes

record query_response_metadata =
  qrm_fetched_records_count :: i32
  qrm_bookmark :: str

record kv =
  kv_namespace :: str
  kv_key :: str
  kv_value :: bytes

record key_modification =
  km_tx_id :: str
  km_value :: bytes
  km_timestamp :: "timestamp option"
  km_is_delete :: bool

text \<open>The generated \<open>r#type()\<close> getter, and the defaults \<open>..Default::default()\<close> uses.\<close>

definition cm_kind :: "chaincode_message \<Rightarrow> msg_type" where
  "cm_kind m = msg_type_of (cm_type m)"

definition default_chaincode_id :: chaincode_id where
  "default_chaincode_id = \<lparr>cid_path = [], cid_name = [], cid_version = []\<rparr>"

definition default_query_response_metadata :: query_response_metadata where
  "default_query_response_metadata = \<lparr>qrm_fetched_records_count = 0, qrm_bookmark = []\<rparr>"

end
