(* ===== verification/Codec.thy ===== *)
theory Codec imports Messages
begin

section \<open>The protobuf codec, as an interface\<close>

text \<open>
  Encoding and decoding are done by the \<open>prost\<close> crate, which is not part of the
  repository: a codec is a parameter of the model. The record \<open>prost\<close> bundles the
  codecs of the messages the shim encodes or decodes; a decoding error is its displayed
  text. What the shim relies on is the documented law that decoding an encoded
  message gives the message back (\<open>prost_ok\<close>). The locale \<open>lossless\<close> states the law
  for one message type and derives its consequences once. Theory \<open>Wire\<close> implements
  the protobuf wire format for these messages and proves the law, which shows that the
  hypothesis can hold.
\<close>

record 'm codec =
  encode :: "'m \<Rightarrow> bytes"
  decode :: "bytes \<Rightarrow> str + 'm"

locale lossless =
  fixes c :: "'m codec"
  assumes decode_encode: "decode c (encode c m) = Inr m"
begin

lemma encode_eq_iff: "encode c m = encode c n \<longleftrightarrow> m = n"
  by (metis decode_encode sum.inject(2))

lemma decode_of_encoded: "b = encode c m \<Longrightarrow> decode c b = Inr m"
  by (simp add: decode_encode)

lemma encode_collect: "res_collect (decode c) (map (encode c) ms) = Inr ms"
  by (induction ms) (simp_all add: decode_encode)

end

record prost =
  c_chaincode_id :: "chaincode_id codec"
  c_chaincode_input :: "chaincode_input codec"
  c_chaincode_spec :: "chaincode_spec codec"
  c_response :: "pb_response codec"
  c_proposal :: "proposal codec"
  c_header :: "header codec"
  c_channel_header :: "channel_header codec"
  c_signature_header :: "signature_header codec"
  c_chaincode_proposal_payload :: "chaincode_proposal_payload codec"
  c_serialized_identity :: "serialized_identity codec"
  c_chaincode_message :: "chaincode_message codec"
  c_get_state :: "get_state codec"
  c_put_state :: "put_state codec"
  c_del_state :: "del_state codec"
  c_purge_private_state :: "purge_private_state codec"
  c_get_state_by_range :: "get_state_by_range codec"
  c_get_query_result :: "get_query_result codec"
  c_query_metadata :: "query_metadata codec"
  c_get_history_for_key :: "get_history_for_key codec"
  c_query_state_next :: "query_state_next codec"
  c_query_state_close :: "query_state_close codec"
  c_query_response :: "query_response codec"
  c_query_response_metadata :: "query_response_metadata codec"
  c_kv :: "kv codec"
  c_key_modification :: "key_modification codec"

definition prost_ok :: "prost \<Rightarrow> bool" where
  "prost_ok P \<longleftrightarrow>
     lossless (c_chaincode_id P) \<and> lossless (c_chaincode_input P) \<and> lossless (c_chaincode_spec P)
   \<and> lossless (c_response P) \<and> lossless (c_proposal P) \<and> lossless (c_header P)
   \<and> lossless (c_channel_header P) \<and> lossless (c_signature_header P)
   \<and> lossless (c_chaincode_proposal_payload P) \<and> lossless (c_serialized_identity P)
   \<and> lossless (c_chaincode_message P) \<and> lossless (c_get_state P) \<and> lossless (c_put_state P)
   \<and> lossless (c_del_state P) \<and> lossless (c_purge_private_state P)
   \<and> lossless (c_get_state_by_range P) \<and> lossless (c_get_query_result P)
   \<and> lossless (c_query_metadata P) \<and> lossless (c_get_history_for_key P)
   \<and> lossless (c_query_state_next P) \<and> lossless (c_query_state_close P)
   \<and> lossless (c_query_response P) \<and> lossless (c_query_response_metadata P)
   \<and> lossless (c_kv P) \<and> lossless (c_key_modification P)"

text \<open>The law for every message of the bundle, as one collection of rewrite rules.\<close>

lemma prost_decode_encode [simp]:
  assumes "prost_ok P"
  shows "decode (c_chaincode_id P) (encode (c_chaincode_id P) m1) = Inr m1"
    and "decode (c_chaincode_input P) (encode (c_chaincode_input P) m2) = Inr m2"
    and "decode (c_chaincode_spec P) (encode (c_chaincode_spec P) m3) = Inr m3"
    and "decode (c_response P) (encode (c_response P) m4) = Inr m4"
    and "decode (c_proposal P) (encode (c_proposal P) m5) = Inr m5"
    and "decode (c_header P) (encode (c_header P) m6) = Inr m6"
    and "decode (c_channel_header P) (encode (c_channel_header P) m7) = Inr m7"
    and "decode (c_signature_header P) (encode (c_signature_header P) m8) = Inr m8"
    and "decode (c_chaincode_proposal_payload P) (encode (c_chaincode_proposal_payload P) m9) = Inr m9"
    and "decode (c_serialized_identity P) (encode (c_serialized_identity P) m10) = Inr m10"
    and "decode (c_chaincode_message P) (encode (c_chaincode_message P) m11) = Inr m11"
    and "decode (c_get_state P) (encode (c_get_state P) m12) = Inr m12"
    and "decode (c_put_state P) (encode (c_put_state P) m13) = Inr m13"
    and "decode (c_del_state P) (encode (c_del_state P) m14) = Inr m14"
    and "decode (c_purge_private_state P) (encode (c_purge_private_state P) m15) = Inr m15"
    and "decode (c_get_state_by_range P) (encode (c_get_state_by_range P) m16) = Inr m16"
    and "decode (c_get_query_result P) (encode (c_get_query_result P) m17) = Inr m17"
    and "decode (c_query_metadata P) (encode (c_query_metadata P) m18) = Inr m18"
    and "decode (c_get_history_for_key P) (encode (c_get_history_for_key P) m19) = Inr m19"
    and "decode (c_query_state_next P) (encode (c_query_state_next P) m20) = Inr m20"
    and "decode (c_query_state_close P) (encode (c_query_state_close P) m21) = Inr m21"
    and "decode (c_query_response P) (encode (c_query_response P) m22) = Inr m22"
    and "decode (c_query_response_metadata P) (encode (c_query_response_metadata P) m23) = Inr m23"
    and "decode (c_kv P) (encode (c_kv P) m24) = Inr m24"
    and "decode (c_key_modification P) (encode (c_key_modification P) m25) = Inr m25"
  using assms unfolding prost_ok_def by (simp_all add: lossless.decode_encode)

end
