(* ===== verification/Shim_Types.thy ===== *)
theory Shim_Types imports Codec
begin

section \<open>Errors and responses of the shim\<close>

text \<open>
  \<open>fabric-shim/src/error.rs\<close> and \<open>response.rs\<close>: the error enumeration with the text its
  \<open>Display\<close> derives, and the transaction response with its conversions. A
  \<open>prost::DecodeError\<close> is represented by its displayed text.
\<close>

subsection \<open>Error\<close>

datatype shim_error =
    ErrPeer str
  | ErrProtocol str
  | ErrDecode str
  | ErrConnectionClosed
  | ErrConfig str
  | ErrInvalidArgument str
  | ErrTransport str

fun error_display :: "shim_error \<Rightarrow> str" where
  "error_display (ErrPeer s) = lit ''peer error: '' @ s"
| "error_display (ErrProtocol s) = lit ''protocol error: '' @ s"
| "error_display (ErrDecode s) = lit ''decode error: '' @ s"
| "error_display ErrConnectionClosed = lit ''connection to peer closed''"
| "error_display (ErrConfig s) = lit ''configuration error: '' @ s"
| "error_display (ErrInvalidArgument s) = lit ''invalid argument: '' @ s"
| "error_display (ErrTransport s) = lit ''transport error: '' @ s"

text \<open>\<open>T::decode(bytes)?\<close>: the decoder's error becomes \<open>Error::Decode\<close>.\<close>

definition decode_or :: "'m codec \<Rightarrow> bytes \<Rightarrow> shim_error + 'm" where
  "decode_or c b = res_map_err ErrDecode (decode c b)"

lemma decode_or_simps:
  "decode c b = Inr m \<Longrightarrow> decode_or c b = Inr m"
  "decode c b = Inl e \<Longrightarrow> decode_or c b = Inl (ErrDecode e)"
  by (simp_all add: decode_or_def)

lemma decode_or_Inr_iff: "decode_or c b = Inr m \<longleftrightarrow> decode c b = Inr m"
  by (simp add: decode_or_def)

lemma decode_or_Inl_iff: "decode_or c b = Inl e \<longleftrightarrow> (\<exists>d. decode c b = Inl d \<and> e = ErrDecode d)"
  by (cases "decode c b") (auto simp: decode_or_def)

lemma decode_or_cases:
  obtains (ok) m where "decode c b = Inr m" "decode_or c b = Inr m"
  | (err) e where "decode c b = Inl e" "decode_or c b = Inl (ErrDecode e)"
  by (cases "decode c b") (auto simp: decode_or_def)

subsection \<open>Response\<close>

record response =
  rs_status :: i32
  rs_message :: str
  rs_payload :: bytes

definition OK_STATUS :: i32 where "OK_STATUS = 200"
definition ERROR_THRESHOLD :: i32 where "ERROR_THRESHOLD = 400"
definition ERROR_STATUS :: i32 where "ERROR_STATUS = 500"

definition success :: "bytes \<Rightarrow> response" where
  "success p = \<lparr>rs_status = OK_STATUS, rs_message = [], rs_payload = p\<rparr>"

definition success_empty :: response where
  "success_empty = success []"

definition response_error :: "str \<Rightarrow> response" where
  "response_error msg = \<lparr>rs_status = ERROR_STATUS, rs_message = msg, rs_payload = []\<rparr>"

text \<open>\<open>is_error\<close> compares the status as a signed number.\<close>

definition is_error :: "response \<Rightarrow> bool" where
  "is_error r \<longleftrightarrow> sint ERROR_THRESHOLD \<le> sint (rs_status r)"

definition into_proto :: "response \<Rightarrow> pb_response" where
  "into_proto r = \<lparr>pr_status = rs_status r, pr_message = rs_message r, pr_payload = rs_payload r\<rparr>"

definition from_proto :: "pb_response \<Rightarrow> response" where
  "from_proto p = \<lparr>rs_status = pr_status p, rs_message = pr_message p, rs_payload = pr_payload p\<rparr>"

text \<open>\<open>From<Result<Response, E>>\<close>, for an error type with display function \<open>disp\<close>.\<close>

fun response_from_result :: "('e \<Rightarrow> str) \<Rightarrow> 'e + response \<Rightarrow> response" where
  "response_from_result disp (Inr resp) = resp"
| "response_from_result disp (Inl e) = response_error (disp e)"

lemma from_into_proto [simp]: "from_proto (into_proto r) = r"
  by (simp add: from_proto_def into_proto_def)

lemma into_from_proto [simp]: "into_proto (from_proto p) = p"
  by (simp add: from_proto_def into_proto_def)

lemma into_proto_inject [simp]: "into_proto r = into_proto s \<longleftrightarrow> r = s"
  by (metis from_into_proto)

lemma success_not_error [simp]: "\<not> is_error (success p)"
  by (simp add: is_error_def success_def OK_STATUS_def ERROR_THRESHOLD_def)

lemma response_error_is_error [simp]: "is_error (response_error msg)"
  by (simp add: is_error_def response_error_def ERROR_STATUS_def ERROR_THRESHOLD_def)

lemma response_sel [simp]:
  "rs_status (success p) = OK_STATUS" "rs_message (success p) = []" "rs_payload (success p) = p"
  "rs_status (response_error s) = ERROR_STATUS" "rs_message (response_error s) = s"
  "rs_payload (response_error s) = []"
  by (simp_all add: success_def response_error_def)

end
