(* ===== verification/Io.thy ===== *)
theory Io imports Shim_Types
begin

section \<open>Asynchronous programs\<close>

text \<open>
  Chaincode is asynchronous code that talks to the peer. A program is a tree: it returns, or
  performs an effect and continues with what the environment answers. The effects
  are the ledger request (\<open>StubCore::request(..).await\<close>, answered with an error or the
  peer's message), the assignment of the event slot, and the panic. A \<open>Step\<close> either
  assigns the slot (\<open>SetEvent\<close>) or is one silent turn of a loop (\<open>Tau\<close>), so that a loop which never ends is a program too (an infinite tree).
  \<open>run_io\<close> runs a program against an environment that answers each request; \<open>None\<close>
  means that the run does not end.
\<close>

codatatype 'a io =
    Ret 'a
  | Step "chaincode_event option" "'a io"
  | Req msg_type bytes "shim_error + chaincode_message \<Rightarrow> 'a io"
  | Panic str

abbreviation Tau :: "'a io \<Rightarrow> 'a io" where
  "Tau m \<equiv> Step None m"

abbreviation SetEvent :: "chaincode_event \<Rightarrow> 'a io \<Rightarrow> 'a io" where
  "SetEvent e m \<equiv> Step (Some e) m"

subsection \<open>Sequencing\<close>

primcorec io_bind :: "'a io \<Rightarrow> ('a \<Rightarrow> 'b io) \<Rightarrow> 'b io" where
  "io_bind m f = (case m of
     Ret a \<Rightarrow> f a
   | Step e m' \<Rightarrow> Step e (io_bind m' f)
   | Req t p k \<Rightarrow> Req t p (\<lambda>r. io_bind (k r) f)
   | Panic s \<Rightarrow> Panic s)"

lemma io_bind_simps [simp]:
  "io_bind (Ret a) f = f a"
  "io_bind (Step e m) f = Step e (io_bind m f)"
  "io_bind (Req t p k) f = Req t p (\<lambda>r. io_bind (k r) f)"
  "io_bind (Panic s) f = Panic s"
  by (subst io_bind.code; simp)+

text \<open>The operator \<open>?\<close> on an awaited \<open>Result\<close>, and on a \<open>Result\<close> at hand.\<close>

definition io_try :: "('e + 'a) io \<Rightarrow> ('a \<Rightarrow> ('e + 'b) io) \<Rightarrow> ('e + 'b) io" where
  "io_try m f = io_bind m (\<lambda>r. case r of Inl e \<Rightarrow> Ret (Inl e) | Inr a \<Rightarrow> f a)"

definition io_ok :: "'e + 'a \<Rightarrow> ('a \<Rightarrow> ('e + 'b) io) \<Rightarrow> ('e + 'b) io" where
  "io_ok r f = (case r of Inl e \<Rightarrow> Ret (Inl e) | Inr a \<Rightarrow> f a)"

lemma io_ok_simps [simp]: "io_ok (Inl e) f = Ret (Inl e)" "io_ok (Inr a) f = f a"
  by (simp_all add: io_ok_def)

text \<open>The ledger request of the running transaction.\<close>

definition core_request :: "msg_type \<Rightarrow> bytes \<Rightarrow> (shim_error + chaincode_message) io" where
  "core_request t p = Req t p Ret"

subsection \<open>Loops\<close>

text \<open>
  \<open>io_loop f s\<close> is a loop with loop variables \<open>s\<close>: the body \<open>f\<close> ends with the variables of the
  next turn (\<open>Inl\<close>) or leaves the loop (\<open>Inr\<close>).
\<close>

primcorec io_loop_from :: "('s \<Rightarrow> ('s + 'a) io) \<Rightarrow> ('s + 'a) io \<Rightarrow> 'a io" where
  "io_loop_from f m = (case m of
     Ret r \<Rightarrow> (case r of Inl s \<Rightarrow> Tau (io_loop_from f (f s)) | Inr a \<Rightarrow> Ret a)
   | Step e m' \<Rightarrow> Step e (io_loop_from f m')
   | Req t p k \<Rightarrow> Req t p (\<lambda>r. io_loop_from f (k r))
   | Panic s \<Rightarrow> Panic s)"

definition io_loop :: "('s \<Rightarrow> ('s + 'a) io) \<Rightarrow> 's \<Rightarrow> 'a io" where
  "io_loop f s = io_loop_from f (f s)"

lemma io_loop_from_simps [simp]:
  "io_loop_from f (Ret (Inl s)) = Tau (io_loop f s)"
  "io_loop_from f (Ret (Inr a)) = Ret a"
  "io_loop_from f (Step e m) = Step e (io_loop_from f m)"
  "io_loop_from f (Req t p k) = Req t p (\<lambda>r. io_loop_from f (k r))"
  "io_loop_from f (Panic s) = Panic s"
  by (subst io_loop_from.code; simp add: io_loop_def)+

lemma io_loop_from_bind:
  "io_loop_from f m = io_bind m (\<lambda>r. case r of Inl s \<Rightarrow> Tau (io_loop f s) | Inr a \<Rightarrow> Ret a)"
proof (coinduction arbitrary: m rule: io.coinduct_strong)
  case Eq_io
  show ?case
  proof (cases m)
    case (Ret r)
    then show ?thesis by (cases r) (auto simp: io_loop_def)
  qed (auto simp: rel_fun_def)
qed

lemma io_loop_unfold:
  "io_loop f s = io_bind (f s) (\<lambda>r. case r of Inl s' \<Rightarrow> Tau (io_loop f s') | Inr a \<Rightarrow> Ret a)"
  by (simp add: io_loop_def [of f s] io_loop_from_bind)

subsection \<open>Running a program\<close>

text \<open>How the peer in state \<open>p\<close> answers a request; \<open>None\<close> if no answer ever comes.\<close>

type_synonym 'p env = "'p \<Rightarrow> msg_type \<Rightarrow> bytes \<Rightarrow> ((shim_error + chaincode_message) \<times> 'p) option"

text \<open>
  The outcome of a run: the value or the panic message, the environment's state and the
  event slot.
\<close>

type_synonym ('a, 'p) outcome = "(str + 'a) \<times> 'p \<times> chaincode_event option"

partial_function (option) run_io ::
  "'p env \<Rightarrow> 'p \<Rightarrow> chaincode_event option \<Rightarrow> 'a io \<Rightarrow> ('a, 'p) outcome option" where
  "run_io env p ev m = (case m of
     Ret a \<Rightarrow> Some (Inr a, p, ev)
   | Step e m' \<Rightarrow> run_io env p (case e of None \<Rightarrow> ev | Some _ \<Rightarrow> e) m'
   | Req t b k \<Rightarrow> (case env p t b of None \<Rightarrow> None | Some rp \<Rightarrow> run_io env (snd rp) ev (k (fst rp)))
   | Panic s \<Rightarrow> Some (Inl s, p, ev))"

lemma run_io_simps [simp, run_simps]:
  "run_io env p ev (Ret a) = Some (Inr a, p, ev)"
  "run_io env p ev (Step e m) = run_io env p (case e of None \<Rightarrow> ev | Some _ \<Rightarrow> e) m"
  "run_io env p ev (Req t b k) =
     (case env p t b of None \<Rightarrow> None | Some rp \<Rightarrow> run_io env (snd rp) ev (k (fst rp)))"
  "run_io env p ev (Panic s) = Some (Inl s, p, ev)"
  by (subst run_io.simps; simp)+

fun run_then :: "('a, 'p) outcome option \<Rightarrow> ('a \<Rightarrow> 'p \<Rightarrow> chaincode_event option \<Rightarrow> ('b, 'p) outcome option)
    \<Rightarrow> ('b, 'p) outcome option" where
  "run_then None f = None"
| "run_then (Some (Inl s, p, ev)) f = Some (Inl s, p, ev)"
| "run_then (Some (Inr a, p, ev)) f = f a p ev"

lemma run_io_bind_some:
  assumes "run_io env p ev m = Some x"
  shows "run_io env p ev (io_bind m f) = run_then (Some x) (\<lambda>a p' ev'. run_io env p' ev' (f a))"
  using assms
proof (induction arbitrary: f rule: run_io.raw_induct [rotated, consumes 1])
  case (1 run_io' env p ev m x)
  show ?case
  proof (cases m)
    case (Step e m')
    with 1(2) have "run_io' env p (case e of None \<Rightarrow> ev | Some _ \<Rightarrow> e) m' = Some x" by simp
    from 1(1) [OF this] Step show ?thesis by simp
  next
    case (Req t b k)
    with 1(2) obtain rp where env: "env p t b = Some rp"
      and "run_io' env (snd rp) ev (k (fst rp)) = Some x" by (auto split: option.splits)
    from 1(1) [OF this(2)] Req env show ?thesis by simp
  qed (use 1(2) in auto)
qed

lemma run_io_bind_none:
  fixes m :: "'a io" and f :: "'a \<Rightarrow> 'b io"
  assumes "run_io env p ev (io_bind m f) = Some y"
  shows "\<exists>x. run_io env p ev m = Some x"
proof -
  have "run_io env p ev n = Some y \<Longrightarrow> \<forall>m f. n = io_bind (m :: 'a io) f \<longrightarrow> (\<exists>x. run_io env p ev m = Some x)" for n
  proof (induction rule: run_io.raw_induct [rotated, consumes 1])
    case (1 run_io' env p ev n y)
    show ?case
    proof (intro allI impI)
      fix m :: "'a io" and f assume "n = io_bind m f"
      then show "\<exists>x. run_io env p ev m = Some x"
      proof (cases m)
        case (Step e m')
        with \<open>n = io_bind m f\<close> 1(2) have "run_io' env p (case e of None \<Rightarrow> ev | Some _ \<Rightarrow> e) (io_bind m' f) = Some y"
          by simp
        from 1(1) [OF this] show ?thesis unfolding Step run_io_simps by blast
      next
        case (Req t b k)
        with \<open>n = io_bind m f\<close> 1(2) obtain rp where env: "env p t b = Some rp"
          and "run_io' env (snd rp) ev (io_bind (k (fst rp)) f) = Some y"
          by (auto split: option.splits)
        from 1(1) [OF this(2)] show ?thesis unfolding Req run_io_simps env option.case by blast
      qed simp_all
    qed
  qed
  with assms show ?thesis by blast
qed

lemma run_io_bind [simp, run_simps]:
  "run_io env p ev (io_bind m f) = run_then (run_io env p ev m) (\<lambda>a p' ev'. run_io env p' ev' (f a))"
proof (cases "run_io env p ev m")
  case None
  then have "run_io env p ev (io_bind m f) = None"
    using run_io_bind_none [of env p ev m f] by (cases "run_io env p ev (io_bind m f)") auto
  with None show ?thesis by simp
next
  case (Some x)
  from run_io_bind_some [OF this] Some show ?thesis by simp
qed

lemma run_io_loop [run_simps]:
  "run_io env p ev (io_loop f s) =
     run_then (run_io env p ev (f s)) (\<lambda>r p' ev'. case r of
         Inl s' \<Rightarrow> run_io env p' ev' (io_loop f s')
       | Inr a \<Rightarrow> Some (Inr a, p', ev'))"
  by (subst io_loop_unfold) (auto intro!: arg_cong2 [where f = run_then] split: sum.split)

lemma run_io_try [simp, run_simps]:
  "run_io env p ev (io_try m f) = run_then (run_io env p ev m) (\<lambda>r p' ev'. case r of
       Inl e \<Rightarrow> Some (Inr (Inl e), p', ev')
     | Inr a \<Rightarrow> run_io env p' ev' (f a))"
  by (auto simp: io_try_def intro!: arg_cong2 [where f = run_then] split: sum.split)

lemma run_core_request [simp, run_simps]:
  "run_io env p ev (core_request t b) = (case env p t b of None \<Rightarrow> None | Some (r, p') \<Rightarrow> Some (Inr r, p', ev))"
  by (auto simp: core_request_def split: option.split)

text \<open>A loop that makes progress towards leaving ends: \<open>n\<close> bounds the turns left.\<close>

lemma run_io_loop_terminates:
  fixes measure :: "'s \<Rightarrow> 'p \<Rightarrow> nat"
  assumes step: "\<And>s p ev. I s p \<Longrightarrow> \<exists>r p' ev'. run_io env p ev (f s) = Some (r, p', ev')
      \<and> (\<forall>s'. r = Inr (Inl s') \<longrightarrow> I s' p' \<and> measure s' p' < measure s p)"
  shows "I s p \<Longrightarrow> \<exists>out. run_io env p ev (io_loop f s) = Some out"
proof (induction "measure s p" arbitrary: s p ev rule: less_induct)
  case less
  from step [OF less.prems, of ev] obtain r p' ev' where run: "run_io env p ev (f s) = Some (r, p', ev')"
    and dec: "\<forall>s'. r = Inr (Inl s') \<longrightarrow> I s' p' \<and> measure s' p' < measure s p" by blast
  show ?case
  proof (cases r)
    case (Inl msg)
    with run show ?thesis by (simp add: run_io_loop)
  next
    case (Inr r')
    then show ?thesis
    proof (cases r')
      case (Inl s')
      with Inr dec run less.hyps [of s' p'] show ?thesis by (subst run_io_loop) simp
    next
      case (Inr a)
      with \<open>r = Inr r'\<close> run show ?thesis by (subst run_io_loop) simp
    qed
  qed
qed

subsection \<open>A simple environment\<close>

text \<open>A peer that answers every request with one and the same message.\<close>

definition constant_env :: "chaincode_message \<Rightarrow> unit env" where
  "constant_env reply p t payload = Some (Inr reply, p)"

definition plain_message :: "msg_type \<Rightarrow> bytes \<Rightarrow> chaincode_message" where
  "plain_message t payload = \<lparr>cm_type = msg_type_i32 t, cm_timestamp = None, cm_payload = payload, cm_txid = [],
     cm_proposal = None, cm_chaincode_event = None, cm_channel_id = []\<rparr>"

lemma plain_message_sel [simp]:
  "cm_kind (plain_message t b) = t" "cm_payload (plain_message t b) = b" "cm_proposal (plain_message t b) = None"
  by (simp_all add: plain_message_def cm_kind_def)

end
