(* ===== verification/Wire.thy ===== *)
theory Wire imports Codec
begin

section \<open>The protobuf wire format\<close>

text \<open>
  An implementation of the protobuf encoding for the messages of the shim, with the field
  numbers and types of the generated structs: varints, length-delimited fields, omitted
  default values, nested and repeated messages, and maps. It interprets the locale
  \<open>lossless\<close> for every message, so the hypothesis \<open>prost_ok\<close> can hold; the witnesses of the
  other theories are evaluated with it.
\<close>

subsection \<open>Varints and fields\<close>

fun varint :: "nat \<Rightarrow> bytes" where
  "varint n = (if n < 128 then [byte_of n] else byte_of (n mod 128 + 128) # varint (n div 128))"

declare varint.simps [simp del]

fun get_varint :: "bytes \<Rightarrow> (nat \<times> bytes) option" where
  "get_varint [] = None"
| "get_varint (b # bs) = (if unat b < 128 then Some (unat b, bs)
     else map_option (\<lambda>(n, rest). (unat b - 128 + 128 * n, rest)) (get_varint bs))"

lemma get_varint_varint [simp]: "get_varint (varint n @ bs) = Some (n, bs)"
proof (induction n rule: varint.induct)
  case (1 n)
  show ?case
  proof (cases "n < 128")
    case True
    then show ?thesis by (simp add: varint.simps [of n])
  next
    case False
    have "n mod 128 + 128 * (n div 128) = n" by simp
    with 1 [OF False] False show ?thesis by (simp add: varint.simps [of n])
  qed
qed

lemma get_varint_length: "get_varint bs = Some (n, rest) \<Longrightarrow> length rest < length bs"
  by (induction bs arbitrary: n rest) (auto split: if_splits intro: less_SucI)

text \<open>A field value: a varint or a length-delimited run of bytes.\<close>

datatype wval = WVarint nat | WBytes bytes

type_synonym fields = "(nat \<times> wval) list"

fun enc_field :: "nat \<times> wval \<Rightarrow> bytes" where
  "enc_field (n, WVarint v) = varint (8 * n) @ varint v"
| "enc_field (n, WBytes b) = varint (8 * n + 2) @ varint (length b) @ b"

definition enc_fields :: "fields \<Rightarrow> bytes" where
  "enc_fields fs = concat (map enc_field fs)"

function dec_fields :: "bytes \<Rightarrow> fields option" where
  "dec_fields bs = (if bs = [] then Some [] else
     (case get_varint bs of
        None \<Rightarrow> None
      | Some (tag, r) \<Rightarrow>
          (case get_varint r of
             None \<Rightarrow> None
           | Some (v, r') \<Rightarrow>
               if tag mod 8 = 0 then map_option (\<lambda>fs. (tag div 8, WVarint v) # fs) (dec_fields r')
               else if tag mod 8 = 2 \<and> v \<le> length r' then
                 map_option (\<lambda>fs. (tag div 8, WBytes (take v r')) # fs) (dec_fields (drop v r'))
               else None)))"
  by auto
termination
  by (relation "measure length") (auto dest!: get_varint_length)

declare dec_fields.simps [simp del]

lemma dec_fields_Nil [simp]: "dec_fields [] = Some []"
  by (simp add: dec_fields.simps)

lemma enc_field_nonempty [simp]: "enc_field f \<noteq> []"
proof -
  have "varint n \<noteq> []" for n by (simp add: varint.simps [of n])
  then show ?thesis by (cases f rule: enc_field.cases) simp_all
qed

lemma dec_fields_Cons [simp]: "dec_fields (enc_field f @ bs) = map_option (Cons f) (dec_fields bs)"
proof -
  have ne: "enc_field f @ bs \<noteq> []" by simp
  show ?thesis
  proof (cases f rule: enc_field.cases)
    case (1 n v)
    with ne show ?thesis by (subst dec_fields.simps) simp
  next
    case (2 n b)
    have "(8 * n + 2) mod 8 = 2" "(8 * n + 2) div 8 = n" by presburger+
    with 2 ne show ?thesis by (subst dec_fields.simps) simp
  qed
qed

lemma dec_fields_enc_fields [simp]: "dec_fields (enc_fields fs) = Some fs"
  by (induction fs) (simp_all add: enc_fields_def)

subsection \<open>Typed fields\<close>

text \<open>The values of one field number, in order.\<close>

definition vals :: "nat \<Rightarrow> fields \<Rightarrow> wval list" where
  "vals n fs = map snd (filter (\<lambda>f. fst f = n) fs)"

lemma vals_simps [simp]:
  "vals n [] = []" "vals n ((m, v) # fs) = (if m = n then v # vals n fs else vals n fs)"
  "vals n (fs @ gs) = vals n fs @ vals n gs"
  by (simp_all add: vals_def)

definition wire_error :: str where "wire_error = lit ''invalid wire format''"

definition f_bytes :: "nat \<Rightarrow> bytes \<Rightarrow> fields" where
  "f_bytes n b = (if b = [] then [] else [(n, WBytes b)])"

definition get_bytes :: "wval list \<Rightarrow> str + bytes" where
  "get_bytes vs = (if vs = [] then Inr [] else (case last vs of WBytes b \<Rightarrow> Inr b | WVarint _ \<Rightarrow> Inl wire_error))"

definition f_str :: "nat \<Rightarrow> str \<Rightarrow> fields" where
  "f_str n s = f_bytes n (str_bytes s)"

definition get_str :: "wval list \<Rightarrow> str + str" where
  "get_str vs = res_bind (get_bytes vs) (\<lambda>b. res_map_err (\<lambda>_. lit ''invalid string value: data is not UTF-8 encoded'') (from_utf8 b))"

definition f_int :: "nat \<Rightarrow> nat \<Rightarrow> fields" where
  "f_int n v = (if v = 0 then [] else [(n, WVarint v)])"

definition get_int :: "wval list \<Rightarrow> str + nat" where
  "get_int vs = (if vs = [] then Inr 0 else (case last vs of WVarint v \<Rightarrow> Inr v | WBytes _ \<Rightarrow> Inl wire_error))"

text \<open>\<open>int32\<close> and enumerations are sign-extended to 64 bits.\<close>

definition f_i32 :: "nat \<Rightarrow> i32 \<Rightarrow> fields" where
  "f_i32 n w = f_int n (unat (scast w :: 64 word))"

definition get_i32 :: "wval list \<Rightarrow> str + i32" where
  "get_i32 vs = res_map (\<lambda>v. ucast (word_of_nat v :: 64 word)) (get_int vs)"

definition f_i64 :: "nat \<Rightarrow> i64 \<Rightarrow> fields" where
  "f_i64 n w = f_int n (unat w)"

definition get_i64 :: "wval list \<Rightarrow> str + i64" where
  "get_i64 vs = res_map word_of_nat (get_int vs)"

definition f_bool :: "nat \<Rightarrow> bool \<Rightarrow> fields" where
  "f_bool n b = f_int n (if b then 1 else 0)"

definition get_bool :: "wval list \<Rightarrow> str + bool" where
  "get_bool vs = res_map (\<lambda>v. v \<noteq> 0) (get_int vs)"

definition f_opt :: "nat \<Rightarrow> ('a \<Rightarrow> bytes) \<Rightarrow> 'a option \<Rightarrow> fields" where
  "f_opt n enc x = (case x of None \<Rightarrow> [] | Some a \<Rightarrow> [(n, WBytes (enc a))])"

definition get_opt :: "(bytes \<Rightarrow> str + 'a) \<Rightarrow> wval list \<Rightarrow> str + 'a option" where
  "get_opt dec vs = (if vs = [] then Inr None
     else (case last vs of WBytes b \<Rightarrow> res_map Some (dec b) | WVarint _ \<Rightarrow> Inl wire_error))"

definition f_rep :: "nat \<Rightarrow> ('a \<Rightarrow> bytes) \<Rightarrow> 'a list \<Rightarrow> fields" where
  "f_rep n enc xs = map (\<lambda>x. (n, WBytes (enc x))) xs"

definition get_rep :: "(bytes \<Rightarrow> str + 'a) \<Rightarrow> wval list \<Rightarrow> str + 'a list" where
  "get_rep dec vs = res_collect (\<lambda>v. case v of WBytes b \<Rightarrow> dec b | WVarint _ \<Rightarrow> Inl wire_error) vs"

lemma ucast_scast_32 [simp]: "ucast (scast (w :: i32) :: 64 word) = w"
  by (rule bit_word_eqI) (auto simp: bit_simps)

lemma vals_other [simp]:
  assumes "m \<noteq> n"
  shows "vals n (f_bytes m b) = []" "vals n (f_str m s) = []" "vals n (f_i32 m w) = []"
    "vals n (f_i64 m x) = []" "vals n (f_bool m c) = []" "vals n (f_opt m enc y) = []"
    "vals n (f_rep m enc' ys) = []"
  using assms
  by (auto simp: f_bytes_def f_str_def f_i32_def f_i64_def f_bool_def f_int_def f_opt_def f_rep_def vals_def
      filter_map o_def split: option.splits)

lemma get_int_f_int [simp]: "get_int (vals n (f_int n v)) = Inr v"
  by (simp add: f_int_def get_int_def)

lemma get_typed [simp]:
  "get_bytes (vals n (f_bytes n b)) = Inr b" "get_str (vals n (f_str n s)) = Inr s"
  "get_i32 (vals n (f_i32 n w)) = Inr w" "get_i64 (vals n (f_i64 n x)) = Inr x"
  "get_bool (vals n (f_bool n c)) = Inr c"
proof -
  show bytes: "get_bytes (vals n (f_bytes n b)) = Inr b" for b
    by (simp add: f_bytes_def get_bytes_def)
  show "get_str (vals n (f_str n s)) = Inr s" by (simp add: f_str_def get_str_def bytes)
  show "get_i32 (vals n (f_i32 n w)) = Inr w" by (simp add: f_i32_def get_i32_def)
  show "get_i64 (vals n (f_i64 n x)) = Inr x" by (simp add: f_i64_def get_i64_def)
  show "get_bool (vals n (f_bool n c)) = Inr c" by (simp add: f_bool_def get_bool_def)
qed

lemma get_opt_f_opt:
  "(\<And>a. x = Some a \<Longrightarrow> dec (enc a) = Inr a) \<Longrightarrow> get_opt dec (vals n (f_opt n enc x)) = Inr x"
  by (cases x) (auto simp: f_opt_def get_opt_def)

lemma get_rep_f_rep:
  assumes "\<And>a. a \<in> set xs \<Longrightarrow> dec (enc a) = Inr (g a)"
  shows "get_rep dec (vals n (f_rep n enc xs)) = Inr (map g xs)"
proof -
  have "vals n (f_rep n enc xs) = map (\<lambda>x. WBytes (enc x)) xs"
    by (simp add: f_rep_def vals_def filter_map o_def)
  moreover have "res_collect (\<lambda>v. case v of WBytes b \<Rightarrow> dec b | WVarint _ \<Rightarrow> Inl wire_error)
      (map (\<lambda>x. WBytes (enc x)) xs) = Inr (map g xs)"
    using assms by (induction xs) auto
  ultimately show ?thesis by (simp add: get_rep_def)
qed

subsection \<open>Codecs\<close>

definition wire_codec :: "('m \<Rightarrow> fields) \<Rightarrow> (fields \<Rightarrow> str + 'm) \<Rightarrow> 'm codec" where
  "wire_codec to from = \<lparr>encode = (\<lambda>m. enc_fields (to m)),
     decode = (\<lambda>b. case dec_fields b of None \<Rightarrow> Inl wire_error | Some fs \<Rightarrow> from fs)\<rparr>"

lemma wire_codec_lossless: "(\<And>m. from (to m) = Inr m) \<Longrightarrow> lossless (wire_codec to from)"
  by (simp add: lossless_def wire_codec_def)

lemma wire_codec_decode [simp]: "decode (wire_codec to from) (encode (wire_codec to from) m) = from (to m)"
  by (simp add: wire_codec_def)

text \<open>A map field is a repeated field of entries with key 1 and value 2; later entries win.\<close>

definition entry_codec :: "(str \<times> bytes) codec" where
  "entry_codec = wire_codec (\<lambda>(k, v). f_str 1 k @ f_bytes 2 v)
     (\<lambda>fs. res_bind (get_str (vals 1 fs)) (\<lambda>k. res_bind (get_bytes (vals 2 fs)) (\<lambda>v. Inr (k, v))))"

definition f_map :: "nat \<Rightarrow> (str, bytes) fmap \<Rightarrow> fields" where
  "f_map n m = f_rep n (encode entry_codec) (sorted_list_of_fmap m)"

definition get_map :: "wval list \<Rightarrow> str + (str, bytes) fmap" where
  "get_map vs = res_map (\<lambda>kvs. fmap_of_list (rev kvs)) (get_rep (decode entry_codec) vs)"

lemma entry_codec_lossless: "lossless entry_codec"
  unfolding entry_codec_def by (rule wire_codec_lossless) (auto split: prod.split)

lemma map_of_rev_distinct:
  assumes "distinct (map fst xs)"
  shows "map_of (rev xs) = map_of xs"
proof -
  have "map_of (rev xs) k = Some v \<longleftrightarrow> map_of xs k = Some v" for k v
    using assms by (simp add: map_of_eq_Some_iff flip: rev_map)
  then show ?thesis by (metis ext not_None_eq)
qed

named_theorems wire_nested \<open>decoding what a nested codec encoded\<close>

lemma get_rep_codec:
  "lossless c \<Longrightarrow> get_rep (decode c) (vals n (f_rep n (encode c) xs)) = Inr xs"
  using get_rep_f_rep [of xs "decode c" "encode c" "\<lambda>x. x" n] by (simp add: lossless.decode_encode)

lemma get_rep_bytes [simp]: "get_rep Inr (vals n (f_rep n (\<lambda>b. b) xs)) = Inr xs"
  using get_rep_f_rep [of xs Inr "\<lambda>b. b" "\<lambda>x. x" n] by simp

lemma get_opt_codec:
  "lossless c \<Longrightarrow> get_opt (decode c) (vals n (f_opt n (encode c) x)) = Inr x"
  by (rule get_opt_f_opt) (simp add: lossless.decode_encode)

lemma vals_f_map_other [simp]: "m \<noteq> n \<Longrightarrow> vals n (f_map m x) = []"
  by (simp add: f_map_def)

lemma get_map_f_map [simp]: "get_map (vals n (f_map n m)) = Inr m"
proof -
  have "distinct (map fst (sorted_list_of_fmap m))"
    by (simp add: sorted_list_of_fmap_def o_def sorted_list_of_fset.rep_eq)
  then have "fmap_of_list (rev (sorted_list_of_fmap m)) = m"
    by (intro fmap_ext) (simp add: fmlookup_of_list map_of_rev_distinct)
  then show ?thesis by (simp add: get_map_def f_map_def get_rep_codec entry_codec_lossless)
qed

subsection \<open>The messages\<close>

definition w_timestamp :: "timestamp codec" where
  "w_timestamp = wire_codec
     (\<lambda>m. f_i64 1 (ts_seconds m) @ f_i32 2 (ts_nanos m))
     (\<lambda>fs.
       res_bind (get_i64 (vals 1 fs)) (\<lambda>x0.
       res_bind (get_i32 (vals 2 fs)) (\<lambda>x1.
       Inr \<lparr>ts_seconds = x0, ts_nanos = x1\<rparr>)))"

interpretation timestamp_wire: lossless w_timestamp
  unfolding w_timestamp_def by (rule wire_codec_lossless) (simp add: wire_nested)

lemmas [wire_nested] = get_opt_codec [OF timestamp_wire.lossless_axioms] get_rep_codec [OF timestamp_wire.lossless_axioms]

definition w_chaincode_event :: "chaincode_event codec" where
  "w_chaincode_event = wire_codec
     (\<lambda>m. f_str 1 (ev_chaincode_id m) @ f_str 2 (ev_tx_id m) @ f_str 3 (ev_event_name m) @ f_bytes 4 (ev_payload m))
     (\<lambda>fs.
       res_bind (get_str (vals 1 fs)) (\<lambda>x0.
       res_bind (get_str (vals 2 fs)) (\<lambda>x1.
       res_bind (get_str (vals 3 fs)) (\<lambda>x2.
       res_bind (get_bytes (vals 4 fs)) (\<lambda>x3.
       Inr \<lparr>ev_chaincode_id = x0, ev_tx_id = x1, ev_event_name = x2, ev_payload = x3\<rparr>)))))"

interpretation chaincode_event_wire: lossless w_chaincode_event
  unfolding w_chaincode_event_def by (rule wire_codec_lossless) (simp add: wire_nested)

lemmas [wire_nested] = get_opt_codec [OF chaincode_event_wire.lossless_axioms] get_rep_codec [OF chaincode_event_wire.lossless_axioms]

definition w_chaincode_id :: "chaincode_id codec" where
  "w_chaincode_id = wire_codec
     (\<lambda>m. f_str 1 (cid_path m) @ f_str 2 (cid_name m) @ f_str 3 (cid_version m))
     (\<lambda>fs.
       res_bind (get_str (vals 1 fs)) (\<lambda>x0.
       res_bind (get_str (vals 2 fs)) (\<lambda>x1.
       res_bind (get_str (vals 3 fs)) (\<lambda>x2.
       Inr \<lparr>cid_path = x0, cid_name = x1, cid_version = x2\<rparr>))))"

interpretation chaincode_id_wire: lossless w_chaincode_id
  unfolding w_chaincode_id_def by (rule wire_codec_lossless) (simp add: wire_nested)

lemmas [wire_nested] = get_opt_codec [OF chaincode_id_wire.lossless_axioms] get_rep_codec [OF chaincode_id_wire.lossless_axioms]

definition w_chaincode_input :: "chaincode_input codec" where
  "w_chaincode_input = wire_codec
     (\<lambda>m. f_rep 1 (\<lambda>b. b) (ci_args m) @ f_map 2 (ci_decorations m) @ f_bool 3 (ci_is_init m))
     (\<lambda>fs.
       res_bind (get_rep Inr (vals 1 fs)) (\<lambda>x0.
       res_bind (get_map (vals 2 fs)) (\<lambda>x1.
       res_bind (get_bool (vals 3 fs)) (\<lambda>x2.
       Inr \<lparr>ci_args = x0, ci_decorations = x1, ci_is_init = x2\<rparr>))))"

interpretation chaincode_input_wire: lossless w_chaincode_input
  unfolding w_chaincode_input_def by (rule wire_codec_lossless) (simp add: wire_nested)

lemmas [wire_nested] = get_opt_codec [OF chaincode_input_wire.lossless_axioms] get_rep_codec [OF chaincode_input_wire.lossless_axioms]

definition w_chaincode_spec :: "chaincode_spec codec" where
  "w_chaincode_spec = wire_codec
     (\<lambda>m. f_i32 1 (cs_type m) @ f_opt 2 (encode w_chaincode_id) (cs_chaincode_id m) @ f_opt 3 (encode w_chaincode_input) (cs_input m) @ f_i32 4 (cs_timeout m))
     (\<lambda>fs.
       res_bind (get_i32 (vals 1 fs)) (\<lambda>x0.
       res_bind (get_opt (decode w_chaincode_id) (vals 2 fs)) (\<lambda>x1.
       res_bind (get_opt (decode w_chaincode_input) (vals 3 fs)) (\<lambda>x2.
       res_bind (get_i32 (vals 4 fs)) (\<lambda>x3.
       Inr \<lparr>cs_type = x0, cs_chaincode_id = x1, cs_input = x2, cs_timeout = x3\<rparr>)))))"

interpretation chaincode_spec_wire: lossless w_chaincode_spec
  unfolding w_chaincode_spec_def by (rule wire_codec_lossless) (simp add: wire_nested)

lemmas [wire_nested] = get_opt_codec [OF chaincode_spec_wire.lossless_axioms] get_rep_codec [OF chaincode_spec_wire.lossless_axioms]

definition w_response :: "pb_response codec" where
  "w_response = wire_codec
     (\<lambda>m. f_i32 1 (pr_status m) @ f_str 2 (pr_message m) @ f_bytes 3 (pr_payload m))
     (\<lambda>fs.
       res_bind (get_i32 (vals 1 fs)) (\<lambda>x0.
       res_bind (get_str (vals 2 fs)) (\<lambda>x1.
       res_bind (get_bytes (vals 3 fs)) (\<lambda>x2.
       Inr \<lparr>pr_status = x0, pr_message = x1, pr_payload = x2\<rparr>))))"

interpretation response_wire: lossless w_response
  unfolding w_response_def by (rule wire_codec_lossless) (simp add: wire_nested)

lemmas [wire_nested] = get_opt_codec [OF response_wire.lossless_axioms] get_rep_codec [OF response_wire.lossless_axioms]

definition w_signed_proposal :: "signed_proposal codec" where
  "w_signed_proposal = wire_codec
     (\<lambda>m. f_bytes 1 (sp_proposal_bytes m) @ f_bytes 2 (sp_signature m))
     (\<lambda>fs.
       res_bind (get_bytes (vals 1 fs)) (\<lambda>x0.
       res_bind (get_bytes (vals 2 fs)) (\<lambda>x1.
       Inr \<lparr>sp_proposal_bytes = x0, sp_signature = x1\<rparr>)))"

interpretation signed_proposal_wire: lossless w_signed_proposal
  unfolding w_signed_proposal_def by (rule wire_codec_lossless) (simp add: wire_nested)

lemmas [wire_nested] = get_opt_codec [OF signed_proposal_wire.lossless_axioms] get_rep_codec [OF signed_proposal_wire.lossless_axioms]

definition w_proposal :: "proposal codec" where
  "w_proposal = wire_codec
     (\<lambda>m. f_bytes 1 (prop_header m) @ f_bytes 2 (prop_payload m) @ f_bytes 3 (prop_extension m))
     (\<lambda>fs.
       res_bind (get_bytes (vals 1 fs)) (\<lambda>x0.
       res_bind (get_bytes (vals 2 fs)) (\<lambda>x1.
       res_bind (get_bytes (vals 3 fs)) (\<lambda>x2.
       Inr \<lparr>prop_header = x0, prop_payload = x1, prop_extension = x2\<rparr>))))"

interpretation proposal_wire: lossless w_proposal
  unfolding w_proposal_def by (rule wire_codec_lossless) (simp add: wire_nested)

lemmas [wire_nested] = get_opt_codec [OF proposal_wire.lossless_axioms] get_rep_codec [OF proposal_wire.lossless_axioms]

definition w_chaincode_proposal_payload :: "chaincode_proposal_payload codec" where
  "w_chaincode_proposal_payload = wire_codec
     (\<lambda>m. f_bytes 1 (cpp_input m) @ f_map 2 (cpp_transient_map m))
     (\<lambda>fs.
       res_bind (get_bytes (vals 1 fs)) (\<lambda>x0.
       res_bind (get_map (vals 2 fs)) (\<lambda>x1.
       Inr \<lparr>cpp_input = x0, cpp_transient_map = x1\<rparr>)))"

interpretation chaincode_proposal_payload_wire: lossless w_chaincode_proposal_payload
  unfolding w_chaincode_proposal_payload_def by (rule wire_codec_lossless) (simp add: wire_nested)

lemmas [wire_nested] = get_opt_codec [OF chaincode_proposal_payload_wire.lossless_axioms] get_rep_codec [OF chaincode_proposal_payload_wire.lossless_axioms]

definition w_header :: "header codec" where
  "w_header = wire_codec
     (\<lambda>m. f_bytes 1 (hd_channel_header m) @ f_bytes 2 (hd_signature_header m))
     (\<lambda>fs.
       res_bind (get_bytes (vals 1 fs)) (\<lambda>x0.
       res_bind (get_bytes (vals 2 fs)) (\<lambda>x1.
       Inr \<lparr>hd_channel_header = x0, hd_signature_header = x1\<rparr>)))"

interpretation header_wire: lossless w_header
  unfolding w_header_def by (rule wire_codec_lossless) (simp add: wire_nested)

lemmas [wire_nested] = get_opt_codec [OF header_wire.lossless_axioms] get_rep_codec [OF header_wire.lossless_axioms]

definition w_channel_header :: "channel_header codec" where
  "w_channel_header = wire_codec
     (\<lambda>m. f_i32 1 (ch_type m) @ f_i32 2 (ch_version m) @ f_opt 3 (encode w_timestamp) (ch_timestamp m) @ f_str 4 (ch_channel_id m) @ f_str 5 (ch_tx_id m) @ f_i64 6 (ch_epoch m) @ f_bytes 7 (ch_extension m) @ f_bytes 8 (ch_tls_cert_hash m))
     (\<lambda>fs.
       res_bind (get_i32 (vals 1 fs)) (\<lambda>x0.
       res_bind (get_i32 (vals 2 fs)) (\<lambda>x1.
       res_bind (get_opt (decode w_timestamp) (vals 3 fs)) (\<lambda>x2.
       res_bind (get_str (vals 4 fs)) (\<lambda>x3.
       res_bind (get_str (vals 5 fs)) (\<lambda>x4.
       res_bind (get_i64 (vals 6 fs)) (\<lambda>x5.
       res_bind (get_bytes (vals 7 fs)) (\<lambda>x6.
       res_bind (get_bytes (vals 8 fs)) (\<lambda>x7.
       Inr \<lparr>ch_type = x0, ch_version = x1, ch_timestamp = x2, ch_channel_id = x3, ch_tx_id = x4, ch_epoch = x5, ch_extension = x6, ch_tls_cert_hash = x7\<rparr>)))))))))"

interpretation channel_header_wire: lossless w_channel_header
  unfolding w_channel_header_def by (rule wire_codec_lossless) (simp add: wire_nested)

lemmas [wire_nested] = get_opt_codec [OF channel_header_wire.lossless_axioms] get_rep_codec [OF channel_header_wire.lossless_axioms]

definition w_signature_header :: "signature_header codec" where
  "w_signature_header = wire_codec
     (\<lambda>m. f_bytes 1 (sh_creator m) @ f_bytes 2 (sh_nonce m))
     (\<lambda>fs.
       res_bind (get_bytes (vals 1 fs)) (\<lambda>x0.
       res_bind (get_bytes (vals 2 fs)) (\<lambda>x1.
       Inr \<lparr>sh_creator = x0, sh_nonce = x1\<rparr>)))"

interpretation signature_header_wire: lossless w_signature_header
  unfolding w_signature_header_def by (rule wire_codec_lossless) (simp add: wire_nested)

lemmas [wire_nested] = get_opt_codec [OF signature_header_wire.lossless_axioms] get_rep_codec [OF signature_header_wire.lossless_axioms]

definition w_serialized_identity :: "serialized_identity codec" where
  "w_serialized_identity = wire_codec
     (\<lambda>m. f_str 1 (si_mspid m) @ f_bytes 2 (si_id_bytes m))
     (\<lambda>fs.
       res_bind (get_str (vals 1 fs)) (\<lambda>x0.
       res_bind (get_bytes (vals 2 fs)) (\<lambda>x1.
       Inr \<lparr>si_mspid = x0, si_id_bytes = x1\<rparr>)))"

interpretation serialized_identity_wire: lossless w_serialized_identity
  unfolding w_serialized_identity_def by (rule wire_codec_lossless) (simp add: wire_nested)

lemmas [wire_nested] = get_opt_codec [OF serialized_identity_wire.lossless_axioms] get_rep_codec [OF serialized_identity_wire.lossless_axioms]

definition w_chaincode_message :: "chaincode_message codec" where
  "w_chaincode_message = wire_codec
     (\<lambda>m. f_i32 1 (cm_type m) @ f_opt 2 (encode w_timestamp) (cm_timestamp m) @ f_bytes 3 (cm_payload m) @ f_str 4 (cm_txid m) @ f_opt 5 (encode w_signed_proposal) (cm_proposal m) @ f_opt 6 (encode w_chaincode_event) (cm_chaincode_event m) @ f_str 7 (cm_channel_id m))
     (\<lambda>fs.
       res_bind (get_i32 (vals 1 fs)) (\<lambda>x0.
       res_bind (get_opt (decode w_timestamp) (vals 2 fs)) (\<lambda>x1.
       res_bind (get_bytes (vals 3 fs)) (\<lambda>x2.
       res_bind (get_str (vals 4 fs)) (\<lambda>x3.
       res_bind (get_opt (decode w_signed_proposal) (vals 5 fs)) (\<lambda>x4.
       res_bind (get_opt (decode w_chaincode_event) (vals 6 fs)) (\<lambda>x5.
       res_bind (get_str (vals 7 fs)) (\<lambda>x6.
       Inr \<lparr>cm_type = x0, cm_timestamp = x1, cm_payload = x2, cm_txid = x3, cm_proposal = x4, cm_chaincode_event = x5, cm_channel_id = x6\<rparr>))))))))"

interpretation chaincode_message_wire: lossless w_chaincode_message
  unfolding w_chaincode_message_def by (rule wire_codec_lossless) (simp add: wire_nested)

lemmas [wire_nested] = get_opt_codec [OF chaincode_message_wire.lossless_axioms] get_rep_codec [OF chaincode_message_wire.lossless_axioms]

definition w_get_state :: "get_state codec" where
  "w_get_state = wire_codec
     (\<lambda>m. f_str 1 (gs_key m) @ f_str 2 (gs_collection m))
     (\<lambda>fs.
       res_bind (get_str (vals 1 fs)) (\<lambda>x0.
       res_bind (get_str (vals 2 fs)) (\<lambda>x1.
       Inr \<lparr>gs_key = x0, gs_collection = x1\<rparr>)))"

interpretation get_state_wire: lossless w_get_state
  unfolding w_get_state_def by (rule wire_codec_lossless) (simp add: wire_nested)

lemmas [wire_nested] = get_opt_codec [OF get_state_wire.lossless_axioms] get_rep_codec [OF get_state_wire.lossless_axioms]

definition w_put_state :: "put_state codec" where
  "w_put_state = wire_codec
     (\<lambda>m. f_str 1 (ps_key m) @ f_bytes 2 (ps_value m) @ f_str 3 (ps_collection m))
     (\<lambda>fs.
       res_bind (get_str (vals 1 fs)) (\<lambda>x0.
       res_bind (get_bytes (vals 2 fs)) (\<lambda>x1.
       res_bind (get_str (vals 3 fs)) (\<lambda>x2.
       Inr \<lparr>ps_key = x0, ps_value = x1, ps_collection = x2\<rparr>))))"

interpretation put_state_wire: lossless w_put_state
  unfolding w_put_state_def by (rule wire_codec_lossless) (simp add: wire_nested)

lemmas [wire_nested] = get_opt_codec [OF put_state_wire.lossless_axioms] get_rep_codec [OF put_state_wire.lossless_axioms]

definition w_del_state :: "del_state codec" where
  "w_del_state = wire_codec
     (\<lambda>m. f_str 1 (ds_key m) @ f_str 2 (ds_collection m))
     (\<lambda>fs.
       res_bind (get_str (vals 1 fs)) (\<lambda>x0.
       res_bind (get_str (vals 2 fs)) (\<lambda>x1.
       Inr \<lparr>ds_key = x0, ds_collection = x1\<rparr>)))"

interpretation del_state_wire: lossless w_del_state
  unfolding w_del_state_def by (rule wire_codec_lossless) (simp add: wire_nested)

lemmas [wire_nested] = get_opt_codec [OF del_state_wire.lossless_axioms] get_rep_codec [OF del_state_wire.lossless_axioms]

definition w_purge_private_state :: "purge_private_state codec" where
  "w_purge_private_state = wire_codec
     (\<lambda>m. f_str 1 (pps_key m) @ f_str 2 (pps_collection m))
     (\<lambda>fs.
       res_bind (get_str (vals 1 fs)) (\<lambda>x0.
       res_bind (get_str (vals 2 fs)) (\<lambda>x1.
       Inr \<lparr>pps_key = x0, pps_collection = x1\<rparr>)))"

interpretation purge_private_state_wire: lossless w_purge_private_state
  unfolding w_purge_private_state_def by (rule wire_codec_lossless) (simp add: wire_nested)

lemmas [wire_nested] = get_opt_codec [OF purge_private_state_wire.lossless_axioms] get_rep_codec [OF purge_private_state_wire.lossless_axioms]

definition w_get_state_by_range :: "get_state_by_range codec" where
  "w_get_state_by_range = wire_codec
     (\<lambda>m. f_str 1 (gsr_start_key m) @ f_str 2 (gsr_end_key m) @ f_str 3 (gsr_collection m) @ f_bytes 4 (gsr_metadata m))
     (\<lambda>fs.
       res_bind (get_str (vals 1 fs)) (\<lambda>x0.
       res_bind (get_str (vals 2 fs)) (\<lambda>x1.
       res_bind (get_str (vals 3 fs)) (\<lambda>x2.
       res_bind (get_bytes (vals 4 fs)) (\<lambda>x3.
       Inr \<lparr>gsr_start_key = x0, gsr_end_key = x1, gsr_collection = x2, gsr_metadata = x3\<rparr>)))))"

interpretation get_state_by_range_wire: lossless w_get_state_by_range
  unfolding w_get_state_by_range_def by (rule wire_codec_lossless) (simp add: wire_nested)

lemmas [wire_nested] = get_opt_codec [OF get_state_by_range_wire.lossless_axioms] get_rep_codec [OF get_state_by_range_wire.lossless_axioms]

definition w_get_query_result :: "get_query_result codec" where
  "w_get_query_result = wire_codec
     (\<lambda>m. f_str 1 (gqr_query m) @ f_str 2 (gqr_collection m) @ f_bytes 3 (gqr_metadata m))
     (\<lambda>fs.
       res_bind (get_str (vals 1 fs)) (\<lambda>x0.
       res_bind (get_str (vals 2 fs)) (\<lambda>x1.
       res_bind (get_bytes (vals 3 fs)) (\<lambda>x2.
       Inr \<lparr>gqr_query = x0, gqr_collection = x1, gqr_metadata = x2\<rparr>))))"

interpretation get_query_result_wire: lossless w_get_query_result
  unfolding w_get_query_result_def by (rule wire_codec_lossless) (simp add: wire_nested)

lemmas [wire_nested] = get_opt_codec [OF get_query_result_wire.lossless_axioms] get_rep_codec [OF get_query_result_wire.lossless_axioms]

definition w_query_metadata :: "query_metadata codec" where
  "w_query_metadata = wire_codec
     (\<lambda>m. f_i32 1 (qm_page_size m) @ f_str 2 (qm_bookmark m))
     (\<lambda>fs.
       res_bind (get_i32 (vals 1 fs)) (\<lambda>x0.
       res_bind (get_str (vals 2 fs)) (\<lambda>x1.
       Inr \<lparr>qm_page_size = x0, qm_bookmark = x1\<rparr>)))"

interpretation query_metadata_wire: lossless w_query_metadata
  unfolding w_query_metadata_def by (rule wire_codec_lossless) (simp add: wire_nested)

lemmas [wire_nested] = get_opt_codec [OF query_metadata_wire.lossless_axioms] get_rep_codec [OF query_metadata_wire.lossless_axioms]

definition w_get_history_for_key :: "get_history_for_key codec" where
  "w_get_history_for_key = wire_codec
     (\<lambda>m. f_str 1 (ghk_key m))
     (\<lambda>fs.
       res_bind (get_str (vals 1 fs)) (\<lambda>x0.
       Inr \<lparr>ghk_key = x0\<rparr>))"

interpretation get_history_for_key_wire: lossless w_get_history_for_key
  unfolding w_get_history_for_key_def by (rule wire_codec_lossless) (simp add: wire_nested)

lemmas [wire_nested] = get_opt_codec [OF get_history_for_key_wire.lossless_axioms] get_rep_codec [OF get_history_for_key_wire.lossless_axioms]

definition w_query_state_next :: "query_state_next codec" where
  "w_query_state_next = wire_codec
     (\<lambda>m. f_str 1 (qsn_id m))
     (\<lambda>fs.
       res_bind (get_str (vals 1 fs)) (\<lambda>x0.
       Inr \<lparr>qsn_id = x0\<rparr>))"

interpretation query_state_next_wire: lossless w_query_state_next
  unfolding w_query_state_next_def by (rule wire_codec_lossless) (simp add: wire_nested)

lemmas [wire_nested] = get_opt_codec [OF query_state_next_wire.lossless_axioms] get_rep_codec [OF query_state_next_wire.lossless_axioms]

definition w_query_state_close :: "query_state_close codec" where
  "w_query_state_close = wire_codec
     (\<lambda>m. f_str 1 (qsc_id m))
     (\<lambda>fs.
       res_bind (get_str (vals 1 fs)) (\<lambda>x0.
       Inr \<lparr>qsc_id = x0\<rparr>))"

interpretation query_state_close_wire: lossless w_query_state_close
  unfolding w_query_state_close_def by (rule wire_codec_lossless) (simp add: wire_nested)

lemmas [wire_nested] = get_opt_codec [OF query_state_close_wire.lossless_axioms] get_rep_codec [OF query_state_close_wire.lossless_axioms]

definition w_query_result_bytes :: "query_result_bytes codec" where
  "w_query_result_bytes = wire_codec
     (\<lambda>m. f_bytes 1 (qrb_result_bytes m))
     (\<lambda>fs.
       res_bind (get_bytes (vals 1 fs)) (\<lambda>x0.
       Inr \<lparr>qrb_result_bytes = x0\<rparr>))"

interpretation query_result_bytes_wire: lossless w_query_result_bytes
  unfolding w_query_result_bytes_def by (rule wire_codec_lossless) (simp add: wire_nested)

lemmas [wire_nested] = get_opt_codec [OF query_result_bytes_wire.lossless_axioms] get_rep_codec [OF query_result_bytes_wire.lossless_axioms]

definition w_query_response :: "query_response codec" where
  "w_query_response = wire_codec
     (\<lambda>m. f_rep 1 (encode w_query_result_bytes) (qr_results m) @ f_bool 2 (qr_has_more m) @ f_str 3 (qr_id m) @ f_bytes 4 (qr_metadata m))
     (\<lambda>fs.
       res_bind (get_rep (decode w_query_result_bytes) (vals 1 fs)) (\<lambda>x0.
       res_bind (get_bool (vals 2 fs)) (\<lambda>x1.
       res_bind (get_str (vals 3 fs)) (\<lambda>x2.
       res_bind (get_bytes (vals 4 fs)) (\<lambda>x3.
       Inr \<lparr>qr_results = x0, qr_has_more = x1, qr_id = x2, qr_metadata = x3\<rparr>)))))"

interpretation query_response_wire: lossless w_query_response
  unfolding w_query_response_def by (rule wire_codec_lossless) (simp add: wire_nested)

lemmas [wire_nested] = get_opt_codec [OF query_response_wire.lossless_axioms] get_rep_codec [OF query_response_wire.lossless_axioms]

definition w_query_response_metadata :: "query_response_metadata codec" where
  "w_query_response_metadata = wire_codec
     (\<lambda>m. f_i32 1 (qrm_fetched_records_count m) @ f_str 2 (qrm_bookmark m))
     (\<lambda>fs.
       res_bind (get_i32 (vals 1 fs)) (\<lambda>x0.
       res_bind (get_str (vals 2 fs)) (\<lambda>x1.
       Inr \<lparr>qrm_fetched_records_count = x0, qrm_bookmark = x1\<rparr>)))"

interpretation query_response_metadata_wire: lossless w_query_response_metadata
  unfolding w_query_response_metadata_def by (rule wire_codec_lossless) (simp add: wire_nested)

lemmas [wire_nested] = get_opt_codec [OF query_response_metadata_wire.lossless_axioms] get_rep_codec [OF query_response_metadata_wire.lossless_axioms]

definition w_kv :: "kv codec" where
  "w_kv = wire_codec
     (\<lambda>m. f_str 1 (kv_namespace m) @ f_str 2 (kv_key m) @ f_bytes 3 (kv_value m))
     (\<lambda>fs.
       res_bind (get_str (vals 1 fs)) (\<lambda>x0.
       res_bind (get_str (vals 2 fs)) (\<lambda>x1.
       res_bind (get_bytes (vals 3 fs)) (\<lambda>x2.
       Inr \<lparr>kv_namespace = x0, kv_key = x1, kv_value = x2\<rparr>))))"

interpretation kv_wire: lossless w_kv
  unfolding w_kv_def by (rule wire_codec_lossless) (simp add: wire_nested)

lemmas [wire_nested] = get_opt_codec [OF kv_wire.lossless_axioms] get_rep_codec [OF kv_wire.lossless_axioms]

definition w_key_modification :: "key_modification codec" where
  "w_key_modification = wire_codec
     (\<lambda>m. f_str 1 (km_tx_id m) @ f_bytes 2 (km_value m) @ f_opt 3 (encode w_timestamp) (km_timestamp m) @ f_bool 4 (km_is_delete m))
     (\<lambda>fs.
       res_bind (get_str (vals 1 fs)) (\<lambda>x0.
       res_bind (get_bytes (vals 2 fs)) (\<lambda>x1.
       res_bind (get_opt (decode w_timestamp) (vals 3 fs)) (\<lambda>x2.
       res_bind (get_bool (vals 4 fs)) (\<lambda>x3.
       Inr \<lparr>km_tx_id = x0, km_value = x1, km_timestamp = x2, km_is_delete = x3\<rparr>)))))"

interpretation key_modification_wire: lossless w_key_modification
  unfolding w_key_modification_def by (rule wire_codec_lossless) (simp add: wire_nested)

lemmas [wire_nested] = get_opt_codec [OF key_modification_wire.lossless_axioms] get_rep_codec [OF key_modification_wire.lossless_axioms]

text \<open>The bundle of codecs the shim uses, on the wire format.\<close>

definition wire_prost :: prost where
  "wire_prost = \<lparr>c_chaincode_id = w_chaincode_id,
     c_chaincode_input = w_chaincode_input,
     c_chaincode_spec = w_chaincode_spec,
     c_response = w_response,
     c_proposal = w_proposal,
     c_header = w_header,
     c_channel_header = w_channel_header,
     c_signature_header = w_signature_header,
     c_chaincode_proposal_payload = w_chaincode_proposal_payload,
     c_serialized_identity = w_serialized_identity,
     c_chaincode_message = w_chaincode_message,
     c_get_state = w_get_state,
     c_put_state = w_put_state,
     c_del_state = w_del_state,
     c_purge_private_state = w_purge_private_state,
     c_get_state_by_range = w_get_state_by_range,
     c_get_query_result = w_get_query_result,
     c_query_metadata = w_query_metadata,
     c_get_history_for_key = w_get_history_for_key,
     c_query_state_next = w_query_state_next,
     c_query_state_close = w_query_state_close,
     c_query_response = w_query_response,
     c_query_response_metadata = w_query_response_metadata,
     c_kv = w_kv,
     c_key_modification = w_key_modification\<rparr>"

lemma wire_prost_ok [simp]: "prost_ok wire_prost"
  by (simp add: prost_ok_def wire_prost_def chaincode_id_wire.lossless_axioms
      chaincode_input_wire.lossless_axioms
      chaincode_spec_wire.lossless_axioms
      response_wire.lossless_axioms
      proposal_wire.lossless_axioms
      header_wire.lossless_axioms
      channel_header_wire.lossless_axioms
      signature_header_wire.lossless_axioms
      chaincode_proposal_payload_wire.lossless_axioms
      serialized_identity_wire.lossless_axioms
      chaincode_message_wire.lossless_axioms
      get_state_wire.lossless_axioms
      put_state_wire.lossless_axioms
      del_state_wire.lossless_axioms
      purge_private_state_wire.lossless_axioms
      get_state_by_range_wire.lossless_axioms
      get_query_result_wire.lossless_axioms
      query_metadata_wire.lossless_axioms
      get_history_for_key_wire.lossless_axioms
      query_state_next_wire.lossless_axioms
      query_state_close_wire.lossless_axioms
      query_response_wire.lossless_axioms
      query_response_metadata_wire.lossless_axioms
      kv_wire.lossless_axioms
      key_modification_wire.lossless_axioms)

end
