(* ===== verification/Iterators.thy ===== *)
theory Iterators imports Io Wire
begin

section \<open>Query iterators\<close>

text \<open>
  \<open>fabric-shim/src/iterators.rs\<close>: the paging machinery \<open>QueryIter\<close> and the two public iterators
  over it. A method with \<open>&mut self\<close> returns the iterator it leaves behind with its result.
  The locale \<open>paging_peer\<close> states what an iterator relies on from the peer; inside it draining
  an iterator is shown to return every record once, in order, and to end.
\<close>

subsection \<open>QueryIter\<close>

record query_iter =
  qi_id :: str
  qi_batch :: "query_result_bytes list"
  qi_has_more :: bool
  qi_closed :: bool

definition query_iter_new :: "query_response \<Rightarrow> query_iter" where
  "query_iter_new resp =
     \<lparr>qi_id = qr_id resp, qi_batch = qr_results resp, qi_has_more = qr_has_more resp, qi_closed = False\<rparr>"

text \<open>One turn of the loop of \<open>next_raw\<close>; \<open>Inl\<close> is the next turn.\<close>

definition next_raw_turn :: "prost \<Rightarrow> query_iter \<Rightarrow>
    (query_iter + (shim_error + bytes option) \<times> query_iter) io" where
  "next_raw_turn P qi = (case qi_batch qi of
     qrb # rest \<Rightarrow> Ret (Inr (Inr (Some (qrb_result_bytes qrb)), qi\<lparr>qi_batch := rest\<rparr>))
   | [] \<Rightarrow>
       if \<not> qi_has_more qi \<or> qi_closed qi then Ret (Inr (Inr None, qi))
       else
         let payload = encode (c_query_state_next P) \<lparr>qsn_id = qi_id qi\<rparr> in
         io_bind (core_request MT_QueryStateNext payload) (\<lambda>r. case r of
           Inl e \<Rightarrow> Ret (Inr (Inl e, qi))
         | Inr reply \<Rightarrow> (case decode_or (c_query_response P) (cm_payload reply) of
             Inl e \<Rightarrow> Ret (Inr (Inl e, qi))
           | Inr resp \<Rightarrow> Ret (Inl (qi\<lparr>qi_batch := qr_results resp, qi_has_more := qr_has_more resp\<rparr>)))))"

definition next_raw :: "prost \<Rightarrow> query_iter \<Rightarrow> ((shim_error + bytes option) \<times> query_iter) io" where
  "next_raw P qi = io_loop (next_raw_turn P) qi"

definition query_close :: "prost \<Rightarrow> query_iter \<Rightarrow> ((shim_error + unit) \<times> query_iter) io" where
  "query_close P qi =
     (if qi_closed qi then Ret (Inr (), qi)
      else
        let qi' = qi\<lparr>qi_closed := True\<rparr>;
            payload = encode (c_query_state_close P) \<lparr>qsc_id = qi_id qi'\<rparr> in
        io_bind (core_request MT_QueryStateClose payload) (\<lambda>r. case r of
          Inl e \<Rightarrow> Ret (Inl e, qi')
        | Inr _ \<Rightarrow> Ret (Inr (), qi')))"

subsection \<open>StateQueryIterator and HistoryQueryIterator\<close>

text \<open>\<open>next\<close> of both iterators, with the codec of the record they decode.\<close>

definition iter_next :: "prost \<Rightarrow> 'r codec \<Rightarrow> query_iter \<Rightarrow> ((shim_error + 'r option) \<times> query_iter) io" where
  "iter_next P c qi = io_bind (next_raw P qi) (\<lambda>(r, qi'). case r of
     Inl e \<Rightarrow> Ret (Inl e, qi')
   | Inr (Some bytes) \<Rightarrow> (case decode_or c bytes of
         Inl e \<Rightarrow> Ret (Inl e, qi')
       | Inr v \<Rightarrow> Ret (Inr (Some v), qi'))
   | Inr None \<Rightarrow> Ret (Inr None, qi'))"

definition state_next :: "prost \<Rightarrow> query_iter \<Rightarrow> ((shim_error + kv option) \<times> query_iter) io" where
  "state_next P qi = iter_next P (c_kv P) qi"

definition history_next :: "prost \<Rightarrow> query_iter \<Rightarrow> ((shim_error + key_modification option) \<times> query_iter) io" where
  "history_next P qi = iter_next P (c_key_modification P) qi"

text \<open>\<open>collect_remaining\<close>: the \<open>while let\<close> loop over \<open>next\<close>, then \<open>close\<close>.\<close>

definition collect_turn :: "prost \<Rightarrow> query_iter \<times> kv list \<Rightarrow>
    (query_iter \<times> kv list + (shim_error + query_iter \<times> kv list)) io" where
  "collect_turn P st = io_bind (state_next P (fst st)) (\<lambda>(r, qi'). case r of
     Inl e \<Rightarrow> Ret (Inr (Inl e))
   | Inr (Some v) \<Rightarrow> Ret (Inl (qi', snd st @ [v]))
   | Inr None \<Rightarrow> Ret (Inr (Inr (qi', snd st))))"

definition collect_remaining :: "prost \<Rightarrow> query_iter \<Rightarrow> (shim_error + kv list) io" where
  "collect_remaining P qi =
     io_try (io_loop (collect_turn P) (qi, [])) (\<lambda>(qi', out).
     io_try (io_bind (query_close P qi') (\<lambda>(r, _). Ret r)) (\<lambda>_.
     Ret (Inr out)))"

subsection \<open>Runs of one call\<close>

lemma run_next_raw_item [run_simps]:
  "qi_batch qi = qrb # rest \<Longrightarrow> run_io env p ev (next_raw P qi) =
     Some (Inr (Inr (Some (qrb_result_bytes qrb)), qi\<lparr>qi_batch := rest\<rparr>), p, ev)"
  by (simp add: next_raw_def run_io_loop next_raw_turn_def)

lemma run_next_raw_end [run_simps]:
  "qi_batch qi = [] \<Longrightarrow> \<not> qi_has_more qi \<or> qi_closed qi \<Longrightarrow>
   run_io env p ev (next_raw P qi) = Some (Inr (Inr None, qi), p, ev)"
  by (simp add: next_raw_def run_io_loop next_raw_turn_def)

lemma run_next_raw_fetch:
  assumes "qi_batch qi = []" and "qi_has_more qi" and "\<not> qi_closed qi"
    and "env p MT_QueryStateNext (encode (c_query_state_next P) \<lparr>qsn_id = qi_id qi\<rparr>) = Some (Inr reply, p')"
    and "decode (c_query_response P) (cm_payload reply) = Inr resp"
  shows "run_io env p ev (next_raw P qi) =
    run_io env p' ev (next_raw P (qi\<lparr>qi_batch := qr_results resp, qi_has_more := qr_has_more resp\<rparr>))"
  using assms
  by (subst (1) next_raw_def, subst run_io_loop) (simp add: next_raw_turn_def decode_or_def next_raw_def)

lemma run_next_raw_error:
  assumes "qi_batch qi = []" and "qi_has_more qi" and "\<not> qi_closed qi"
    and "env p MT_QueryStateNext (encode (c_query_state_next P) \<lparr>qsn_id = qi_id qi\<rparr>) = Some (Inl e, p')"
  shows "run_io env p ev (next_raw P qi) = Some (Inr (Inl e, qi), p', ev)"
  using assms by (simp add: next_raw_def run_io_loop next_raw_turn_def)

lemma run_iter_next:
  "run_io env p ev (iter_next P c qi) = run_then (run_io env p ev (next_raw P qi)) (\<lambda>(r, qi') p' ev'. case r of
     Inl e \<Rightarrow> Some (Inr (Inl e, qi'), p', ev')
   | Inr (Some bytes) \<Rightarrow> (case decode_or c bytes of
         Inl e \<Rightarrow> Some (Inr (Inl e, qi'), p', ev')
       | Inr v \<Rightarrow> Some (Inr (Inr (Some v), qi'), p', ev'))
   | Inr None \<Rightarrow> Some (Inr (Inr None, qi'), p', ev'))"
  by (auto simp: iter_next_def split: sum.split option.split intro!: arg_cong2 [where f = run_then])

text \<open>Closing sends at most one QUERY_STATE_CLOSE and a closed iterator stays closed.\<close>

lemma run_query_close:
  "run_io env p ev (query_close P qi) =
     (if qi_closed qi then Some (Inr (Inr (), qi), p, ev)
      else (case env p MT_QueryStateClose (encode (c_query_state_close P) \<lparr>qsc_id = qi_id qi\<rparr>) of
          None \<Rightarrow> None
        | Some (r, p') \<Rightarrow> Some (Inr (res_map (\<lambda>_. ()) r, qi\<lparr>qi_closed := True\<rparr>), p', ev)))"
  by (auto simp: query_close_def Let_def split: sum.split prod.split option.split)

subsection \<open>Draining an iterator\<close>

text \<open>
  The interface to the peer: \<open>rest p i\<close> is what the peer in state \<open>p\<close> still holds for
  iterator \<open>i\<close>. While it holds something, QUERY_STATE_NEXT is answered with a page that is
  not empty and \<open>has_more\<close> tells whether something is left; QUERY_STATE_CLOSE is answered.
  \<open>inv\<close> is the peer's own invariant and \<open>frame\<close> what its other state satisfies meanwhile.
\<close>

locale paging_peer =
  fixes P :: prost
    and env :: "'p env"
    and rest :: "'p \<Rightarrow> str \<Rightarrow> bytes list"
    and inv :: "'p \<Rightarrow> bool"
    and frame :: "'p \<Rightarrow> 'p \<Rightarrow> bool"
  assumes frame_refl: "frame p p"
    and frame_trans: "frame p q \<Longrightarrow> frame q r \<Longrightarrow> frame p r"
    and next_page: "inv p \<Longrightarrow> rest p i \<noteq> [] \<Longrightarrow> \<exists>reply p' resp.
       env p MT_QueryStateNext (encode (c_query_state_next P) \<lparr>qsn_id = i\<rparr>) = Some (Inr reply, p')
     \<and> decode (c_query_response P) (cm_payload reply) = Inr resp
     \<and> rest p i = map qrb_result_bytes (qr_results resp) @ rest p' i
     \<and> qr_results resp \<noteq> [] \<and> (qr_has_more resp \<longleftrightarrow> rest p' i \<noteq> [])
     \<and> inv p' \<and> frame p p'"
    and close_answered: "inv p \<Longrightarrow> \<exists>reply p'.
       env p MT_QueryStateClose (encode (c_query_state_close P) \<lparr>qsc_id = i\<rparr>) = Some (Inr reply, p')
     \<and> inv p' \<and> frame p p'"
begin

definition left :: "query_iter \<Rightarrow> 'p \<Rightarrow> bytes list" where
  "left qi p = map qrb_result_bytes (qi_batch qi) @ (if qi_has_more qi then rest p (qi_id qi) else [])"

definition live :: "query_iter \<Rightarrow> 'p \<Rightarrow> bool" where
  "live qi p \<longleftrightarrow> \<not> qi_closed qi \<and> (qi_has_more qi \<longrightarrow> rest p (qi_id qi) \<noteq> []) \<and> inv p"

lemma next_raw_end:
  assumes "live qi p" and "left qi p = []"
  shows "run_io env p ev (next_raw P qi) = Some (Inr (Inr None, qi), p, ev)"
  using assms by (intro run_next_raw_end) (auto simp: live_def left_def split: if_splits)

lemma next_raw_batch:
  assumes "live qi p" and "qi_batch qi \<noteq> []" and "left qi p = b # bs"
  shows "\<exists>qi'. run_io env p ev (next_raw P qi) = Some (Inr (Inr (Some b), qi'), p, ev)
     \<and> left qi' p = bs \<and> live qi' p"
  using assms by (cases "qi_batch qi") (auto simp: run_next_raw_item left_def live_def)

lemma next_raw_item:
  assumes "live qi p" and "left qi p = b # bs"
  shows "\<exists>qi' p'. run_io env p ev (next_raw P qi) = Some (Inr (Inr (Some b), qi'), p', ev)
     \<and> left qi' p' = bs \<and> live qi' p' \<and> frame p p'"
proof (cases "qi_batch qi = []")
  case False
  with next_raw_batch [OF assms(1) False assms(2)] frame_refl show ?thesis by blast
next
  case True
  with assms have more: "qi_has_more qi" "\<not> qi_closed qi" "inv p" "rest p (qi_id qi) = b # bs"
    by (auto simp: live_def left_def split: if_splits)
  from next_page [of p "qi_id qi"] more obtain reply p' resp where
    reply: "env p MT_QueryStateNext (encode (c_query_state_next P) \<lparr>qsn_id = qi_id qi\<rparr>) = Some (Inr reply, p')"
    and dec: "decode (c_query_response P) (cm_payload reply) = Inr resp"
    and page: "b # bs = map qrb_result_bytes (qr_results resp) @ rest p' (qi_id qi)"
      "qr_results resp \<noteq> []" "qr_has_more resp \<longleftrightarrow> rest p' (qi_id qi) \<noteq> []" "inv p'" "frame p p'"
    by auto
  let ?qi = "qi\<lparr>qi_batch := qr_results resp, qi_has_more := qr_has_more resp\<rparr>"
  have "live ?qi p'" "left ?qi p' = b # bs" "qi_batch ?qi \<noteq> []"
    using page more by (auto simp: live_def left_def)
  from next_raw_batch [OF this(1,3,2), of ev] run_next_raw_fetch [where qi = qi and env = env and p = p and ev = ev, OF True more(1,2) reply dec] page(5)
  show ?thesis by auto
qed

lemma state_next_item:
  assumes "live qi p" and "left qi p = b # bs"
  shows "\<exists>qi' p'. run_io env p ev (state_next P qi)
       = Some (Inr (res_map Some (decode_or (c_kv P) b), qi'), p', ev)
     \<and> left qi' p' = bs \<and> live qi' p' \<and> frame p p'"
  using next_raw_item [OF assms, of ev]
  by (auto simp: state_next_def run_iter_next split: sum.split)

lemma collect_loop:
  assumes "live qi p"
  shows "\<exists>qi' p'. run_io env p ev (io_loop (collect_turn P) (qi, out))
       = Some (Inr (res_map (\<lambda>kvs. (qi', out @ kvs)) (res_collect (decode_or (c_kv P)) (left qi p))), p', ev)
     \<and> (is_ok (res_collect (decode_or (c_kv P)) (left qi p)) \<longrightarrow> live qi' p') \<and> frame p p'"
  using assms
proof (induction "left qi p" arbitrary: qi p out)
  case Nil
  then have "run_io env p ev (state_next P qi) = Some (Inr (Inr None, qi), p, ev)"
    by (simp add: state_next_def run_iter_next next_raw_end)
  with Nil frame_refl show ?case
    by (subst run_io_loop) (auto simp: collect_turn_def Nil(1) [symmetric])
next
  case (Cons b bs)
  then obtain qi' p' where
    run: "run_io env p ev (state_next P qi) = Some (Inr (res_map Some (decode_or (c_kv P) b), qi'), p', ev)"
    and q: "left qi' p' = bs" "live qi' p'" "frame p p'"
    using state_next_item [of qi p b bs ev] by auto
  show ?case
  proof (cases "decode_or (c_kv P) b")
    case (Inl e)
    with run q(3) show ?thesis
      by (subst run_io_loop) (auto simp: collect_turn_def Cons(2) [symmetric])
  next
    case (Inr v)
    have "run_io env p ev (io_loop (collect_turn P) (qi, out))
        = run_io env p' ev (io_loop (collect_turn P) (qi', out @ [v]))"
      by (subst run_io_loop) (simp add: collect_turn_def run Inr)
    moreover from Cons(1) [OF q(1) [symmetric] q(2), of "out @ [v]"] obtain qi'' p'' where
      "run_io env p' ev (io_loop (collect_turn P) (qi', out @ [v]))
         = Some (Inr (res_map (\<lambda>kvs. (qi'', (out @ [v]) @ kvs)) (res_collect (decode_or (c_kv P)) bs)), p'', ev)"
      "is_ok (res_collect (decode_or (c_kv P)) bs) \<longrightarrow> live qi'' p''" "frame p' p''"
      using q(1) by auto
    moreover from this(3) q(3) have "frame p p''" using frame_trans by blast
    ultimately show ?thesis using Inr
      by (intro exI [of _ qi''] exI [of _ p'']) (cases "res_collect (decode_or (c_kv P)) bs";
          auto simp: Cons(2) [symmetric])
  qed
qed

text \<open>\<open>collect_remaining\<close> ends and returns every record that is left, once and in order (or the
  error of the first record that cannot be decoded).\<close>

lemma collect_all:
  assumes "live qi p"
  shows "\<exists>p'. run_io env p ev (collect_remaining P qi)
       = Some (Inr (res_collect (decode_or (c_kv P)) (left qi p)), p', ev) \<and> frame p p'"
proof -
  from collect_loop [OF assms, of ev "[]"] obtain qi' p' where
    run: "run_io env p ev (io_loop (collect_turn P) (qi, []))
       = Some (Inr (res_map (\<lambda>kvs. (qi', [] @ kvs)) (res_collect (decode_or (c_kv P)) (left qi p))), p', ev)"
    and live': "is_ok (res_collect (decode_or (c_kv P)) (left qi p)) \<longrightarrow> live qi' p'" and fr: "frame p p'"
    by blast
  show ?thesis
  proof (cases "res_collect (decode_or (c_kv P)) (left qi p)")
    case (Inl e)
    with run fr show ?thesis by (auto simp: collect_remaining_def)
  next
    case (Inr kvs)
    with live' have "live qi' p'" by simp
    then have nc: "\<not> qi_closed qi'" "inv p'" by (auto simp: live_def)
    from close_answered [OF nc(2), of "qi_id qi'"] obtain reply p'' where
      "env p' MT_QueryStateClose (encode (c_query_state_close P) \<lparr>qsc_id = qi_id qi'\<rparr>) = Some (Inr reply, p'')"
      "frame p' p''" by blast
    with run Inr nc fr frame_trans show ?thesis
      by (auto simp: collect_remaining_def run_query_close)
  qed
qed

end

subsection \<open>Properties\<close>

text \<open>A closed iterator never talks to the peer again: closing it a second time does nothing, and
  \<open>next\<close> only hands out what is left of the batch it already has.\<close>

lemma closed_iterator_is_local:
  assumes "qi_closed qi"
  shows "query_close P qi = Ret (Inr (), qi)
    \<and> next_raw P qi = Ret (case qi_batch qi of [] \<Rightarrow> (Inr None, qi)
      | qrb # rest \<Rightarrow> (Inr (Some (qrb_result_bytes qrb)), qi\<lparr>qi_batch := rest\<rparr>))"
proof
  show "query_close P qi = Ret (Inr (), qi)" using assms by (simp add: query_close_def)
  show "next_raw P qi = Ret (case qi_batch qi of [] \<Rightarrow> (Inr None, qi)
      | qrb # rest \<Rightarrow> (Inr (Some (qrb_result_bytes qrb)), qi\<lparr>qi_batch := rest\<rparr>))"
    unfolding next_raw_def by (subst io_loop_unfold) (use assms in \<open>simp add: next_raw_turn_def split: list.split\<close>)
qed

lemma closed_iterator_is_local_witness:
  "\<exists>qi. qi_closed qi \<and> qi_has_more qi \<and> (\<forall>P. next_raw P qi = Ret (Inr None, qi))"
  using closed_iterator_is_local [of "\<lparr>qi_id = [], qi_batch = [], qi_has_more = True, qi_closed = True\<rparr>"]
  by (intro exI [of _ "\<lparr>qi_id = [], qi_batch = [], qi_has_more = True, qi_closed = True\<rparr>"]) simp

text \<open>The loop of \<open>next\<close> has no bound of its own: against a peer that keeps answering with empty
  pages and \<open>has_more\<close> it never returns.\<close>

lemma empty_pages_never_end:
  assumes env: "\<And>p. env p MT_QueryStateNext (encode (c_query_state_next P) \<lparr>qsn_id = qi_id qi\<rparr>) = Some (Inr reply, f p)"
    and "decode (c_query_response P) (cm_payload reply) = Inr resp"
    and "qr_results resp = []" "qr_has_more resp"
    and "qi_batch qi = []" "qi_has_more qi" "\<not> qi_closed qi"
  shows "run_io env p ev (next_raw P qi) = None"
proof -
  have same: "qi\<lparr>qi_batch := qr_results resp, qi_has_more := qr_has_more resp\<rparr> = qi"
    using assms(3-6) by simp
  have unfold: "next_raw P qi = Req MT_QueryStateNext (encode (c_query_state_next P) \<lparr>qsn_id = qi_id qi\<rparr>)
      (\<lambda>r. io_bind (case r of
           Inl e \<Rightarrow> Ret (Inr (Inl e, qi))
         | Inr reply \<Rightarrow> (case decode_or (c_query_response P) (cm_payload reply) of
             Inl e \<Rightarrow> Ret (Inr (Inl e, qi))
           | Inr resp \<Rightarrow> Ret (Inl (qi\<lparr>qi_batch := qr_results resp, qi_has_more := qr_has_more resp\<rparr>))))
         (\<lambda>r. case r of Inl s' \<Rightarrow> Tau (next_raw P s') | Inr a \<Rightarrow> Ret a))"
    unfolding next_raw_def by (subst io_loop_unfold) (simp add: next_raw_turn_def core_request_def assms(5-7))
  have "run_io env' p ev m = Some x \<Longrightarrow>
      env' = env \<longrightarrow> m \<noteq> next_raw P qi \<and> m \<noteq> Tau (next_raw P qi)" for env' p ev m x
  proof (induction rule: run_io.raw_induct [rotated, consumes 1])
    case (1 run_io' env' p ev m x)
    show ?case
    proof (intro impI conjI notI)
      assume "env' = env" "m = next_raw P qi"
      with 1(2) have "run_io' env (f p) ev (Tau (next_raw P qi)) = Some x"
        by (simp add: unfold env decode_or_simps(1) [OF assms(2)] same)
      from 1(1) [OF this] show False by simp
    next
      assume "env' = env" "m = Tau (next_raw P qi)"
      with 1(2) have "run_io' env p ev (next_raw P qi) = Some x" by simp
      from 1(1) [OF this] show False by simp
    qed
  qed
  then show ?thesis by (cases "run_io env p ev (next_raw P qi)") blast+
qed

text \<open>An empty page that promises more.\<close>

definition empty_page :: query_response where
  "empty_page = \<lparr>qr_results = [], qr_has_more = True, qr_id = [], qr_metadata = []\<rparr>"

lemma empty_pages_never_end_example:
  "run_io (constant_env (plain_message MT_Response (encode (c_query_response wire_prost) empty_page))) () None
     (next_raw wire_prost \<lparr>qi_id = [], qi_batch = [], qi_has_more = True, qi_closed = False\<rparr>) = None"
  by (rule empty_pages_never_end [of _ wire_prost _ "plain_message MT_Response (encode (c_query_response wire_prost) empty_page)"
        "\<lambda>_. ()" empty_page]) (simp_all add: constant_env_def empty_page_def)

end
