(* ===== verification/Composite_Key.thy ===== *)
theory Composite_Key imports Shim_Types
begin

section \<open>Composite keys\<close>

text \<open>
  \<open>fabric-shim/src/stub.rs\<close>, \<open>create_composite_key\<close>, \<open>split_composite_key\<close> and their
  helpers. The lemmas show the written form of a key, that splitting inverts creating,
  that creating is injective, and that the range \<open>get_state_by_partial_composite_key\<close>
  scans holds exactly the keys whose attributes extend the given ones.
\<close>

subsection \<open>Definitions\<close>

definition COMPOSITE_KEY_NAMESPACE :: uchr where
  "COMPOSITE_KEY_NAMESPACE = uchr_of 0"

definition MAX_UNICODE_RUNE :: uchr where
  "MAX_UNICODE_RUNE = uchr_of 0x10FFFF"

definition require_collection :: "str \<Rightarrow> shim_error + unit" where
  "require_collection collection =
     (if collection = [] then Inl (ErrInvalidArgument (lit ''collection must not be empty'')) else Inr ())"

definition validate_composite_component :: "(uchr \<Rightarrow> bool) \<Rightarrow> str \<Rightarrow> shim_error + unit" where
  "validate_composite_component esc s =
     (if s = [] then Inl (ErrInvalidArgument (lit ''composite key component must not be empty''))
      else if COMPOSITE_KEY_NAMESPACE \<in> set s \<or> MAX_UNICODE_RUNE \<in> set s then
        Inl (ErrInvalidArgument (lit ''composite key component '' @ debug_str esc s
               @ lit '' contains U+0000 or U+10FFFF''))
      else Inr ())"

text \<open>The loop over the attributes, with the key built so far.\<close>

fun push_attributes :: "(uchr \<Rightarrow> bool) \<Rightarrow> str \<Rightarrow> str list \<Rightarrow> shim_error + str" where
  "push_attributes esc key [] = Inr key"
| "push_attributes esc key (attr # attrs) =
     res_bind (validate_composite_component esc attr)
       (\<lambda>_. push_attributes esc (key @ attr @ [COMPOSITE_KEY_NAMESPACE]) attrs)"

definition create_composite_key :: "(uchr \<Rightarrow> bool) \<Rightarrow> str \<Rightarrow> str list \<Rightarrow> shim_error + str" where
  "create_composite_key esc object_type attributes =
     res_bind (validate_composite_component esc object_type)
       (\<lambda>_. push_attributes esc
              ([COMPOSITE_KEY_NAMESPACE] @ object_type @ [COMPOSITE_KEY_NAMESPACE]) attributes)"

text \<open>\<open>str::split\<close> at every occurrence of a character: one segment more than separators.\<close>

fun split_on :: "uchr \<Rightarrow> str \<Rightarrow> str list" where
  "split_on d [] = [[]]"
| "split_on d (c # s) = (if c = d then [] # split_on d s
     else (case split_on d s of [] \<Rightarrow> [[c]] | w # ws \<Rightarrow> (c # w) # ws))"

definition split_composite_key :: "str \<Rightarrow> shim_error + str \<times> str list" where
  "split_composite_key k = (case k of
     [] \<Rightarrow> Inl (ErrInvalidArgument (lit ''not a composite key''))
   | c # stripped \<Rightarrow>
       if c \<noteq> COMPOSITE_KEY_NAMESPACE then Inl (ErrInvalidArgument (lit ''not a composite key''))
       else (case filter (\<lambda>p. p \<noteq> []) (split_on COMPOSITE_KEY_NAMESPACE stripped) of
           [] \<Rightarrow> Inl (ErrInvalidArgument (lit ''composite key has no object type''))
         | object_type # parts \<Rightarrow> Inr (object_type, parts)))"

text \<open>The range of a partial composite key query: from the key up to the key and U+10FFFF.\<close>

definition partial_key_range :: "str \<Rightarrow> str \<times> str" where
  "partial_key_range p = (p, p @ [MAX_UNICODE_RUNE])"

subsection \<open>The written form of a key\<close>

definition valid_component :: "str \<Rightarrow> bool" where
  "valid_component s \<longleftrightarrow> s \<noteq> [] \<and> COMPOSITE_KEY_NAMESPACE \<notin> set s \<and> MAX_UNICODE_RUNE \<notin> set s"

lemma uc_not_max [simp]: "uc c \<noteq> MAX_UNICODE_RUNE"
  using nat_of_char_less_256 [of c]
  by (auto simp del: nat_of_char_less_256 simp: MAX_UNICODE_RUNE_def uchr_eq_iff scalar_value_def)

lemma uc_namespace: "uc (CHR 0x00) = COMPOSITE_KEY_NAMESPACE"
  by (simp add: COMPOSITE_KEY_NAMESPACE_def uchr_eq_iff scalar_value_def)

lemma max_not_in_lit: "MAX_UNICODE_RUNE \<notin> set (lit s)"
  by (induction s) (simp_all add: lit_Cons uc_not_max [symmetric])

lemma namespace_in_lit: "COMPOSITE_KEY_NAMESPACE \<in> set (lit s) \<longleftrightarrow> CHR 0x00 \<in> set s"
  unfolding uc_namespace [symmetric] by (induction s) (simp_all only: lit_Cons lit_Nil list.set insert_iff empty_iff uc_inject)

lemma valid_component_lit: "valid_component (lit s) \<longleftrightarrow> s \<noteq> [] \<and> CHR 0x00 \<notin> set s"
  by (simp only: valid_component_def max_not_in_lit namespace_in_lit lit_eq_Nil simp_thms)

definition terminated :: "str list \<Rightarrow> str" where
  "terminated ss = concat (map (\<lambda>s. s @ [COMPOSITE_KEY_NAMESPACE]) ss)"

lemma terminated_simps [simp]:
  "terminated [] = []"
  "terminated (s # ss) = s @ COMPOSITE_KEY_NAMESPACE # terminated ss"
  by (simp_all add: terminated_def)

lemma terminated_append [simp]: "terminated (ss @ ts) = terminated ss @ terminated ts"
  by (simp add: terminated_def)

lemma validate_ok_iff [simp]:
  "validate_composite_component esc s = Inr u \<longleftrightarrow> valid_component s"
  by (simp add: validate_composite_component_def valid_component_def)

lemma validate_valid [simp]:
  "valid_component s \<Longrightarrow> validate_composite_component esc s = Inr ()"
  by simp

lemma validate_cases:
  obtains (valid) "valid_component s" "validate_composite_component esc s = Inr ()"
  | (invalid) e where "\<not> valid_component s" "validate_composite_component esc s = Inl (ErrInvalidArgument e)"
proof (cases "valid_component s")
  case True
  then show ?thesis using valid by simp
next
  case False
  then have "\<exists>e. validate_composite_component esc s = Inl (ErrInvalidArgument e)"
    by (auto simp: validate_composite_component_def valid_component_def)
  with False show ?thesis using invalid by blast
qed

lemma push_attributes_iff:
  "push_attributes esc key as = Inr k \<longleftrightarrow> (\<forall>a\<in>set as. valid_component a) \<and> k = key @ terminated as"
proof (induction as arbitrary: key)
  case (Cons a as)
  show ?case
    by (cases rule: validate_cases [of a esc]) (auto simp: Cons.IH)
qed auto

lemma create_iff:
  "create_composite_key esc ot as = Inr k \<longleftrightarrow>
     (\<forall>s\<in>set (ot # as). valid_component s) \<and> k = COMPOSITE_KEY_NAMESPACE # terminated (ot # as)"
  by (cases rule: validate_cases [of ot esc])
    (auto simp: create_composite_key_def push_attributes_iff)

lemma push_attributes_cases:
  "is_ok (push_attributes esc key as) \<or> (\<exists>e. push_attributes esc key as = Inl (ErrInvalidArgument e))"
proof (induction as arbitrary: key)
  case (Cons a as)
  show ?case by (cases rule: validate_cases [of a esc]) (simp_all add: Cons.IH)
qed simp

lemma create_err:
  assumes "\<not> (\<forall>s\<in>set (ot # as). valid_component s)"
  shows "\<exists>e. create_composite_key esc ot as = Inl (ErrInvalidArgument e)"
proof -
  have "\<not> is_ok (create_composite_key esc ot as)"
    using assms by (simp add: is_ok_iff create_iff)
  then show ?thesis
    using push_attributes_cases by (cases rule: validate_cases [of ot esc]) (auto simp: create_composite_key_def)
qed

subsection \<open>Splitting\<close>

lemma split_on_nonempty [simp]: "split_on d s \<noteq> []"
  by (induction s) (auto split: list.splits)

lemma split_on_append:
  "d \<notin> set w \<Longrightarrow> split_on d (w @ d # s) = w # split_on d s"
  by (induction w) auto

lemma split_on_terminated:
  assumes "\<forall>s\<in>set ss. COMPOSITE_KEY_NAMESPACE \<notin> set s"
  shows "split_on COMPOSITE_KEY_NAMESPACE (terminated ss) = ss @ [[]]"
  using assms by (induction ss) (simp_all add: split_on_append)

lemma split_on_segments:
  "w \<in> set (split_on d s) \<Longrightarrow> d \<notin> set w \<and> set w \<subseteq> set s"
proof (induction s arbitrary: w)
  case (Cons c s)
  show ?case
  proof (cases "c = d")
    case True
    then show ?thesis using Cons by auto
  next
    case False
    obtain v vs where v: "split_on d s = v # vs" by (cases "split_on d s") auto
    with False Cons.prems have "w = c # v \<or> w \<in> set vs" by simp
    then show ?thesis using Cons.IH [of v] Cons.IH [of w] False v by auto
  qed
qed simp

lemma split_terminated:
  assumes "\<forall>s\<in>set (ot # as). valid_component s"
  shows "split_composite_key (COMPOSITE_KEY_NAMESPACE # terminated (ot # as)) = Inr (ot, as)"
proof -
  have "split_on COMPOSITE_KEY_NAMESPACE (terminated (ot # as)) = (ot # as) @ [[]]"
    by (rule split_on_terminated) (use assms in \<open>auto simp: valid_component_def\<close>)
  moreover have "ot \<noteq> []" "filter (\<lambda>p. p \<noteq> []) as = as"
    using assms by (auto simp: valid_component_def filter_id_conv)
  ultimately show ?thesis by (simp add: split_composite_key_def)
qed

lemma create_split: "create_composite_key esc ot as = Inr k \<Longrightarrow> split_composite_key k = Inr (ot, as)"
  unfolding create_iff by (metis split_terminated)

lemma split_ok_components:
  assumes "split_composite_key k = Inr (ot, as)"
  shows "\<forall>s\<in>set (ot # as). s \<noteq> [] \<and> COMPOSITE_KEY_NAMESPACE \<notin> set s"
proof -
  from assms obtain stripped where
    "filter (\<lambda>p. p \<noteq> []) (split_on COMPOSITE_KEY_NAMESPACE stripped) = ot # as"
    by (auto simp: split_composite_key_def split: list.splits if_splits)
  then have "set (ot # as) \<subseteq> {w \<in> set (split_on COMPOSITE_KEY_NAMESPACE stripped). w \<noteq> []}"
    by (metis set_filter order_refl)
  then show ?thesis using split_on_segments by blast
qed

lemma split_ok_chars:
  assumes "split_composite_key k = Inr (ot, as)" and "s \<in> set (ot # as)"
  shows "set s \<subseteq> set k"
proof -
  from assms obtain stripped where k: "k = COMPOSITE_KEY_NAMESPACE # stripped"
    and f: "filter (\<lambda>p. p \<noteq> []) (split_on COMPOSITE_KEY_NAMESPACE stripped) = ot # as"
    by (auto simp: split_composite_key_def split: list.splits if_splits)
  from f [symmetric] assms(2) have "s \<in> set (split_on COMPOSITE_KEY_NAMESPACE stripped)"
    by (metis filter_is_subset subsetD)
  then show ?thesis using split_on_segments k by fastforce
qed

lemma split_create:
  assumes "split_composite_key k = Inr (ot, as)" and "MAX_UNICODE_RUNE \<notin> set k"
  shows "is_ok (create_composite_key esc ot as)"
proof -
  have "valid_component s" if "s \<in> set (ot # as)" for s
    using split_ok_components [OF assms(1)] split_ok_chars [OF assms(1) that] assms(2) that
    by (auto simp: valid_component_def)
  then show ?thesis by (auto simp: is_ok_iff create_iff)
qed

subsection \<open>Partial key ranges\<close>

lemma append_sep_inject:
  assumes "d \<notin> set s" and "d \<notin> set t"
  shows "s @ d # xs = t @ d # ys \<longleftrightarrow> s = t \<and> xs = ys"
  using assms
proof (induction s arbitrary: t)
  case Nil
  then show ?case by (cases t) auto
next
  case (Cons c s)
  then show ?case by (cases t) auto
qed

lemma prefix_terminated:
  assumes "\<forall>s\<in>set ss \<union> set ts. COMPOSITE_KEY_NAMESPACE \<notin> set s"
  shows "prefix (terminated ss) (terminated ts) \<longleftrightarrow> prefix ss ts"
  using assms
proof (induction ss arbitrary: ts)
  case (Cons s ss)
  show ?case
  proof (cases ts)
    case (Cons t us)
    with Cons.prems Cons.IH [of us] show ?thesis
      by (auto simp: prefix_def append_sep_inject)
  qed simp
qed simp

lemma less_max_rune: "c \<noteq> MAX_UNICODE_RUNE \<Longrightarrow> c < MAX_UNICODE_RUNE"
  using code_point_bound [of c]
  by (auto simp: MAX_UNICODE_RUNE_def uchr_less_iff uchr_eq_iff scalar_value_def)

lemma terminated_less_max:
  assumes "\<forall>s\<in>set ss. valid_component s"
  shows "terminated ss < [MAX_UNICODE_RUNE]"
proof (cases ss)
  case (Cons s us)
  with assms obtain c cs where "s = c # cs" "c \<noteq> MAX_UNICODE_RUNE"
    by (cases s) (auto simp: valid_component_def)
  with Cons less_max_rune show ?thesis by simp
qed simp

lemma range_of_prefix:
  fixes p k :: str
  assumes "p \<le> k" and "k < p @ [MAX_UNICODE_RUNE]"
  shows "prefix p k"
  using assms by (rule list_lex_prefix_interval)

lemma partial_range_terminated:
  assumes "\<forall>s\<in>set ss \<union> set ts. valid_component s"
  shows "terminated ss \<le> terminated ts \<and> terminated ts < terminated ss @ [MAX_UNICODE_RUNE]
     \<longleftrightarrow> prefix ss ts" (is "?in \<longleftrightarrow> _")
proof
  assume ?in
  then have "prefix (terminated ss) (terminated ts)" using range_of_prefix by blast
  then show "prefix ss ts"
    using assms by (subst (asm) prefix_terminated) (auto simp: valid_component_def)
next
  assume "prefix ss ts"
  then obtain us where ts: "ts = ss @ us" by (auto simp: prefix_def)
  with assms have "terminated us < [MAX_UNICODE_RUNE]" by (intro terminated_less_max) auto
  then show ?in using ts append_lexord_common [of "terminated ss" "terminated us" "[MAX_UNICODE_RUNE]"]
    prefix_le_list [of "terminated ss" "terminated ts"] by simp
qed

lemma partial_key_range_exact:
  assumes "create_composite_key esc ot as = Inr p" and "create_composite_key esc ot' bs = Inr k"
  shows "(fst (partial_key_range p) \<le> k \<and> k < snd (partial_key_range p)) \<longleftrightarrow> ot' = ot \<and> prefix as bs"
  using assms partial_range_terminated [of "ot # as" "ot' # bs"]
  by (auto simp: create_iff partial_key_range_def)

subsection \<open>Properties\<close>

text \<open>C21. Creating a composite key succeeds exactly when the object type and every attribute
  are non-empty and free of U+0000 and U+10FFFF; then the key is the namespace character
  followed by every component and its terminator, and \<open>split_composite_key\<close> gives the object
  type and the attributes back. Otherwise the result is an \<open>InvalidArgument\<close> error.\<close>

theorem composite_key_round_trip:
  "if list_all valid_component (ot # as)
   then create_composite_key esc ot as = Inr (COMPOSITE_KEY_NAMESPACE # terminated (ot # as))
      \<and> split_composite_key (COMPOSITE_KEY_NAMESPACE # terminated (ot # as)) = Inr (ot, as)
   else (\<exists>e. create_composite_key esc ot as = Inl (ErrInvalidArgument e))"
  using create_err [of ot "as" esc] split_terminated [of ot "as"]
  by (auto simp: list_all_iff create_iff)

text \<open>A partial composite key query reads exactly the right keys: a composite key lies in
  the scanned range \<open>[p, p U+10FFFF)\<close> if and only if it has the same object type and its
  attributes extend the given ones.\<close>

lemma partial_composite_key_range:
  assumes "create_composite_key esc ot as = Inr p" and "create_composite_key esc ot' bs = Inr k"
  shows "(fst (partial_key_range p) \<le> k \<and> k < snd (partial_key_range p)) \<longleftrightarrow> ot' = ot \<and> prefix as bs"
  using assms by (rule partial_key_range_exact)

lemma partial_composite_key_range_example:
  "\<exists>p k l. create_composite_key (\<lambda>_. False) (lit ''car'') [lit ''red''] = Inr p
     \<and> create_composite_key (\<lambda>_. False) (lit ''car'') [lit ''red'', lit ''7''] = Inr k
     \<and> create_composite_key (\<lambda>_. False) (lit ''car'') [lit ''redder''] = Inr l
     \<and> p \<le> k \<and> k < p @ [MAX_UNICODE_RUNE] \<and> \<not> (p \<le> l \<and> l < p @ [MAX_UNICODE_RUNE])"
proof -
  let ?c = "create_composite_key (\<lambda>_. False) (lit ''car'')"
  obtain p k l where keys: "?c [lit ''red''] = Inr p" "?c [lit ''red'', lit ''7''] = Inr k"
      "?c [lit ''redder''] = Inr l"
    by (simp add: create_iff valid_component_lit)
  then show ?thesis
    using partial_composite_key_range [OF keys(1) keys(2)] partial_composite_key_range [OF keys(1) keys(3)]
    by (auto simp: partial_key_range_def)
qed

text \<open>Whatever splits without U+10FFFF can be created again from its parts, and the created
  key splits the same way: splitting normalises a key.\<close>

lemma split_composite_key_normalises:
  assumes "split_composite_key k = Inr (ot, as)" and "MAX_UNICODE_RUNE \<notin> set k"
  shows "\<exists>k'. create_composite_key esc ot as = Inr k' \<and> split_composite_key k' = Inr (ot, as)"
  using split_create [OF assms, of esc] create_split by (auto simp: is_ok_iff)

text \<open>Splitting accepts keys that creating never builds: empty segments are dropped.\<close>

lemma split_composite_key_not_injective:
  "split_composite_key (COMPOSITE_KEY_NAMESPACE # COMPOSITE_KEY_NAMESPACE # lit ''a'')
     = split_composite_key (COMPOSITE_KEY_NAMESPACE # lit ''a'' @ [COMPOSITE_KEY_NAMESPACE])"
proof -
  have "uc (CHR ''a'') \<noteq> COMPOSITE_KEY_NAMESPACE"
    by (simp add: COMPOSITE_KEY_NAMESPACE_def uchr_eq_iff scalar_value_def)
  then show ?thesis by (simp add: split_composite_key_def lit_Cons)
qed

end
