(* ===== verification/Stub.thy ===== *)
theory Stub imports Iterators Composite_Key
begin

section \<open>The chaincode stub\<close>

text \<open>
  \<open>fabric-shim/src/stub.rs\<close>: the per-transaction API. The record holds the fields of
  \<open>ChaincodeStub\<close> and of its \<open>StubCore\<close>; the link to the peer and the event slot are the
  effects of the programs of theory \<open>Io\<close>. Every method is one definition, in the order of
  the source. The lemmas give the one request each ledger method sends and its result
  on every branch.
\<close>

subsection \<open>ChaincodeStub\<close>

record stub =
  sb_channel_id :: str
  sb_tx_id :: str
  sb_args :: "bytes list"
  sb_decorations :: "(str, bytes) fmap"
  sb_signed_proposal :: "signed_proposal option"
  sb_creator :: bytes
  sb_transient :: "(str, bytes) fmap"
  sb_tx_timestamp :: "timestamp option"

text \<open>What \<open>new\<close> reads from a signed proposal: creator, transient map and timestamp.\<close>

definition read_proposal :: "prost \<Rightarrow> signed_proposal \<Rightarrow>
    shim_error + bytes \<times> (str, bytes) fmap \<times> timestamp option" where
  "read_proposal P sp =
     res_bind (decode_or (c_proposal P) (sp_proposal_bytes sp)) (\<lambda>proposal.
     res_bind (decode_or (c_header P) (prop_header proposal)) (\<lambda>hdr.
     res_bind (decode_or (c_channel_header P) (hd_channel_header hdr)) (\<lambda>chdr.
     res_bind (decode_or (c_signature_header P) (hd_signature_header hdr)) (\<lambda>shdr.
     res_bind (decode_or (c_chaincode_proposal_payload P) (prop_payload proposal)) (\<lambda>payload.
     Inr (sh_creator shdr, cpp_transient_map payload, ch_timestamp chdr))))))"

definition stub_new :: "prost \<Rightarrow> str \<Rightarrow> str \<Rightarrow> chaincode_input \<Rightarrow> signed_proposal option \<Rightarrow> shim_error + stub" where
  "stub_new P channel_id tx_id input signed_proposal =
     res_bind (case signed_proposal of None \<Rightarrow> Inr ([], fmempty, None) | Some sp \<Rightarrow> read_proposal P sp)
       (\<lambda>(creator, transient, tx_timestamp).
       Inr \<lparr>sb_channel_id = channel_id, sb_tx_id = tx_id, sb_args = ci_args input,
            sb_decorations = ci_decorations input, sb_signed_proposal = signed_proposal,
            sb_creator = creator, sb_transient = transient, sb_tx_timestamp = tx_timestamp\<rparr>)"

subsection \<open>Identity, arguments and proposal\<close>

definition get_tx_id :: "stub \<Rightarrow> str" where "get_tx_id stub = sb_tx_id stub"

definition get_channel_id :: "stub \<Rightarrow> str" where "get_channel_id stub = sb_channel_id stub"

definition get_tx_timestamp :: "stub \<Rightarrow> shim_error + timestamp" where
  "get_tx_timestamp stub =
     ok_or_else (ErrProtocol (lit ''transaction has no timestamp (no proposal)'')) (sb_tx_timestamp stub)"

definition get_args :: "stub \<Rightarrow> bytes list" where "get_args stub = sb_args stub"

definition get_string_args :: "stub \<Rightarrow> str list" where
  "get_string_args stub = map from_utf8_lossy (sb_args stub)"

definition get_function_and_args :: "stub \<Rightarrow> str \<times> str list" where
  "get_function_and_args stub = (case get_string_args stub of
     [] \<Rightarrow> ([], [])
   | function # args \<Rightarrow> (function, args))"

definition get_creator :: "stub \<Rightarrow> bytes" where "get_creator stub = sb_creator stub"

definition get_creator_identity :: "prost \<Rightarrow> stub \<Rightarrow> shim_error + serialized_identity" where
  "get_creator_identity P stub = decode_or (c_serialized_identity P) (sb_creator stub)"

definition get_transient :: "stub \<Rightarrow> (str, bytes) fmap" where "get_transient stub = sb_transient stub"

definition get_decorations :: "stub \<Rightarrow> (str, bytes) fmap" where "get_decorations stub = sb_decorations stub"

definition get_signed_proposal :: "stub \<Rightarrow> signed_proposal option" where
  "get_signed_proposal stub = sb_signed_proposal stub"

subsection \<open>Shared helpers\<close>

definition get_data :: "prost \<Rightarrow> msg_type \<Rightarrow> str \<Rightarrow> str \<Rightarrow> (shim_error + bytes) io" where
  "get_data P t key collection =
     (let payload = encode (c_get_state P) \<lparr>gs_key = key, gs_collection = collection\<rparr> in
      io_try (core_request t payload) (\<lambda>reply. Ret (Inr (cm_payload reply))))"

definition put_data :: "prost \<Rightarrow> str \<Rightarrow> str \<Rightarrow> bytes \<Rightarrow> (shim_error + unit) io" where
  "put_data P collection key val =
     (if key = [] then Ret (Inl (ErrInvalidArgument (lit ''key must not be empty'')))
      else
        let payload = encode (c_put_state P) \<lparr>ps_key = key, ps_value = val, ps_collection = collection\<rparr> in
        io_try (core_request MT_PutState payload) (\<lambda>_. Ret (Inr ())))"

definition del_data :: "prost \<Rightarrow> str \<Rightarrow> str \<Rightarrow> (shim_error + unit) io" where
  "del_data P collection key =
     (let payload = encode (c_del_state P) \<lparr>ds_key = key, ds_collection = collection\<rparr> in
      io_try (core_request MT_DelState payload) (\<lambda>_. Ret (Inr ())))"

definition range_query :: "prost \<Rightarrow> str \<Rightarrow> str \<Rightarrow> str \<Rightarrow> query_metadata option \<Rightarrow>
    (shim_error + query_iter \<times> query_response_metadata option) io" where
  "range_query P collection start_key end_key metadata =
     (let payload = encode (c_get_state_by_range P)
            \<lparr>gsr_start_key = start_key, gsr_end_key = end_key, gsr_collection = collection,
             gsr_metadata = (case metadata of None \<Rightarrow> [] | Some m \<Rightarrow> encode (c_query_metadata P) m)\<rparr> in
      io_try (core_request MT_GetStateByRange payload) (\<lambda>reply.
      io_ok (decode_or (c_query_response P) (cm_payload reply)) (\<lambda>resp.
      io_ok (if qr_metadata resp = [] then Inr None
             else res_map Some (decode_or (c_query_response_metadata P) (qr_metadata resp))) (\<lambda>response_meta.
      Ret (Inr (query_iter_new resp, response_meta))))))"

subsection \<open>World state\<close>

definition sb_get_state :: "prost \<Rightarrow> str \<Rightarrow> (shim_error + bytes) io" where
  "sb_get_state P key = get_data P MT_GetState key []"

definition sb_put_state :: "prost \<Rightarrow> str \<Rightarrow> bytes \<Rightarrow> (shim_error + unit) io" where
  "sb_put_state P key val = put_data P [] key val"

definition sb_del_state :: "prost \<Rightarrow> str \<Rightarrow> (shim_error + unit) io" where
  "sb_del_state P key = del_data P [] key"

definition sb_get_state_by_range :: "prost \<Rightarrow> str \<Rightarrow> str \<Rightarrow> (shim_error + query_iter) io" where
  "sb_get_state_by_range P start_key end_key =
     io_try (range_query P [] start_key end_key None) (\<lambda>(iter, _). Ret (Inr iter))"

definition get_state_by_range_with_pagination :: "prost \<Rightarrow> str \<Rightarrow> str \<Rightarrow> i32 \<Rightarrow> str \<Rightarrow>
    (shim_error + query_iter \<times> query_response_metadata) io" where
  "get_state_by_range_with_pagination P start_key end_key page_size bookmark =
     (let meta = \<lparr>qm_page_size = page_size, qm_bookmark = bookmark\<rparr> in
      io_try (range_query P [] start_key end_key (Some meta)) (\<lambda>(iter, response_meta).
      Ret (Inr (iter, case response_meta of None \<Rightarrow> default_query_response_metadata | Some m \<Rightarrow> m))))"

definition sb_get_query_result :: "prost \<Rightarrow> str \<Rightarrow> (shim_error + query_iter) io" where
  "sb_get_query_result P query =
     (let payload = encode (c_get_query_result P)
            \<lparr>gqr_query = query, gqr_collection = [], gqr_metadata = []\<rparr> in
      io_try (core_request MT_GetQueryResult payload) (\<lambda>reply.
      io_ok (decode_or (c_query_response P) (cm_payload reply)) (\<lambda>resp.
      Ret (Inr (query_iter_new resp)))))"

definition sb_get_history_for_key :: "prost \<Rightarrow> str \<Rightarrow> (shim_error + query_iter) io" where
  "sb_get_history_for_key P key =
     (let payload = encode (c_get_history_for_key P) \<lparr>ghk_key = key\<rparr> in
      io_try (core_request MT_GetHistoryForKey payload) (\<lambda>reply.
      io_ok (decode_or (c_query_response P) (cm_payload reply)) (\<lambda>resp.
      Ret (Inr (query_iter_new resp)))))"

definition get_state_by_partial_composite_key :: "prost \<Rightarrow> (uchr \<Rightarrow> bool) \<Rightarrow> str \<Rightarrow> str list \<Rightarrow>
    (shim_error + query_iter) io" where
  "get_state_by_partial_composite_key P esc object_type attributes =
     io_ok (create_composite_key esc object_type attributes) (\<lambda>prefix.
       let (start, end_key) = partial_key_range prefix in
       sb_get_state_by_range P start end_key)"

subsection \<open>Private data\<close>

definition get_private_data :: "prost \<Rightarrow> str \<Rightarrow> str \<Rightarrow> (shim_error + bytes) io" where
  "get_private_data P collection key =
     io_ok (require_collection collection) (\<lambda>_. get_data P MT_GetState key collection)"

definition get_private_data_hash :: "prost \<Rightarrow> str \<Rightarrow> str \<Rightarrow> (shim_error + bytes) io" where
  "get_private_data_hash P collection key =
     io_ok (require_collection collection) (\<lambda>_. get_data P MT_GetPrivateDataHash key collection)"

definition put_private_data :: "prost \<Rightarrow> str \<Rightarrow> str \<Rightarrow> bytes \<Rightarrow> (shim_error + unit) io" where
  "put_private_data P collection key val =
     io_ok (require_collection collection) (\<lambda>_. put_data P collection key val)"

definition del_private_data :: "prost \<Rightarrow> str \<Rightarrow> str \<Rightarrow> (shim_error + unit) io" where
  "del_private_data P collection key =
     io_ok (require_collection collection) (\<lambda>_. del_data P collection key)"

definition purge_private_data :: "prost \<Rightarrow> str \<Rightarrow> str \<Rightarrow> (shim_error + unit) io" where
  "purge_private_data P collection key =
     io_ok (require_collection collection) (\<lambda>_.
       let payload = encode (c_purge_private_state P) \<lparr>pps_key = key, pps_collection = collection\<rparr> in
       io_try (core_request MT_PurgePrivateData payload) (\<lambda>_. Ret (Inr ())))"

definition get_private_data_by_range :: "prost \<Rightarrow> str \<Rightarrow> str \<Rightarrow> str \<Rightarrow> (shim_error + query_iter) io" where
  "get_private_data_by_range P collection start_key end_key =
     io_ok (require_collection collection) (\<lambda>_.
       io_try (range_query P collection start_key end_key None) (\<lambda>(iter, _). Ret (Inr iter)))"

subsection \<open>Events and chaincode-to-chaincode calls\<close>

definition set_event :: "stub \<Rightarrow> str \<Rightarrow> bytes \<Rightarrow> (shim_error + unit) io" where
  "set_event stub name payload =
     (if name = [] then Ret (Inl (ErrInvalidArgument (lit ''event name must not be empty'')))
      else SetEvent \<lparr>ev_chaincode_id = [], ev_tx_id = sb_tx_id stub, ev_event_name = name, ev_payload = payload\<rparr>
             (Ret (Inr ())))"

text \<open>How the reply's nested message becomes the callee's response.\<close>

definition nested_response :: "prost \<Rightarrow> bytes \<Rightarrow> shim_error + response" where
  "nested_response P b =
     res_bind (decode_or (c_chaincode_message P) b) (\<lambda>inner.
       if cm_kind inner = MT_Completed then res_map from_proto (decode_or (c_response P) (cm_payload inner))
       else if cm_kind inner = MT_Error then Inl (ErrPeer (from_utf8_lossy (cm_payload inner)))
       else Inl (ErrProtocol (lit ''unexpected nested message type '' @ msg_type_debug (cm_kind inner)
              @ lit '' from invoked chaincode'')))"

definition invoke_payload :: "prost \<Rightarrow> str \<Rightarrow> bytes list \<Rightarrow> str \<Rightarrow> bytes" where
  "invoke_payload P chaincode_name args channel =
     (let name = (if channel = [] then chaincode_name else chaincode_name @ lit ''/'' @ channel) in
      encode (c_chaincode_spec P)
        \<lparr>cs_type = 0, cs_chaincode_id = Some (default_chaincode_id\<lparr>cid_name := name\<rparr>),
         cs_input = Some \<lparr>ci_args = args, ci_decorations = fmempty, ci_is_init = False\<rparr>,
         cs_timeout = 0\<rparr>)"

definition invoke_chaincode :: "prost \<Rightarrow> str \<Rightarrow> bytes list \<Rightarrow> str \<Rightarrow> (shim_error + response) io" where
  "invoke_chaincode P chaincode_name args channel =
     io_try (core_request MT_InvokeChaincode (invoke_payload P chaincode_name args channel))
       (\<lambda>reply. Ret (nested_response P (cm_payload reply)))"

subsection \<open>Building the stub\<close>

lemma stub_new_ids:
  "stub_new P ch tx input sp = Inr stub \<Longrightarrow>
     sb_channel_id stub = ch \<and> sb_tx_id stub = tx \<and> sb_args stub = ci_args input
   \<and> sb_decorations stub = ci_decorations input \<and> sb_signed_proposal stub = sp"
  by (auto simp: stub_new_def res_bind_Inr_iff split: option.splits)

lemma stub_new_none [simp]: "is_ok (stub_new P ch tx input None)"
  by (simp add: stub_new_def)

text \<open>The only error of \<open>new\<close> is a decoding error of the proposal chain.\<close>

lemma read_proposal_error: "read_proposal P sp = Inl e \<Longrightarrow> \<exists>d. e = ErrDecode d"
  by (auto simp: read_proposal_def res_bind_Inl_iff decode_or_Inl_iff)

lemma stub_new_error: "stub_new P ch tx input sp = Inl e \<Longrightarrow> \<exists>d. e = ErrDecode d"
  by (cases sp) (auto simp: stub_new_def res_bind_Inl_iff dest: read_proposal_error)

text \<open>On a well-formed proposal the stub holds what the proposal's headers and payload say.\<close>

lemma read_proposal_encoded:
  assumes "prost_ok P"
    and "sp_proposal_bytes sp = encode (c_proposal P) prp"
    and "prop_header prp = encode (c_header P) hdr"
    and "hd_channel_header hdr = encode (c_channel_header P) chdr"
    and "hd_signature_header hdr = encode (c_signature_header P) shdr"
    and "prop_payload prp = encode (c_chaincode_proposal_payload P) cpp"
  shows "read_proposal P sp = Inr (sh_creator shdr, cpp_transient_map cpp, ch_timestamp chdr)"
  using assms by (simp add: read_proposal_def decode_or_simps(1))

subsection \<open>Runs of the ledger methods\<close>

text \<open>Each method sends at most one request; its result is read from the reply.\<close>

lemma run_get_data [simp, run_simps]:
  "run_io env p ev (get_data P t key coll) =
     (case env p t (encode (c_get_state P) \<lparr>gs_key = key, gs_collection = coll\<rparr>) of
      None \<Rightarrow> None
    | Some (r, p') \<Rightarrow> Some (Inr (res_map cm_payload r), p', ev))"
  by (auto simp: get_data_def Let_def split: sum.split prod.split option.split)

lemma run_put_data [simp, run_simps]:
  "run_io env p ev (put_data P coll key val) =
     (if key = [] then Some (Inr (Inl (ErrInvalidArgument (lit ''key must not be empty''))), p, ev)
      else (case env p MT_PutState
             (encode (c_put_state P) \<lparr>ps_key = key, ps_value = val, ps_collection = coll\<rparr>) of
        None \<Rightarrow> None
      | Some (r, p') \<Rightarrow> Some (Inr (res_map (\<lambda>_. ()) r), p', ev)))"
  by (auto simp: put_data_def Let_def split: sum.split prod.split option.split)

lemma run_del_data [simp, run_simps]:
  "run_io env p ev (del_data P coll key) =
     (case env p MT_DelState (encode (c_del_state P) \<lparr>ds_key = key, ds_collection = coll\<rparr>) of
      None \<Rightarrow> None
    | Some (r, p') \<Rightarrow> Some (Inr (res_map (\<lambda>_. ()) r), p', ev))"
  by (auto simp: del_data_def Let_def split: sum.split prod.split option.split)

lemma run_range_query:
  "run_io env p ev (range_query P coll s e md) =
     (case env p MT_GetStateByRange (encode (c_get_state_by_range P)
            \<lparr>gsr_start_key = s, gsr_end_key = e, gsr_collection = coll,
             gsr_metadata = (case md of None \<Rightarrow> [] | Some m \<Rightarrow> encode (c_query_metadata P) m)\<rparr>) of
      None \<Rightarrow> None
    | Some (r, p') \<Rightarrow> Some (Inr (res_bind r (\<lambda>reply.
           res_bind (decode_or (c_query_response P) (cm_payload reply)) (\<lambda>resp.
           res_bind (if qr_metadata resp = [] then Inr None
             else res_map Some (decode_or (c_query_response_metadata P) (qr_metadata resp))) (\<lambda>m.
           Inr (query_iter_new resp, m))))), p', ev))"
  by (auto simp: range_query_def Let_def io_ok_def split: sum.split prod.split option.split)

lemma require_collection_ok [simp]:
  "require_collection c = Inr u \<longleftrightarrow> c \<noteq> []"
  "c \<noteq> [] \<Longrightarrow> require_collection c = Inr ()"
  "require_collection [] = Inl (ErrInvalidArgument (lit ''collection must not be empty''))"
  by (simp_all add: require_collection_def)

text \<open>Every private data method refuses the empty collection without sending anything.\<close>

lemma private_data_needs_collection:
  "get_private_data P [] key = Ret (Inl (ErrInvalidArgument (lit ''collection must not be empty'')))"
  "get_private_data_hash P [] key = Ret (Inl (ErrInvalidArgument (lit ''collection must not be empty'')))"
  "put_private_data P [] key val = Ret (Inl (ErrInvalidArgument (lit ''collection must not be empty'')))"
  "del_private_data P [] key = Ret (Inl (ErrInvalidArgument (lit ''collection must not be empty'')))"
  "purge_private_data P [] key = Ret (Inl (ErrInvalidArgument (lit ''collection must not be empty'')))"
  "get_private_data_by_range P [] s e = Ret (Inl (ErrInvalidArgument (lit ''collection must not be empty'')))"
  by (simp_all add: get_private_data_def get_private_data_hash_def put_private_data_def
      del_private_data_def purge_private_data_def get_private_data_by_range_def)

lemma run_set_event [simp, run_simps]:
  "run_io env p ev (set_event stub name payload) =
     (if name = [] then Some (Inr (Inl (ErrInvalidArgument (lit ''event name must not be empty''))), p, ev)
      else Some (Inr (Inr ()), p, Some \<lparr>ev_chaincode_id = [], ev_tx_id = sb_tx_id stub,
             ev_event_name = name, ev_payload = payload\<rparr>))"
  by (simp add: set_event_def)

lemma run_invoke_chaincode:
  "run_io env p ev (invoke_chaincode P name args channel) =
     (case env p MT_InvokeChaincode (invoke_payload P name args channel) of
      None \<Rightarrow> None
    | Some (r, p') \<Rightarrow> Some (Inr (res_bind r (\<lambda>reply. nested_response P (cm_payload reply))), p', ev))"
  by (auto simp: invoke_chaincode_def split: sum.split prod.split option.split)

subsection \<open>Properties\<close>

text \<open>C36. On a well-formed signed proposal the stub carries what the client signed: the creator of the
  signature header, the transient map of the payload and the timestamp of the channel header,
  and the creator decodes to the client's identity; the channel, transaction id and
  arguments are those of the message.\<close>

theorem stub_reads_signed_proposal:
  assumes "prost_ok P"
    and "sp_proposal_bytes sp = encode (c_proposal P) prp"
    and "prop_header prp = encode (c_header P) hdr"
    and "hd_channel_header hdr = encode (c_channel_header P) chdr"
    and "hd_signature_header hdr = encode (c_signature_header P) shdr"
    and "prop_payload prp = encode (c_chaincode_proposal_payload P) cpp"
    and "sh_creator shdr = encode (c_serialized_identity P) identity"
  shows "\<exists>stub. stub_new P ch tx input (Some sp) = Inr stub
    \<and> get_creator_identity P stub = Inr identity \<and> get_transient stub = cpp_transient_map cpp
    \<and> get_tx_timestamp stub = ok_or_else (ErrProtocol (lit ''transaction has no timestamp (no proposal)'')) (ch_timestamp chdr)
    \<and> get_channel_id stub = ch \<and> get_tx_id stub = tx \<and> get_args stub = ci_args input
    \<and> get_decorations stub = ci_decorations input \<and> get_signed_proposal stub = Some sp"
  using read_proposal_encoded [OF assms(1-6)] assms(1,7)
  by (simp add: stub_new_def get_creator_identity_def get_transient_def get_tx_timestamp_def get_channel_id_def
      get_tx_id_def get_args_def get_decorations_def get_signed_proposal_def decode_or_simps(1))

text \<open>A proposal as a client builds it (\<open>make_signed_proposal\<close> of \<open>fabric-shim/tests/mock_peer.rs\<close>).\<close>

definition make_signed_proposal :: "prost \<Rightarrow> str \<Rightarrow> bytes \<Rightarrow> (str, bytes) fmap \<Rightarrow> i64 \<Rightarrow> signed_proposal" where
  "make_signed_proposal P mspid cert transient seconds =
     (let creator = encode (c_serialized_identity P) \<lparr>si_mspid = mspid, si_id_bytes = cert\<rparr>;
          header = \<lparr>hd_channel_header = encode (c_channel_header P)
              \<lparr>ch_type = 0, ch_version = 0, ch_timestamp = Some \<lparr>ts_seconds = seconds, ts_nanos = 0\<rparr>,
               ch_channel_id = [], ch_tx_id = [], ch_epoch = 0, ch_extension = [], ch_tls_cert_hash = []\<rparr>,
            hd_signature_header = encode (c_signature_header P) \<lparr>sh_creator = creator, sh_nonce = []\<rparr>\<rparr>;
          payload = \<lparr>cpp_input = [], cpp_transient_map = transient\<rparr>;
          proposal = \<lparr>prop_header = encode (c_header P) header,
            prop_payload = encode (c_chaincode_proposal_payload P) payload, prop_extension = []\<rparr> in
      \<lparr>sp_proposal_bytes = encode (c_proposal P) proposal, sp_signature = []\<rparr>)"

theorem stub_reads_signed_proposal_witness:
  "\<exists>stub. stub_new wire_prost [] [] \<lparr>ci_args = [[7]], ci_decorations = fmempty, ci_is_init = False\<rparr>
        (Some (make_signed_proposal wire_prost (lit ''Org1MSP'') [1, 2] (fmupd (lit ''secret'') [9] fmempty) 5)) = Inr stub
    \<and> get_creator_identity wire_prost stub = Inr \<lparr>si_mspid = lit ''Org1MSP'', si_id_bytes = [1, 2]\<rparr>
    \<and> get_transient stub = fmupd (lit ''secret'') [9] fmempty
    \<and> get_tx_timestamp stub = Inr \<lparr>ts_seconds = 5, ts_nanos = 0\<rparr>"
proof -
  let ?P = wire_prost
  let ?id = "\<lparr>si_mspid = lit ''Org1MSP'', si_id_bytes = [1, 2]\<rparr>"
  let ?chdr = "\<lparr>ch_type = 0, ch_version = 0, ch_timestamp = Some \<lparr>ts_seconds = 5, ts_nanos = 0\<rparr>,
     ch_channel_id = [], ch_tx_id = [], ch_epoch = 0, ch_extension = [], ch_tls_cert_hash = []\<rparr>"
  let ?shdr = "\<lparr>sh_creator = encode (c_serialized_identity ?P) ?id, sh_nonce = []\<rparr>"
  let ?cpp = "\<lparr>cpp_input = [], cpp_transient_map = fmupd (lit ''secret'') [9] fmempty\<rparr>"
  let ?hdr = "\<lparr>hd_channel_header = encode (c_channel_header ?P) ?chdr,
     hd_signature_header = encode (c_signature_header ?P) ?shdr\<rparr>"
  let ?prp = "\<lparr>prop_header = encode (c_header ?P) ?hdr,
     prop_payload = encode (c_chaincode_proposal_payload ?P) ?cpp, prop_extension = []\<rparr>"
  have "make_signed_proposal ?P (lit ''Org1MSP'') [1, 2] (fmupd (lit ''secret'') [9] fmempty) 5
      = \<lparr>sp_proposal_bytes = encode (c_proposal ?P) ?prp, sp_signature = []\<rparr>"
    by (simp add: make_signed_proposal_def)
  with stub_reads_signed_proposal [of ?P "\<lparr>sp_proposal_bytes = encode (c_proposal ?P) ?prp, sp_signature = []\<rparr>"
      ?prp ?hdr ?chdr ?shdr ?cpp ?id "[]" "[]" "\<lparr>ci_args = [[7]], ci_decorations = fmempty, ci_is_init = False\<rparr>"]
  show ?thesis by auto
qed

text \<open>Arguments are text: the function name and the parameters that a client passed as strings
  come back unchanged, and a call without arguments has the empty function name.\<close>

lemma function_and_args_of_strings:
  "get_function_and_args (stub\<lparr>sb_args := map str_bytes ss\<rparr>) = (case ss of [] \<Rightarrow> ([], []) | f # as \<Rightarrow> (f, as))"
  by (cases ss) (simp_all add: get_function_and_args_def get_string_args_def o_def)

text \<open>Invalid arguments are refused before anything is sent to the peer: the empty collection by every
  private data method, the empty key by the writing methods, the empty event name, and an
  invalid component of a partial composite key.\<close>

lemma invalid_arguments_send_nothing:
  assumes "\<not> list_all valid_component (ot # as)"
  shows "\<exists>e1 e2 e3 e4.
      get_private_data P [] key = Ret (Inl (ErrInvalidArgument e1))
    \<and> get_private_data_hash P [] key = Ret (Inl (ErrInvalidArgument e1))
    \<and> put_private_data P [] key val = Ret (Inl (ErrInvalidArgument e1))
    \<and> del_private_data P [] key = Ret (Inl (ErrInvalidArgument e1))
    \<and> purge_private_data P [] key = Ret (Inl (ErrInvalidArgument e1))
    \<and> get_private_data_by_range P [] s e = Ret (Inl (ErrInvalidArgument e1))
    \<and> sb_put_state P [] val = Ret (Inl (ErrInvalidArgument e2))
    \<and> set_event stub [] val = Ret (Inl (ErrInvalidArgument e3))
    \<and> get_state_by_partial_composite_key P esc ot as = Ret (Inl (ErrInvalidArgument e4))"
proof -
  obtain e4 where "create_composite_key esc ot as = Inl (ErrInvalidArgument e4)"
    using create_err [of ot "as" esc] assms by (auto simp: list_all_iff)
  then show ?thesis
    by (simp add: private_data_needs_collection sb_put_state_def put_data_def set_event_def
        get_state_by_partial_composite_key_def)
qed

lemma invalid_arguments_send_nothing_example:
  "\<exists>e. get_state_by_partial_composite_key wire_prost (\<lambda>_. False) [] [] = Ret (Inl (ErrInvalidArgument e))"
proof -
  have "\<not> list_all valid_component [[]]" by (simp add: valid_component_def)
  from invalid_arguments_send_nothing [OF this, of wire_prost "[]" "[]" "[]" "[]" undefined "\<lambda>_. False"] show ?thesis by blast
qed

text \<open>C37. Calling another chaincode sends one request that names it (with its channel, if one is given)
  and returns what the callee's transaction ended with: its response when the nested message is
  COMPLETED, whatever its status, its text as a peer error when it is ERROR, and a protocol
  error otherwise.\<close>

theorem invoke_chaincode_returns_callee_response:
  assumes "prost_ok P"
    and "env p MT_InvokeChaincode (invoke_payload P name args channel) = Some (Inr reply, p')"
    and "cm_payload reply = encode (c_chaincode_message P) inner"
  shows "(\<forall>resp. cm_kind inner = MT_Completed \<and> cm_payload inner = encode (c_response P) (into_proto resp) \<longrightarrow>
        run_io env p ev (invoke_chaincode P name args channel) = Some (Inr (Inr resp), p', ev))
    \<and> (cm_kind inner = MT_Error \<longrightarrow> run_io env p ev (invoke_chaincode P name args channel)
        = Some (Inr (Inl (ErrPeer (from_utf8_lossy (cm_payload inner)))), p', ev))
    \<and> (cm_kind inner \<notin> {MT_Completed, MT_Error} \<longrightarrow> (\<exists>text. run_io env p ev (invoke_chaincode P name args channel)
        = Some (Inr (Inl (ErrProtocol text)), p', ev)))"
  using assms by (auto simp: run_invoke_chaincode nested_response_def decode_or_simps(1))

theorem invoke_chaincode_returns_callee_response_witness:
  "run_io (constant_env (plain_message MT_Response (encode (c_chaincode_message wire_prost)
       (plain_message MT_Completed (encode (c_response wire_prost) (into_proto (response_error (lit ''no''))))))))
     () None (invoke_chaincode wire_prost (lit ''cc'') [] (lit ''ch''))
   = Some (Inr (Inr (response_error (lit ''no''))), (), None)"
proof -
  let ?inner = "plain_message MT_Completed (encode (c_response wire_prost) (into_proto (response_error (lit ''no''))))"
  let ?reply = "plain_message MT_Response (encode (c_chaincode_message wire_prost) ?inner)"
  have reply: "cm_payload ?reply = encode (c_chaincode_message wire_prost) ?inner" by simp
  have "constant_env ?reply () MT_InvokeChaincode (invoke_payload wire_prost (lit ''cc'') [] (lit ''ch''))
      = Some (Inr ?reply, ())" by (simp add: constant_env_def)
  from invoke_chaincode_returns_callee_response 
      [where env = "constant_env ?reply" and p = "()", OF wire_prost_ok this reply] show ?thesis by simp
qed

end
