(* ===== verification/Enumerations.thy ===== *)
theory Enumerations imports Stub
begin

section \<open>The generated enumerations\<close>

text \<open>
  The enumerations of \<open>fabric-shim-protos/src/generated\<close> other than the message type. prost-build writes each as a Rust
  enumeration with explicit numbers and two tables, from variants to names (\<open>as_str_name\<close>) and from names to variants
  (\<open>from_str_name\<close>). The locale \<open>enumeration\<close> says that the tables fit together; it is interpreted for
  every enumeration, so each has the derived laws under its name.
\<close>

subsection \<open>What the tables promise\<close>

text \<open>\<open>try_from\<close> of the derived \<open>Enumeration\<close>, and the getter of a field that stores the number.\<close>

definition variant_of :: "('a \<Rightarrow> i32) \<Rightarrow> 'a list \<Rightarrow> i32 \<Rightarrow> 'a option" where
  "variant_of number variants n = List.find (\<lambda>t. number t = n) variants"

definition enum_getter :: "('a \<Rightarrow> i32) \<Rightarrow> 'a list \<Rightarrow> i32 \<Rightarrow> 'a" where
  "enum_getter number variants n = (case variant_of number variants n of None \<Rightarrow> hd variants | Some t \<Rightarrow> t)"

locale enumeration =
  fixes variants :: "'a list" and number :: "'a \<Rightarrow> i32" and str_name :: "'a \<Rightarrow> str" and from_name :: "str \<Rightarrow> 'a option"
  assumes complete: "t \<in> set variants"
    and numbers: "distinct (map number variants)"
    and default_zero: "number (hd variants) = 0"
    and from_str_name: "list_all (\<lambda>t. from_name (str_name t) = Some t) variants"
    and only_names: "from_name s = Some t \<Longrightarrow> str_name t = s"
begin

lemma inj_number: "inj number"
  using numbers complete by (auto simp: distinct_map inj_on_def)

lemma name_read: "from_name (str_name t) = Some t"
  using from_str_name complete [of t] by (simp add: list_all_iff)

lemma from_name_iff: "from_name s = Some t \<longleftrightarrow> s = str_name t"
  using name_read only_names by metis

lemma inj_name: "inj str_name"
  by (rule injI) (metis name_read option.inject)

lemma unknown_name: "from_name s = None \<longleftrightarrow> s \<notin> range str_name"
  using from_name_iff by (metis not_None_eq rangeE rangeI)

lemma variant_of_number [simp]: "variant_of number variants (number t) = Some t"
  using find_inj [OF inj_on_subset [OF inj_number subset_UNIV] complete] by (simp add: variant_of_def)

lemma variant_of_iff: "variant_of number variants n = Some t \<longleftrightarrow> n = number t"
proof
  assume "variant_of number variants n = Some t"
  then show "n = number t" by (auto simp: variant_of_def find_Some_iff)
qed simp

lemma getter_number: "enum_getter number variants (number t) = t"
  by (simp add: enum_getter_def)

lemma getter_unknown: "n \<notin> range number \<Longrightarrow> number (enum_getter number variants n) = 0"
  using variant_of_iff [of n] default_zero by (auto simp: enum_getter_def split: option.splits)

end

subsection \<open>chaincode_spec::Type\<close>

datatype spec_type = ST_Undefined | ST_Golang | ST_Node | ST_Car | ST_Java

fun spec_type_i32 :: "spec_type \<Rightarrow> i32" where
  "spec_type_i32 ST_Undefined = 0"
| "spec_type_i32 ST_Golang = 1"
| "spec_type_i32 ST_Node = 2"
| "spec_type_i32 ST_Car = 3"
| "spec_type_i32 ST_Java = 4"

definition spec_types :: "spec_type list" where
  "spec_types = [ST_Undefined, ST_Golang, ST_Node, ST_Car, ST_Java]"

fun spec_type_name :: "spec_type \<Rightarrow> str" where
  "spec_type_name ST_Undefined = lit ''UNDEFINED''"
| "spec_type_name ST_Golang = lit ''GOLANG''"
| "spec_type_name ST_Node = lit ''NODE''"
| "spec_type_name ST_Car = lit ''CAR''"
| "spec_type_name ST_Java = lit ''JAVA''"

definition spec_type_from_name :: "str \<Rightarrow> spec_type option" where
  "spec_type_from_name s = map_of
    [(lit ''UNDEFINED'', ST_Undefined), (lit ''GOLANG'', ST_Golang), (lit ''NODE'', ST_Node),
     (lit ''CAR'', ST_Car), (lit ''JAVA'', ST_Java)] s"

interpretation spec_type: enumeration spec_types spec_type_i32 spec_type_name spec_type_from_name
  by unfold_locales (auto simp: spec_types_def spec_type_from_name_def split: if_splits intro: spec_type.exhaust)


subsection \<open>write_record::Type\<close>

datatype write_type = WT_Undefined | WT_PutState | WT_DelState | WT_PutStateMetadata | WT_PurgePrivateData

fun write_type_i32 :: "write_type \<Rightarrow> i32" where
  "write_type_i32 WT_Undefined = 0"
| "write_type_i32 WT_PutState = 9"
| "write_type_i32 WT_DelState = 10"
| "write_type_i32 WT_PutStateMetadata = 21"
| "write_type_i32 WT_PurgePrivateData = 23"

definition write_types :: "write_type list" where
  "write_types = [WT_Undefined, WT_PutState, WT_DelState, WT_PutStateMetadata, WT_PurgePrivateData]"

fun write_type_name :: "write_type \<Rightarrow> str" where
  "write_type_name WT_Undefined = lit ''UNDEFINED''"
| "write_type_name WT_PutState = lit ''PUT_STATE''"
| "write_type_name WT_DelState = lit ''DEL_STATE''"
| "write_type_name WT_PutStateMetadata = lit ''PUT_STATE_METADATA''"
| "write_type_name WT_PurgePrivateData = lit ''PURGE_PRIVATE_DATA''"

definition write_type_from_name :: "str \<Rightarrow> write_type option" where
  "write_type_from_name s = map_of
    [(lit ''UNDEFINED'', WT_Undefined), (lit ''PUT_STATE'', WT_PutState), (lit ''DEL_STATE'', WT_DelState),
     (lit ''PUT_STATE_METADATA'', WT_PutStateMetadata), (lit ''PURGE_PRIVATE_DATA'', WT_PurgePrivateData)] s"

interpretation write_type: enumeration write_types write_type_i32 write_type_name write_type_from_name
  by unfold_locales (auto simp: write_types_def write_type_from_name_def split: if_splits intro: write_type.exhaust)


subsection \<open>msp_principal::Classification\<close>

datatype classification = CL_Role | CL_OrganizationUnit | CL_Identity | CL_Anonymity | CL_Combined

fun classification_i32 :: "classification \<Rightarrow> i32" where
  "classification_i32 CL_Role = 0"
| "classification_i32 CL_OrganizationUnit = 1"
| "classification_i32 CL_Identity = 2"
| "classification_i32 CL_Anonymity = 3"
| "classification_i32 CL_Combined = 4"

definition classifications :: "classification list" where
  "classifications = [CL_Role, CL_OrganizationUnit, CL_Identity, CL_Anonymity, CL_Combined]"

fun classification_name :: "classification \<Rightarrow> str" where
  "classification_name CL_Role = lit ''ROLE''"
| "classification_name CL_OrganizationUnit = lit ''ORGANIZATION_UNIT''"
| "classification_name CL_Identity = lit ''IDENTITY''"
| "classification_name CL_Anonymity = lit ''ANONYMITY''"
| "classification_name CL_Combined = lit ''COMBINED''"

definition classification_from_name :: "str \<Rightarrow> classification option" where
  "classification_from_name s = map_of
    [(lit ''ROLE'', CL_Role), (lit ''ORGANIZATION_UNIT'', CL_OrganizationUnit),
     (lit ''IDENTITY'', CL_Identity), (lit ''ANONYMITY'', CL_Anonymity), (lit ''COMBINED'', CL_Combined)] s"

interpretation classification: enumeration classifications classification_i32 classification_name classification_from_name
  by unfold_locales (auto simp: classifications_def classification_from_name_def split: if_splits intro: classification.exhaust)


subsection \<open>msp_role::MspRoleType\<close>

datatype msp_role_type = RO_Member | RO_Admin | RO_Client | RO_Peer | RO_Orderer

fun msp_role_type_i32 :: "msp_role_type \<Rightarrow> i32" where
  "msp_role_type_i32 RO_Member = 0"
| "msp_role_type_i32 RO_Admin = 1"
| "msp_role_type_i32 RO_Client = 2"
| "msp_role_type_i32 RO_Peer = 3"
| "msp_role_type_i32 RO_Orderer = 4"

definition msp_role_types :: "msp_role_type list" where
  "msp_role_types = [RO_Member, RO_Admin, RO_Client, RO_Peer, RO_Orderer]"

fun msp_role_type_name :: "msp_role_type \<Rightarrow> str" where
  "msp_role_type_name RO_Member = lit ''MEMBER''"
| "msp_role_type_name RO_Admin = lit ''ADMIN''"
| "msp_role_type_name RO_Client = lit ''CLIENT''"
| "msp_role_type_name RO_Peer = lit ''PEER''"
| "msp_role_type_name RO_Orderer = lit ''ORDERER''"

definition msp_role_type_from_name :: "str \<Rightarrow> msp_role_type option" where
  "msp_role_type_from_name s = map_of
    [(lit ''MEMBER'', RO_Member), (lit ''ADMIN'', RO_Admin), (lit ''CLIENT'', RO_Client),
     (lit ''PEER'', RO_Peer), (lit ''ORDERER'', RO_Orderer)] s"

interpretation msp_role_type: enumeration msp_role_types msp_role_type_i32 msp_role_type_name msp_role_type_from_name
  by unfold_locales (auto simp: msp_role_types_def msp_role_type_from_name_def split: if_splits intro: msp_role_type.exhaust)


subsection \<open>msp_identity_anonymity::MspIdentityAnonymityType\<close>

datatype anonymity_type = AN_Nominal | AN_Anonymous

fun anonymity_type_i32 :: "anonymity_type \<Rightarrow> i32" where
  "anonymity_type_i32 AN_Nominal = 0"
| "anonymity_type_i32 AN_Anonymous = 1"

definition anonymity_types :: "anonymity_type list" where
  "anonymity_types = [AN_Nominal, AN_Anonymous]"

fun anonymity_type_name :: "anonymity_type \<Rightarrow> str" where
  "anonymity_type_name AN_Nominal = lit ''NOMINAL''"
| "anonymity_type_name AN_Anonymous = lit ''ANONYMOUS''"

definition anonymity_type_from_name :: "str \<Rightarrow> anonymity_type option" where
  "anonymity_type_from_name s = map_of
    [(lit ''NOMINAL'', AN_Nominal), (lit ''ANONYMOUS'', AN_Anonymous)] s"

interpretation anonymity_type: enumeration anonymity_types anonymity_type_i32 anonymity_type_name anonymity_type_from_name
  by unfold_locales (auto simp: anonymity_types_def anonymity_type_from_name_def split: if_splits intro: anonymity_type.exhaust)


subsection \<open>policy::PolicyType\<close>

datatype policy_type = PO_Unknown | PO_Signature | PO_Msp | PO_ImplicitMeta

fun policy_type_i32 :: "policy_type \<Rightarrow> i32" where
  "policy_type_i32 PO_Unknown = 0"
| "policy_type_i32 PO_Signature = 1"
| "policy_type_i32 PO_Msp = 2"
| "policy_type_i32 PO_ImplicitMeta = 3"

definition policy_types :: "policy_type list" where
  "policy_types = [PO_Unknown, PO_Signature, PO_Msp, PO_ImplicitMeta]"

fun policy_type_name :: "policy_type \<Rightarrow> str" where
  "policy_type_name PO_Unknown = lit ''UNKNOWN''"
| "policy_type_name PO_Signature = lit ''SIGNATURE''"
| "policy_type_name PO_Msp = lit ''MSP''"
| "policy_type_name PO_ImplicitMeta = lit ''IMPLICIT_META''"

definition policy_type_from_name :: "str \<Rightarrow> policy_type option" where
  "policy_type_from_name s = map_of
    [(lit ''UNKNOWN'', PO_Unknown), (lit ''SIGNATURE'', PO_Signature), (lit ''MSP'', PO_Msp),
     (lit ''IMPLICIT_META'', PO_ImplicitMeta)] s"

interpretation policy_type: enumeration policy_types policy_type_i32 policy_type_name policy_type_from_name
  by unfold_locales (auto simp: policy_types_def policy_type_from_name_def split: if_splits intro: policy_type.exhaust)


subsection \<open>implicit_meta_policy::Rule\<close>

datatype policy_rule = RU_Any | RU_All | RU_Majority

fun policy_rule_i32 :: "policy_rule \<Rightarrow> i32" where
  "policy_rule_i32 RU_Any = 0"
| "policy_rule_i32 RU_All = 1"
| "policy_rule_i32 RU_Majority = 2"

definition policy_rules :: "policy_rule list" where
  "policy_rules = [RU_Any, RU_All, RU_Majority]"

fun policy_rule_name :: "policy_rule \<Rightarrow> str" where
  "policy_rule_name RU_Any = lit ''ANY''"
| "policy_rule_name RU_All = lit ''ALL''"
| "policy_rule_name RU_Majority = lit ''MAJORITY''"

definition policy_rule_from_name :: "str \<Rightarrow> policy_rule option" where
  "policy_rule_from_name s = map_of
    [(lit ''ANY'', RU_Any), (lit ''ALL'', RU_All), (lit ''MAJORITY'', RU_Majority)] s"

interpretation policy_rule: enumeration policy_rules policy_rule_i32 policy_rule_name policy_rule_from_name
  by unfold_locales (auto simp: policy_rules_def policy_rule_from_name_def split: if_splits intro: policy_rule.exhaust)


subsection \<open>Status\<close>

datatype status_code = SC_Unknown | SC_Success | SC_BadRequest | SC_Forbidden | SC_NotFound | SC_RequestEntityTooLarge | SC_InternalServerError | SC_NotImplemented | SC_ServiceUnavailable

fun status_code_i32 :: "status_code \<Rightarrow> i32" where
  "status_code_i32 SC_Unknown = 0"
| "status_code_i32 SC_Success = 200"
| "status_code_i32 SC_BadRequest = 400"
| "status_code_i32 SC_Forbidden = 403"
| "status_code_i32 SC_NotFound = 404"
| "status_code_i32 SC_RequestEntityTooLarge = 413"
| "status_code_i32 SC_InternalServerError = 500"
| "status_code_i32 SC_NotImplemented = 501"
| "status_code_i32 SC_ServiceUnavailable = 503"

definition status_codes :: "status_code list" where
  "status_codes = [SC_Unknown, SC_Success, SC_BadRequest, SC_Forbidden, SC_NotFound, SC_RequestEntityTooLarge, SC_InternalServerError, SC_NotImplemented, SC_ServiceUnavailable]"

fun status_code_name :: "status_code \<Rightarrow> str" where
  "status_code_name SC_Unknown = lit ''UNKNOWN''"
| "status_code_name SC_Success = lit ''SUCCESS''"
| "status_code_name SC_BadRequest = lit ''BAD_REQUEST''"
| "status_code_name SC_Forbidden = lit ''FORBIDDEN''"
| "status_code_name SC_NotFound = lit ''NOT_FOUND''"
| "status_code_name SC_RequestEntityTooLarge = lit ''REQUEST_ENTITY_TOO_LARGE''"
| "status_code_name SC_InternalServerError = lit ''INTERNAL_SERVER_ERROR''"
| "status_code_name SC_NotImplemented = lit ''NOT_IMPLEMENTED''"
| "status_code_name SC_ServiceUnavailable = lit ''SERVICE_UNAVAILABLE''"

definition status_code_from_name :: "str \<Rightarrow> status_code option" where
  "status_code_from_name s = map_of
    [(lit ''UNKNOWN'', SC_Unknown), (lit ''SUCCESS'', SC_Success), (lit ''BAD_REQUEST'', SC_BadRequest),
     (lit ''FORBIDDEN'', SC_Forbidden), (lit ''NOT_FOUND'', SC_NotFound),
     (lit ''REQUEST_ENTITY_TOO_LARGE'', SC_RequestEntityTooLarge),
     (lit ''INTERNAL_SERVER_ERROR'', SC_InternalServerError), (lit ''NOT_IMPLEMENTED'', SC_NotImplemented),
     (lit ''SERVICE_UNAVAILABLE'', SC_ServiceUnavailable)] s"

interpretation status_code: enumeration status_codes status_code_i32 status_code_name status_code_from_name
  by unfold_locales (auto simp: status_codes_def status_code_from_name_def split: if_splits intro: status_code.exhaust)


subsection \<open>HeaderType\<close>

datatype header_type = HT_Message | HT_Config | HT_ConfigUpdate | HT_EndorserTransaction | HT_OrdererTransaction | HT_DeliverSeekInfo | HT_ChaincodePackage

fun header_type_i32 :: "header_type \<Rightarrow> i32" where
  "header_type_i32 HT_Message = 0"
| "header_type_i32 HT_Config = 1"
| "header_type_i32 HT_ConfigUpdate = 2"
| "header_type_i32 HT_EndorserTransaction = 3"
| "header_type_i32 HT_OrdererTransaction = 4"
| "header_type_i32 HT_DeliverSeekInfo = 5"
| "header_type_i32 HT_ChaincodePackage = 6"

definition header_types :: "header_type list" where
  "header_types = [HT_Message, HT_Config, HT_ConfigUpdate, HT_EndorserTransaction, HT_OrdererTransaction, HT_DeliverSeekInfo, HT_ChaincodePackage]"

fun header_type_name :: "header_type \<Rightarrow> str" where
  "header_type_name HT_Message = lit ''MESSAGE''"
| "header_type_name HT_Config = lit ''CONFIG''"
| "header_type_name HT_ConfigUpdate = lit ''CONFIG_UPDATE''"
| "header_type_name HT_EndorserTransaction = lit ''ENDORSER_TRANSACTION''"
| "header_type_name HT_OrdererTransaction = lit ''ORDERER_TRANSACTION''"
| "header_type_name HT_DeliverSeekInfo = lit ''DELIVER_SEEK_INFO''"
| "header_type_name HT_ChaincodePackage = lit ''CHAINCODE_PACKAGE''"

definition header_type_from_name :: "str \<Rightarrow> header_type option" where
  "header_type_from_name s = map_of
    [(lit ''MESSAGE'', HT_Message), (lit ''CONFIG'', HT_Config), (lit ''CONFIG_UPDATE'', HT_ConfigUpdate),
     (lit ''ENDORSER_TRANSACTION'', HT_EndorserTransaction),
     (lit ''ORDERER_TRANSACTION'', HT_OrdererTransaction), (lit ''DELIVER_SEEK_INFO'', HT_DeliverSeekInfo),
     (lit ''CHAINCODE_PACKAGE'', HT_ChaincodePackage)] s"

interpretation header_type: enumeration header_types header_type_i32 header_type_name header_type_from_name
  by unfold_locales (auto simp: header_types_def header_type_from_name_def split: if_splits intro: header_type.exhaust)


subsection \<open>BlockMetadataIndex\<close>

datatype block_metadata_index = BI_Signatures | BI_LastConfig | BI_TransactionsFilter | BI_Orderer | BI_CommitHash

fun block_metadata_index_i32 :: "block_metadata_index \<Rightarrow> i32" where
  "block_metadata_index_i32 BI_Signatures = 0"
| "block_metadata_index_i32 BI_LastConfig = 1"
| "block_metadata_index_i32 BI_TransactionsFilter = 2"
| "block_metadata_index_i32 BI_Orderer = 3"
| "block_metadata_index_i32 BI_CommitHash = 4"

definition block_metadata_indexs :: "block_metadata_index list" where
  "block_metadata_indexs = [BI_Signatures, BI_LastConfig, BI_TransactionsFilter, BI_Orderer, BI_CommitHash]"

fun block_metadata_index_name :: "block_metadata_index \<Rightarrow> str" where
  "block_metadata_index_name BI_Signatures = lit ''SIGNATURES''"
| "block_metadata_index_name BI_LastConfig = lit ''LAST_CONFIG''"
| "block_metadata_index_name BI_TransactionsFilter = lit ''TRANSACTIONS_FILTER''"
| "block_metadata_index_name BI_Orderer = lit ''ORDERER''"
| "block_metadata_index_name BI_CommitHash = lit ''COMMIT_HASH''"

definition block_metadata_index_from_name :: "str \<Rightarrow> block_metadata_index option" where
  "block_metadata_index_from_name s = map_of
    [(lit ''SIGNATURES'', BI_Signatures), (lit ''LAST_CONFIG'', BI_LastConfig),
     (lit ''TRANSACTIONS_FILTER'', BI_TransactionsFilter), (lit ''ORDERER'', BI_Orderer),
     (lit ''COMMIT_HASH'', BI_CommitHash)] s"

interpretation block_metadata_index: enumeration block_metadata_indexs block_metadata_index_i32 block_metadata_index_name block_metadata_index_from_name
  by unfold_locales (auto simp: block_metadata_indexs_def block_metadata_index_from_name_def split: if_splits intro: block_metadata_index.exhaust)


subsection \<open>ChaincodeMessage::Type\<close>

interpretation message_type: enumeration msg_types msg_type_i32 as_str_name from_str_name
proof
  show "as_str_name t = s" if "from_str_name s = Some t" for s t
    using that by (auto simp: from_str_name_def find_Some_iff)
qed (simp_all add: msg_types_complete list_all_iff, simp_all add: msg_types_def)

lemma msg_type_getter: "msg_type_of n = enum_getter msg_type_i32 msg_types n"
  by (simp add: msg_type_of_def enum_getter_def variant_of_def msg_types_def)

subsection \<open>Where the numbers meet\<close>

text \<open>The records of a write batch use the numbers and names of the messages they stand for.\<close>

lemma write_types_are_message_types: "as_str_name (msg_type_of (write_type_i32 t)) = write_type_name t"
  by (cases t) (simp_all add: msg_type_of_def msg_types_def)

text \<open>The status codes of the shim's responses are statuses of the protocol; a response is an error from the first
  error status on.\<close>

lemma response_statuses:
  "variant_of status_code_i32 status_codes (rs_status (success b)) = Some SC_Success"
  "variant_of status_code_i32 status_codes (rs_status (response_error e)) = Some SC_InternalServerError"
  "is_error r \<longleftrightarrow> status_code_i32 SC_BadRequest \<le>s rs_status r"
  by (simp_all add: variant_of_def status_codes_def success_def response_error_def OK_STATUS_def ERROR_STATUS_def
      is_error_def ERROR_THRESHOLD_def word_sle_eq)

end
