(* ===== verification/Fabric_Messages.thy ===== *)
theory Fabric_Messages imports Wire
begin

section \<open>The other generated messages\<close>

text \<open>
  The message structs of \<open>fabric-shim-protos/src/generated\<close> that the shim itself neither builds nor reads: deployment and
  endorsement, write batches and multiple reads, principals, policies, envelopes and blocks. One record each, with the fields in the
  struct's order, and for each an encoding in the wire format of theory \<open>Wire\<close> with the field numbers of its
  \<open>prost\<close> attributes, which interprets \<open>lossless\<close>. An enumeration field stores the number. A \<open>SignaturePolicy\<close> is recursive: it has a datatype and a decoder by recursion on
  the bytes (prost refuses messages nested more than 100 deep, which is not part of the wire format).
\<close>

subsection \<open>More kinds of fields\<close>

type_synonym u32 = "32 word"
type_synonym u64 = "64 word"

definition f_u32 :: "nat \<Rightarrow> u32 \<Rightarrow> fields" where
  "f_u32 n w = f_int n (unat w)"

definition get_u32 :: "wval list \<Rightarrow> str + u32" where
  "get_u32 vs = res_map word_of_nat (get_int vs)"

lemma get_u32_f_u32 [simp]: "get_u32 (vals n (f_u32 n w)) = Inr w"
  by (simp add: f_u32_def get_u32_def)

lemma vals_f_u32_other [simp]: "m \<noteq> n \<Longrightarrow> vals n (f_u32 m w) = []"
  by (simp add: f_u32_def f_int_def)

definition utf8_field :: "bytes \<Rightarrow> str + str" where
  "utf8_field b = res_map_err (\<lambda>_. wire_error) (from_utf8 b)"

lemma get_rep_str [simp]: "get_rep utf8_field (vals n (f_rep n str_bytes ss)) = Inr ss"
  using get_rep_f_rep [of ss utf8_field str_bytes "\<lambda>s. s" n] by (simp add: utf8_field_def)

subsection \<open>Signature policies\<close>

datatype signature_policy = SignaturePolicy "signature_policy_type option"
  and signature_policy_type = SignedBy i32 | NOutOf n_out_of
  and n_out_of = N_Out_Of i32 "signature_policy list"

fun policy_fields :: "signature_policy \<Rightarrow> fields" where
  "policy_fields (SignaturePolicy None) = []"
| "policy_fields (SignaturePolicy (Some (SignedBy k))) = [(1, WVarint (unat (scast k :: 64 word)))]"
| "policy_fields (SignaturePolicy (Some (NOutOf (N_Out_Of n rules)))) =
     [(2, WBytes (enc_fields (f_i32 1 n @ map (\<lambda>r. (2, WBytes (enc_fields (policy_fields r)))) rules)))]"

lemma res_collect_cong [fundef_cong]:
  "xs = ys \<Longrightarrow> (\<And>x. x \<in> set ys \<Longrightarrow> f x = g x) \<Longrightarrow> res_collect f xs = res_collect g ys"
  by (induction xs arbitrary: ys) auto

lemma dec_fields_smaller: "dec_fields bs = Some fs \<Longrightarrow> (n, WBytes b) \<in> set fs \<Longrightarrow> length b < length bs"
proof (induction bs arbitrary: fs rule: dec_fields.induct)
  case (1 bs)
  show ?case
  proof (cases "bs = []")
    case False
    with "1.prems" obtain tag r v r' where g: "get_varint bs = Some (tag, r)" "get_varint r = Some (v, r')"
      by (subst (asm) dec_fields.simps) (auto split: option.splits)
    note len = get_varint_length [OF g(1)] get_varint_length [OF g(2)]
    show ?thesis
    proof (cases "tag mod 8 = 0")
      case True
      with "1.prems"(1) False g obtain fs' where fs': "dec_fields r' = Some fs'" "fs = (tag div 8, WVarint v) # fs'"
        by (subst (asm) dec_fields.simps) auto
      with "1.prems"(2) have "(n, WBytes b) \<in> set fs'" by simp
      from "1.IH"(1) [OF False g(1) refl g(2) refl True fs'(1) this] len show ?thesis by simp
    next
      case no_varint: False
      with "1.prems"(1) False g obtain fs' where bytes: "tag mod 8 = 2 \<and> v \<le> length r'"
        and fs': "dec_fields (drop v r') = Some fs'" "fs = (tag div 8, WBytes (take v r')) # fs'"
        by (subst (asm) dec_fields.simps) (auto split: if_splits)
      from "1.prems"(2) fs'(2) consider "b = take v r'" | "(n, WBytes b) \<in> set fs'" by auto
      then show ?thesis
      proof cases
        case 1
        with len show ?thesis by simp
      next
        case 2
        from "1.IH"(2) [OF False g(1) refl g(2) refl no_varint bytes fs'(1) 2] len show ?thesis by simp
      qed
    qed
  qed (use "1.prems" in simp)
qed

definition signed_by :: "wval \<Rightarrow> str + signature_policy_type" where
  "signed_by v = (case v of WVarint k \<Rightarrow> Inr (SignedBy (ucast (word_of_nat k :: 64 word))) | WBytes _ \<Rightarrow> Inl wire_error)"

function policy_of :: "bytes \<Rightarrow> str + signature_policy" where
  "policy_of b = (case dec_fields b of
     None \<Rightarrow> Inl wire_error
   | Some fs \<Rightarrow> (case rev (filter (\<lambda>f. fst f = 1 \<or> fst f = 2) fs) of
       [] \<Rightarrow> Inr (SignaturePolicy None)
     | (k, v) # _ \<Rightarrow> res_map (\<lambda>t. SignaturePolicy (Some t))
         (if k = 1 then signed_by v
          else (case v of
              WVarint _ \<Rightarrow> Inl wire_error
            | WBytes c \<Rightarrow> (case dec_fields c of
                None \<Rightarrow> Inl wire_error
              | Some gs \<Rightarrow>
                  res_bind (get_i32 (vals 1 gs)) (\<lambda>n.
                  res_bind (res_collect (\<lambda>w. case w of WBytes r \<Rightarrow> policy_of r | WVarint _ \<Rightarrow> Inl wire_error) (vals 2 gs)) (\<lambda>rules.
                  Inr (NOutOf (N_Out_Of n rules)))))))))"
  by auto
termination
proof (relation "measure length")
  show "wf (measure length)" by simp
next
  fix b fs g gs k v c hs n w r
  assume fs: "dec_fields b = Some fs" "rev (filter (\<lambda>f. fst f = 1 \<or> fst f = 2) fs) = g # gs" "(k, v) = g" "v = WBytes c"
    and hs: "dec_fields c = Some hs" "w \<in> set (vals 2 hs)" "w = WBytes r"
  from fs(2) have "g \<in> set (rev (filter (\<lambda>f. fst f = 1 \<or> fst f = 2) fs))" by simp
  with fs(3,4) have "(k, WBytes c) \<in> set fs" by auto
  from dec_fields_smaller [OF fs(1) this] have "length c < length b" .
  moreover from hs(2,3) have "(2, WBytes r) \<in> set hs" by (auto simp: vals_def)
  from dec_fields_smaller [OF hs(1) this] have "length r < length c" .
  ultimately show "(r, b) \<in> measure length" by simp
qed

declare policy_of.simps [simp del]

lemma policy_of_fields: "policy_of (enc_fields (policy_fields p)) = Inr p"
proof (induction p rule: policy_fields.induct)
  case (3 n rules)
  have "res_collect (\<lambda>w. case w of WBytes r \<Rightarrow> policy_of r | WVarint _ \<Rightarrow> Inl wire_error)
      (map (\<lambda>r. WBytes (enc_fields (policy_fields r))) rules) = Inr rules"
    using 3 by (induction rules) auto
  moreover have "vals 2 (map (\<lambda>r. (2, WBytes (enc_fields (policy_fields r)))) rules)
      = map (\<lambda>r. WBytes (enc_fields (policy_fields r))) rules"
    "vals 1 (map (\<lambda>r. (2, WBytes (enc_fields (policy_fields r)))) rules) = []"
    by (simp_all add: vals_def filter_map o_def)
  ultimately show ?case by (simp add: policy_of.simps [of "enc_fields _"])
qed (simp_all add: policy_of.simps [of "enc_fields _"] signed_by_def)

definition w_signature_policy :: "signature_policy codec" where
  "w_signature_policy = \<lparr>encode = (\<lambda>p. enc_fields (policy_fields p)), decode = policy_of\<rparr>"

interpretation signature_policy_wire: lossless w_signature_policy
  by unfold_locales (simp add: w_signature_policy_def policy_of_fields)

lemmas [wire_nested] = get_opt_codec [OF signature_policy_wire.lossless_axioms] get_rep_codec [OF signature_policy_wire.lossless_axioms]

subsection \<open>Principals and policies\<close>

record msp_principal =
  mpr_principal_classification :: i32
  mpr_principal :: bytes

definition w_msp_principal :: "msp_principal codec" where
  "w_msp_principal = wire_codec
     (\<lambda>m. f_i32 1 (mpr_principal_classification m) @ f_bytes 2 (mpr_principal m))
     (\<lambda>fs.
       res_bind (get_i32 (vals 1 fs)) (\<lambda>x0.
       res_bind (get_bytes (vals 2 fs)) (\<lambda>x1.
       Inr \<lparr>mpr_principal_classification = x0, mpr_principal = x1\<rparr>)))"

interpretation msp_principal_wire: lossless w_msp_principal
  unfolding w_msp_principal_def by (rule wire_codec_lossless) (simp add: wire_nested)

lemmas [wire_nested] = get_opt_codec [OF msp_principal_wire.lossless_axioms] get_rep_codec [OF msp_principal_wire.lossless_axioms]

record organization_unit =
  ou_msp_identifier :: str
  ou_organizational_unit_identifier :: str
  ou_certifiers_identifier :: bytes

definition w_organization_unit :: "organization_unit codec" where
  "w_organization_unit = wire_codec
     (\<lambda>m. f_str 1 (ou_msp_identifier m) @ f_str 2 (ou_organizational_unit_identifier m) @
        f_bytes 3 (ou_certifiers_identifier m))
     (\<lambda>fs.
       res_bind (get_str (vals 1 fs)) (\<lambda>x0.
       res_bind (get_str (vals 2 fs)) (\<lambda>x1.
       res_bind (get_bytes (vals 3 fs)) (\<lambda>x2.
       Inr \<lparr>ou_msp_identifier = x0, ou_organizational_unit_identifier = x1, ou_certifiers_identifier = x2\<rparr>))))"

interpretation organization_unit_wire: lossless w_organization_unit
  unfolding w_organization_unit_def by (rule wire_codec_lossless) (simp add: wire_nested)

record msp_role =
  mro_msp_identifier :: str
  mro_role :: i32

definition w_msp_role :: "msp_role codec" where
  "w_msp_role = wire_codec
     (\<lambda>m. f_str 1 (mro_msp_identifier m) @ f_i32 2 (mro_role m))
     (\<lambda>fs.
       res_bind (get_str (vals 1 fs)) (\<lambda>x0.
       res_bind (get_i32 (vals 2 fs)) (\<lambda>x1.
       Inr \<lparr>mro_msp_identifier = x0, mro_role = x1\<rparr>)))"

interpretation msp_role_wire: lossless w_msp_role
  unfolding w_msp_role_def by (rule wire_codec_lossless) (simp add: wire_nested)

record msp_identity_anonymity =
  mia_anonymity_type :: i32

definition w_msp_identity_anonymity :: "msp_identity_anonymity codec" where
  "w_msp_identity_anonymity = wire_codec
     (\<lambda>m. f_i32 1 (mia_anonymity_type m))
     (\<lambda>fs.
       res_bind (get_i32 (vals 1 fs)) (\<lambda>x0.
       Inr \<lparr>mia_anonymity_type = x0\<rparr>))"

interpretation msp_identity_anonymity_wire: lossless w_msp_identity_anonymity
  unfolding w_msp_identity_anonymity_def by (rule wire_codec_lossless) (simp add: wire_nested)

record combined_principal =
  cpr_principals :: "msp_principal list"

definition w_combined_principal :: "combined_principal codec" where
  "w_combined_principal = wire_codec
     (\<lambda>m. f_rep 1 (encode w_msp_principal) (cpr_principals m))
     (\<lambda>fs.
       res_bind (get_rep (decode w_msp_principal) (vals 1 fs)) (\<lambda>x0.
       Inr \<lparr>cpr_principals = x0\<rparr>))"

interpretation combined_principal_wire: lossless w_combined_principal
  unfolding w_combined_principal_def by (rule wire_codec_lossless) (simp add: wire_nested)

record policy =
  pol_type :: i32
  pol_value :: bytes

definition w_policy :: "policy codec" where
  "w_policy = wire_codec
     (\<lambda>m. f_i32 1 (pol_type m) @ f_bytes 2 (pol_value m))
     (\<lambda>fs.
       res_bind (get_i32 (vals 1 fs)) (\<lambda>x0.
       res_bind (get_bytes (vals 2 fs)) (\<lambda>x1.
       Inr \<lparr>pol_type = x0, pol_value = x1\<rparr>)))"

interpretation policy_wire: lossless w_policy
  unfolding w_policy_def by (rule wire_codec_lossless) (simp add: wire_nested)

record signature_policy_envelope =
  spe_version :: i32
  spe_rule :: "signature_policy option"
  spe_identities :: "msp_principal list"

definition w_signature_policy_envelope :: "signature_policy_envelope codec" where
  "w_signature_policy_envelope = wire_codec
     (\<lambda>m. f_i32 1 (spe_version m) @ f_opt 2 (encode w_signature_policy) (spe_rule m) @
        f_rep 3 (encode w_msp_principal) (spe_identities m))
     (\<lambda>fs.
       res_bind (get_i32 (vals 1 fs)) (\<lambda>x0.
       res_bind (get_opt (decode w_signature_policy) (vals 2 fs)) (\<lambda>x1.
       res_bind (get_rep (decode w_msp_principal) (vals 3 fs)) (\<lambda>x2.
       Inr \<lparr>spe_version = x0, spe_rule = x1, spe_identities = x2\<rparr>))))"

interpretation signature_policy_envelope_wire: lossless w_signature_policy_envelope
  unfolding w_signature_policy_envelope_def by (rule wire_codec_lossless) (simp add: wire_nested)

lemmas [wire_nested] = get_opt_codec [OF signature_policy_envelope_wire.lossless_axioms] get_rep_codec [OF signature_policy_envelope_wire.lossless_axioms]

record implicit_meta_policy =
  imp_sub_policy :: str
  imp_rule :: i32

definition w_implicit_meta_policy :: "implicit_meta_policy codec" where
  "w_implicit_meta_policy = wire_codec
     (\<lambda>m. f_str 1 (imp_sub_policy m) @ f_i32 2 (imp_rule m))
     (\<lambda>fs.
       res_bind (get_str (vals 1 fs)) (\<lambda>x0.
       res_bind (get_i32 (vals 2 fs)) (\<lambda>x1.
       Inr \<lparr>imp_sub_policy = x0, imp_rule = x1\<rparr>)))"

interpretation implicit_meta_policy_wire: lossless w_implicit_meta_policy
  unfolding w_implicit_meta_policy_def by (rule wire_codec_lossless) (simp add: wire_nested)

text \<open>The field of a \<open>oneof\<close> is written even if it is the default; the last one read wins.\<close>

datatype application_policy_type =
    AP_SignaturePolicy signature_policy_envelope
  | AP_ChannelConfigPolicyReference str

definition f_application_policy :: "application_policy_type option \<Rightarrow> fields" where
  "f_application_policy t = (case t of
     None \<Rightarrow> []
   | Some (AP_SignaturePolicy p) \<Rightarrow> [(1, WBytes (encode w_signature_policy_envelope p))]
   | Some (AP_ChannelConfigPolicyReference s) \<Rightarrow> [(2, WBytes (str_bytes s))])"

definition get_application_policy :: "fields \<Rightarrow> str + application_policy_type option" where
  "get_application_policy fs = (case rev (filter (\<lambda>f. fst f = 1 \<or> fst f = 2) fs) of
     [] \<Rightarrow> Inr None
   | (k, WBytes b) # _ \<Rightarrow> res_map Some
       (if k = 1 then res_map AP_SignaturePolicy (decode w_signature_policy_envelope b)
        else res_map AP_ChannelConfigPolicyReference (utf8_field b))
   | _ \<Rightarrow> Inl wire_error)"

lemma get_application_policy_f [simp]: "get_application_policy (f_application_policy t) = Inr t"
  by (auto simp: get_application_policy_def f_application_policy_def utf8_field_def signature_policy_envelope_wire.decode_encode
      split: option.split application_policy_type.split)

record application_policy =
  app_type :: "application_policy_type option"

definition w_application_policy :: "application_policy codec" where
  "w_application_policy = wire_codec
     (\<lambda>m. f_application_policy (app_type m))
     (\<lambda>fs.
       res_bind (get_application_policy fs) (\<lambda>x0.
       Inr \<lparr>app_type = x0\<rparr>))"

interpretation application_policy_wire: lossless w_application_policy
  unfolding w_application_policy_def by (rule wire_codec_lossless) (simp add: wire_nested)

subsection \<open>Blocks and envelopes\<close>

record last_config =
  lc_index :: u64

definition w_last_config :: "last_config codec" where
  "w_last_config = wire_codec
     (\<lambda>m. f_i64 1 (lc_index m))
     (\<lambda>fs.
       res_bind (get_i64 (vals 1 fs)) (\<lambda>x0.
       Inr \<lparr>lc_index = x0\<rparr>))"

interpretation last_config_wire: lossless w_last_config
  unfolding w_last_config_def by (rule wire_codec_lossless) (simp add: wire_nested)

lemmas [wire_nested] = get_opt_codec [OF last_config_wire.lossless_axioms] get_rep_codec [OF last_config_wire.lossless_axioms]

record metadata_signature =
  ms_signature_header :: bytes
  ms_signature :: bytes
  ms_identifier_header :: bytes

definition w_metadata_signature :: "metadata_signature codec" where
  "w_metadata_signature = wire_codec
     (\<lambda>m. f_bytes 1 (ms_signature_header m) @ f_bytes 2 (ms_signature m) @ f_bytes 3 (ms_identifier_header m))
     (\<lambda>fs.
       res_bind (get_bytes (vals 1 fs)) (\<lambda>x0.
       res_bind (get_bytes (vals 2 fs)) (\<lambda>x1.
       res_bind (get_bytes (vals 3 fs)) (\<lambda>x2.
       Inr \<lparr>ms_signature_header = x0, ms_signature = x1, ms_identifier_header = x2\<rparr>))))"

interpretation metadata_signature_wire: lossless w_metadata_signature
  unfolding w_metadata_signature_def by (rule wire_codec_lossless) (simp add: wire_nested)

lemmas [wire_nested] = get_opt_codec [OF metadata_signature_wire.lossless_axioms] get_rep_codec [OF metadata_signature_wire.lossless_axioms]

record signed_metadata =
  bm_value :: bytes
  bm_signatures :: "metadata_signature list"

definition w_signed_metadata :: "signed_metadata codec" where
  "w_signed_metadata = wire_codec
     (\<lambda>m. f_bytes 1 (bm_value m) @ f_rep 2 (encode w_metadata_signature) (bm_signatures m))
     (\<lambda>fs.
       res_bind (get_bytes (vals 1 fs)) (\<lambda>x0.
       res_bind (get_rep (decode w_metadata_signature) (vals 2 fs)) (\<lambda>x1.
       Inr \<lparr>bm_value = x0, bm_signatures = x1\<rparr>)))"

interpretation signed_metadata_wire: lossless w_signed_metadata
  unfolding w_signed_metadata_def by (rule wire_codec_lossless) (simp add: wire_nested)

record identifier_header =
  ih_identifier :: u32
  ih_nonce :: bytes

definition w_identifier_header :: "identifier_header codec" where
  "w_identifier_header = wire_codec
     (\<lambda>m. f_u32 1 (ih_identifier m) @ f_bytes 2 (ih_nonce m))
     (\<lambda>fs.
       res_bind (get_u32 (vals 1 fs)) (\<lambda>x0.
       res_bind (get_bytes (vals 2 fs)) (\<lambda>x1.
       Inr \<lparr>ih_identifier = x0, ih_nonce = x1\<rparr>)))"

interpretation identifier_header_wire: lossless w_identifier_header
  unfolding w_identifier_header_def by (rule wire_codec_lossless) (simp add: wire_nested)

record payload_message =
  pay_header :: "header option"
  pay_data :: bytes

definition w_payload_message :: "payload_message codec" where
  "w_payload_message = wire_codec
     (\<lambda>m. f_opt 1 (encode w_header) (pay_header m) @ f_bytes 2 (pay_data m))
     (\<lambda>fs.
       res_bind (get_opt (decode w_header) (vals 1 fs)) (\<lambda>x0.
       res_bind (get_bytes (vals 2 fs)) (\<lambda>x1.
       Inr \<lparr>pay_header = x0, pay_data = x1\<rparr>)))"

interpretation payload_message_wire: lossless w_payload_message
  unfolding w_payload_message_def by (rule wire_codec_lossless) (simp add: wire_nested)

record envelope =
  env_payload :: bytes
  env_signature :: bytes

definition w_envelope :: "envelope codec" where
  "w_envelope = wire_codec
     (\<lambda>m. f_bytes 1 (env_payload m) @ f_bytes 2 (env_signature m))
     (\<lambda>fs.
       res_bind (get_bytes (vals 1 fs)) (\<lambda>x0.
       res_bind (get_bytes (vals 2 fs)) (\<lambda>x1.
       Inr \<lparr>env_payload = x0, env_signature = x1\<rparr>)))"

interpretation envelope_wire: lossless w_envelope
  unfolding w_envelope_def by (rule wire_codec_lossless) (simp add: wire_nested)

record block_header =
  bh_number :: u64
  bh_previous_hash :: bytes
  bh_data_hash :: bytes

definition w_block_header :: "block_header codec" where
  "w_block_header = wire_codec
     (\<lambda>m. f_i64 1 (bh_number m) @ f_bytes 2 (bh_previous_hash m) @ f_bytes 3 (bh_data_hash m))
     (\<lambda>fs.
       res_bind (get_i64 (vals 1 fs)) (\<lambda>x0.
       res_bind (get_bytes (vals 2 fs)) (\<lambda>x1.
       res_bind (get_bytes (vals 3 fs)) (\<lambda>x2.
       Inr \<lparr>bh_number = x0, bh_previous_hash = x1, bh_data_hash = x2\<rparr>))))"

interpretation block_header_wire: lossless w_block_header
  unfolding w_block_header_def by (rule wire_codec_lossless) (simp add: wire_nested)

lemmas [wire_nested] = get_opt_codec [OF block_header_wire.lossless_axioms] get_rep_codec [OF block_header_wire.lossless_axioms]

record block_data =
  bd_data :: "bytes list"

definition w_block_data :: "block_data codec" where
  "w_block_data = wire_codec
     (\<lambda>m. f_rep 1 (\<lambda>b. b) (bd_data m))
     (\<lambda>fs.
       res_bind (get_rep Inr (vals 1 fs)) (\<lambda>x0.
       Inr \<lparr>bd_data = x0\<rparr>))"

interpretation block_data_wire: lossless w_block_data
  unfolding w_block_data_def by (rule wire_codec_lossless) (simp add: wire_nested)

lemmas [wire_nested] = get_opt_codec [OF block_data_wire.lossless_axioms] get_rep_codec [OF block_data_wire.lossless_axioms]

record block_metadata =
  bmd_metadata :: "bytes list"

definition w_block_metadata :: "block_metadata codec" where
  "w_block_metadata = wire_codec
     (\<lambda>m. f_rep 1 (\<lambda>b. b) (bmd_metadata m))
     (\<lambda>fs.
       res_bind (get_rep Inr (vals 1 fs)) (\<lambda>x0.
       Inr \<lparr>bmd_metadata = x0\<rparr>))"

interpretation block_metadata_wire: lossless w_block_metadata
  unfolding w_block_metadata_def by (rule wire_codec_lossless) (simp add: wire_nested)

lemmas [wire_nested] = get_opt_codec [OF block_metadata_wire.lossless_axioms] get_rep_codec [OF block_metadata_wire.lossless_axioms]

record block =
  blk_header :: "block_header option"
  blk_data :: "block_data option"
  blk_metadata :: "block_metadata option"

definition w_block :: "block codec" where
  "w_block = wire_codec
     (\<lambda>m. f_opt 1 (encode w_block_header) (blk_header m) @ f_opt 2 (encode w_block_data) (blk_data m) @
        f_opt 3 (encode w_block_metadata) (blk_metadata m))
     (\<lambda>fs.
       res_bind (get_opt (decode w_block_header) (vals 1 fs)) (\<lambda>x0.
       res_bind (get_opt (decode w_block_data) (vals 2 fs)) (\<lambda>x1.
       res_bind (get_opt (decode w_block_metadata) (vals 3 fs)) (\<lambda>x2.
       Inr \<lparr>blk_header = x0, blk_data = x1, blk_metadata = x2\<rparr>))))"

interpretation block_wire: lossless w_block
  unfolding w_block_def by (rule wire_codec_lossless) (simp add: wire_nested)

record orderer_block_metadata =
  obm_last_config :: "last_config option"
  obm_consenter_metadata :: bytes

definition w_orderer_block_metadata :: "orderer_block_metadata codec" where
  "w_orderer_block_metadata = wire_codec
     (\<lambda>m. f_opt 1 (encode w_last_config) (obm_last_config m) @ f_bytes 2 (obm_consenter_metadata m))
     (\<lambda>fs.
       res_bind (get_opt (decode w_last_config) (vals 1 fs)) (\<lambda>x0.
       res_bind (get_bytes (vals 2 fs)) (\<lambda>x1.
       Inr \<lparr>obm_last_config = x0, obm_consenter_metadata = x1\<rparr>)))"

interpretation orderer_block_metadata_wire: lossless w_orderer_block_metadata
  unfolding w_orderer_block_metadata_def by (rule wire_codec_lossless) (simp add: wire_nested)

subsection \<open>Deployment and endorsement\<close>

record chaincode_deployment_spec =
  cds_chaincode_spec :: "chaincode_spec option"
  cds_code_package :: bytes

definition w_chaincode_deployment_spec :: "chaincode_deployment_spec codec" where
  "w_chaincode_deployment_spec = wire_codec
     (\<lambda>m. f_opt 1 (encode w_chaincode_spec) (cds_chaincode_spec m) @ f_bytes 3 (cds_code_package m))
     (\<lambda>fs.
       res_bind (get_opt (decode w_chaincode_spec) (vals 1 fs)) (\<lambda>x0.
       res_bind (get_bytes (vals 3 fs)) (\<lambda>x1.
       Inr \<lparr>cds_chaincode_spec = x0, cds_code_package = x1\<rparr>)))"

interpretation chaincode_deployment_spec_wire: lossless w_chaincode_deployment_spec
  unfolding w_chaincode_deployment_spec_def by (rule wire_codec_lossless) (simp add: wire_nested)

record chaincode_invocation_spec =
  cis_chaincode_spec :: "chaincode_spec option"

definition w_chaincode_invocation_spec :: "chaincode_invocation_spec codec" where
  "w_chaincode_invocation_spec = wire_codec
     (\<lambda>m. f_opt 1 (encode w_chaincode_spec) (cis_chaincode_spec m))
     (\<lambda>fs.
       res_bind (get_opt (decode w_chaincode_spec) (vals 1 fs)) (\<lambda>x0.
       Inr \<lparr>cis_chaincode_spec = x0\<rparr>))"

interpretation chaincode_invocation_spec_wire: lossless w_chaincode_invocation_spec
  unfolding w_chaincode_invocation_spec_def by (rule wire_codec_lossless) (simp add: wire_nested)

record lifecycle_event =
  lce_chaincode_name :: str

definition w_lifecycle_event :: "lifecycle_event codec" where
  "w_lifecycle_event = wire_codec
     (\<lambda>m. f_str 1 (lce_chaincode_name m))
     (\<lambda>fs.
       res_bind (get_str (vals 1 fs)) (\<lambda>x0.
       Inr \<lparr>lce_chaincode_name = x0\<rparr>))"

interpretation lifecycle_event_wire: lossless w_lifecycle_event
  unfolding w_lifecycle_event_def by (rule wire_codec_lossless) (simp add: wire_nested)

record cds_data =
  cdd_hash :: bytes
  cdd_metadatahash :: bytes

definition w_cds_data :: "cds_data codec" where
  "w_cds_data = wire_codec
     (\<lambda>m. f_bytes 1 (cdd_hash m) @ f_bytes 2 (cdd_metadatahash m))
     (\<lambda>fs.
       res_bind (get_bytes (vals 1 fs)) (\<lambda>x0.
       res_bind (get_bytes (vals 2 fs)) (\<lambda>x1.
       Inr \<lparr>cdd_hash = x0, cdd_metadatahash = x1\<rparr>)))"

interpretation cds_data_wire: lossless w_cds_data
  unfolding w_cds_data_def by (rule wire_codec_lossless) (simp add: wire_nested)

record chaincode_data =
  ccd_name :: str
  ccd_version :: str
  ccd_escc :: str
  ccd_vscc :: str
  ccd_policy :: "signature_policy_envelope option"
  ccd_data :: bytes
  ccd_id :: bytes
  ccd_instantiation_policy :: "signature_policy_envelope option"

definition w_chaincode_data :: "chaincode_data codec" where
  "w_chaincode_data = wire_codec
     (\<lambda>m. f_str 1 (ccd_name m) @ f_str 2 (ccd_version m) @ f_str 3 (ccd_escc m) @ f_str 4 (ccd_vscc m) @
        f_opt 5 (encode w_signature_policy_envelope) (ccd_policy m) @ f_bytes 6 (ccd_data m) @
        f_bytes 7 (ccd_id m) @ f_opt 8 (encode w_signature_policy_envelope) (ccd_instantiation_policy m))
     (\<lambda>fs.
       res_bind (get_str (vals 1 fs)) (\<lambda>x0.
       res_bind (get_str (vals 2 fs)) (\<lambda>x1.
       res_bind (get_str (vals 3 fs)) (\<lambda>x2.
       res_bind (get_str (vals 4 fs)) (\<lambda>x3.
       res_bind (get_opt (decode w_signature_policy_envelope) (vals 5 fs)) (\<lambda>x4.
       res_bind (get_bytes (vals 6 fs)) (\<lambda>x5.
       res_bind (get_bytes (vals 7 fs)) (\<lambda>x6.
       res_bind (get_opt (decode w_signature_policy_envelope) (vals 8 fs)) (\<lambda>x7.
       Inr \<lparr>ccd_name = x0, ccd_version = x1, ccd_escc = x2, ccd_vscc = x3, ccd_policy = x4, ccd_data = x5, ccd_id = x6, ccd_instantiation_policy = x7\<rparr>)))))))))"

interpretation chaincode_data_wire: lossless w_chaincode_data
  unfolding w_chaincode_data_def by (rule wire_codec_lossless) (simp add: wire_nested)

record chaincode_additional_params =
  cap_use_write_batch :: bool
  cap_max_size_write_batch :: u32
  cap_use_get_multiple_keys :: bool
  cap_max_size_get_multiple_keys :: u32

definition w_chaincode_additional_params :: "chaincode_additional_params codec" where
  "w_chaincode_additional_params = wire_codec
     (\<lambda>m. f_bool 1 (cap_use_write_batch m) @ f_u32 2 (cap_max_size_write_batch m) @
        f_bool 3 (cap_use_get_multiple_keys m) @ f_u32 4 (cap_max_size_get_multiple_keys m))
     (\<lambda>fs.
       res_bind (get_bool (vals 1 fs)) (\<lambda>x0.
       res_bind (get_u32 (vals 2 fs)) (\<lambda>x1.
       res_bind (get_bool (vals 3 fs)) (\<lambda>x2.
       res_bind (get_u32 (vals 4 fs)) (\<lambda>x3.
       Inr \<lparr>cap_use_write_batch = x0, cap_max_size_write_batch = x1, cap_use_get_multiple_keys = x2, cap_max_size_get_multiple_keys = x3\<rparr>)))))"

interpretation chaincode_additional_params_wire: lossless w_chaincode_additional_params
  unfolding w_chaincode_additional_params_def by (rule wire_codec_lossless) (simp add: wire_nested)

record endorsement =
  end_endorser :: bytes
  end_signature :: bytes

definition w_endorsement :: "endorsement codec" where
  "w_endorsement = wire_codec
     (\<lambda>m. f_bytes 1 (end_endorser m) @ f_bytes 2 (end_signature m))
     (\<lambda>fs.
       res_bind (get_bytes (vals 1 fs)) (\<lambda>x0.
       res_bind (get_bytes (vals 2 fs)) (\<lambda>x1.
       Inr \<lparr>end_endorser = x0, end_signature = x1\<rparr>)))"

interpretation endorsement_wire: lossless w_endorsement
  unfolding w_endorsement_def by (rule wire_codec_lossless) (simp add: wire_nested)

lemmas [wire_nested] = get_opt_codec [OF endorsement_wire.lossless_axioms] get_rep_codec [OF endorsement_wire.lossless_axioms]

record endorsed_call =
  ccl_name :: str
  ccl_collection_names :: "str list"
  ccl_no_private_reads :: bool
  ccl_no_public_writes :: bool
  ccl_key_policies :: "signature_policy_envelope list"
  ccl_disregard_namespace_policy :: bool

definition w_endorsed_call :: "endorsed_call codec" where
  "w_endorsed_call = wire_codec
     (\<lambda>m. f_str 1 (ccl_name m) @ f_rep 2 str_bytes (ccl_collection_names m) @ f_bool 3 (ccl_no_private_reads m) @
        f_bool 4 (ccl_no_public_writes m) @ f_rep 5 (encode w_signature_policy_envelope) (ccl_key_policies m) @
        f_bool 6 (ccl_disregard_namespace_policy m))
     (\<lambda>fs.
       res_bind (get_str (vals 1 fs)) (\<lambda>x0.
       res_bind (get_rep utf8_field (vals 2 fs)) (\<lambda>x1.
       res_bind (get_bool (vals 3 fs)) (\<lambda>x2.
       res_bind (get_bool (vals 4 fs)) (\<lambda>x3.
       res_bind (get_rep (decode w_signature_policy_envelope) (vals 5 fs)) (\<lambda>x4.
       res_bind (get_bool (vals 6 fs)) (\<lambda>x5.
       Inr \<lparr>ccl_name = x0, ccl_collection_names = x1, ccl_no_private_reads = x2, ccl_no_public_writes = x3, ccl_key_policies = x4, ccl_disregard_namespace_policy = x5\<rparr>)))))))"

interpretation endorsed_call_wire: lossless w_endorsed_call
  unfolding w_endorsed_call_def by (rule wire_codec_lossless) (simp add: wire_nested)

lemmas [wire_nested] = get_opt_codec [OF endorsed_call_wire.lossless_axioms] get_rep_codec [OF endorsed_call_wire.lossless_axioms]

record chaincode_interest =
  cin_chaincodes :: "endorsed_call list"

definition w_chaincode_interest :: "chaincode_interest codec" where
  "w_chaincode_interest = wire_codec
     (\<lambda>m. f_rep 1 (encode w_endorsed_call) (cin_chaincodes m))
     (\<lambda>fs.
       res_bind (get_rep (decode w_endorsed_call) (vals 1 fs)) (\<lambda>x0.
       Inr \<lparr>cin_chaincodes = x0\<rparr>))"

interpretation chaincode_interest_wire: lossless w_chaincode_interest
  unfolding w_chaincode_interest_def by (rule wire_codec_lossless) (simp add: wire_nested)

lemmas [wire_nested] = get_opt_codec [OF chaincode_interest_wire.lossless_axioms] get_rep_codec [OF chaincode_interest_wire.lossless_axioms]

record proposal_response =
  prr_version :: i32
  prr_timestamp :: "timestamp option"
  prr_response :: "pb_response option"
  prr_payload :: bytes
  prr_endorsement :: "endorsement option"
  prr_interest :: "chaincode_interest option"

definition w_proposal_response :: "proposal_response codec" where
  "w_proposal_response = wire_codec
     (\<lambda>m. f_i32 1 (prr_version m) @ f_opt 2 (encode w_timestamp) (prr_timestamp m) @
        f_opt 4 (encode w_response) (prr_response m) @ f_bytes 5 (prr_payload m) @
        f_opt 6 (encode w_endorsement) (prr_endorsement m) @
        f_opt 7 (encode w_chaincode_interest) (prr_interest m))
     (\<lambda>fs.
       res_bind (get_i32 (vals 1 fs)) (\<lambda>x0.
       res_bind (get_opt (decode w_timestamp) (vals 2 fs)) (\<lambda>x1.
       res_bind (get_opt (decode w_response) (vals 4 fs)) (\<lambda>x2.
       res_bind (get_bytes (vals 5 fs)) (\<lambda>x3.
       res_bind (get_opt (decode w_endorsement) (vals 6 fs)) (\<lambda>x4.
       res_bind (get_opt (decode w_chaincode_interest) (vals 7 fs)) (\<lambda>x5.
       Inr \<lparr>prr_version = x0, prr_timestamp = x1, prr_response = x2, prr_payload = x3, prr_endorsement = x4, prr_interest = x5\<rparr>)))))))"

interpretation proposal_response_wire: lossless w_proposal_response
  unfolding w_proposal_response_def by (rule wire_codec_lossless) (simp add: wire_nested)

record proposal_response_payload =
  prp_proposal_hash :: bytes
  prp_extension :: bytes

definition w_proposal_response_payload :: "proposal_response_payload codec" where
  "w_proposal_response_payload = wire_codec
     (\<lambda>m. f_bytes 1 (prp_proposal_hash m) @ f_bytes 2 (prp_extension m))
     (\<lambda>fs.
       res_bind (get_bytes (vals 1 fs)) (\<lambda>x0.
       res_bind (get_bytes (vals 2 fs)) (\<lambda>x1.
       Inr \<lparr>prp_proposal_hash = x0, prp_extension = x1\<rparr>)))"

interpretation proposal_response_payload_wire: lossless w_proposal_response_payload
  unfolding w_proposal_response_payload_def by (rule wire_codec_lossless) (simp add: wire_nested)

record chaincode_header_extension =
  che_chaincode_id :: "chaincode_id option"

definition w_chaincode_header_extension :: "chaincode_header_extension codec" where
  "w_chaincode_header_extension = wire_codec
     (\<lambda>m. f_opt 2 (encode w_chaincode_id) (che_chaincode_id m))
     (\<lambda>fs.
       res_bind (get_opt (decode w_chaincode_id) (vals 2 fs)) (\<lambda>x0.
       Inr \<lparr>che_chaincode_id = x0\<rparr>))"

interpretation chaincode_header_extension_wire: lossless w_chaincode_header_extension
  unfolding w_chaincode_header_extension_def by (rule wire_codec_lossless) (simp add: wire_nested)

record chaincode_action =
  cac_results :: bytes
  cac_events :: bytes
  cac_response :: "pb_response option"
  cac_chaincode_id :: "chaincode_id option"

definition w_chaincode_action :: "chaincode_action codec" where
  "w_chaincode_action = wire_codec
     (\<lambda>m. f_bytes 1 (cac_results m) @ f_bytes 2 (cac_events m) @ f_opt 3 (encode w_response) (cac_response m) @
        f_opt 4 (encode w_chaincode_id) (cac_chaincode_id m))
     (\<lambda>fs.
       res_bind (get_bytes (vals 1 fs)) (\<lambda>x0.
       res_bind (get_bytes (vals 2 fs)) (\<lambda>x1.
       res_bind (get_opt (decode w_response) (vals 3 fs)) (\<lambda>x2.
       res_bind (get_opt (decode w_chaincode_id) (vals 4 fs)) (\<lambda>x3.
       Inr \<lparr>cac_results = x0, cac_events = x1, cac_response = x2, cac_chaincode_id = x3\<rparr>)))))"

interpretation chaincode_action_wire: lossless w_chaincode_action
  unfolding w_chaincode_action_def by (rule wire_codec_lossless) (simp add: wire_nested)

subsection \<open>Metadata, multiple reads and write batches\<close>

record get_state_metadata =
  gsm_key :: str
  gsm_collection :: str

definition w_get_state_metadata :: "get_state_metadata codec" where
  "w_get_state_metadata = wire_codec
     (\<lambda>m. f_str 1 (gsm_key m) @ f_str 2 (gsm_collection m))
     (\<lambda>fs.
       res_bind (get_str (vals 1 fs)) (\<lambda>x0.
       res_bind (get_str (vals 2 fs)) (\<lambda>x1.
       Inr \<lparr>gsm_key = x0, gsm_collection = x1\<rparr>)))"

interpretation get_state_metadata_wire: lossless w_get_state_metadata
  unfolding w_get_state_metadata_def by (rule wire_codec_lossless) (simp add: wire_nested)

record get_state_multiple =
  gst_keys :: "str list"
  gst_collection :: str

definition w_get_state_multiple :: "get_state_multiple codec" where
  "w_get_state_multiple = wire_codec
     (\<lambda>m. f_rep 1 str_bytes (gst_keys m) @ f_str 2 (gst_collection m))
     (\<lambda>fs.
       res_bind (get_rep utf8_field (vals 1 fs)) (\<lambda>x0.
       res_bind (get_str (vals 2 fs)) (\<lambda>x1.
       Inr \<lparr>gst_keys = x0, gst_collection = x1\<rparr>)))"

interpretation get_state_multiple_wire: lossless w_get_state_multiple
  unfolding w_get_state_multiple_def by (rule wire_codec_lossless) (simp add: wire_nested)

record get_state_multiple_result =
  gmr_values :: "bytes list"

definition w_get_state_multiple_result :: "get_state_multiple_result codec" where
  "w_get_state_multiple_result = wire_codec
     (\<lambda>m. f_rep 1 (\<lambda>b. b) (gmr_values m))
     (\<lambda>fs.
       res_bind (get_rep Inr (vals 1 fs)) (\<lambda>x0.
       Inr \<lparr>gmr_values = x0\<rparr>))"

interpretation get_state_multiple_result_wire: lossless w_get_state_multiple_result
  unfolding w_get_state_multiple_result_def by (rule wire_codec_lossless) (simp add: wire_nested)

record state_metadata =
  stm_metakey :: str
  stm_value :: bytes

definition w_state_metadata :: "state_metadata codec" where
  "w_state_metadata = wire_codec
     (\<lambda>m. f_str 1 (stm_metakey m) @ f_bytes 2 (stm_value m))
     (\<lambda>fs.
       res_bind (get_str (vals 1 fs)) (\<lambda>x0.
       res_bind (get_bytes (vals 2 fs)) (\<lambda>x1.
       Inr \<lparr>stm_metakey = x0, stm_value = x1\<rparr>)))"

interpretation state_metadata_wire: lossless w_state_metadata
  unfolding w_state_metadata_def by (rule wire_codec_lossless) (simp add: wire_nested)

lemmas [wire_nested] = get_opt_codec [OF state_metadata_wire.lossless_axioms] get_rep_codec [OF state_metadata_wire.lossless_axioms]

record put_state_metadata =
  psm_key :: str
  psm_collection :: str
  psm_metadata :: "state_metadata option"

definition w_put_state_metadata :: "put_state_metadata codec" where
  "w_put_state_metadata = wire_codec
     (\<lambda>m. f_str 1 (psm_key m) @ f_str 3 (psm_collection m) @ f_opt 4 (encode w_state_metadata) (psm_metadata m))
     (\<lambda>fs.
       res_bind (get_str (vals 1 fs)) (\<lambda>x0.
       res_bind (get_str (vals 3 fs)) (\<lambda>x1.
       res_bind (get_opt (decode w_state_metadata) (vals 4 fs)) (\<lambda>x2.
       Inr \<lparr>psm_key = x0, psm_collection = x1, psm_metadata = x2\<rparr>))))"

interpretation put_state_metadata_wire: lossless w_put_state_metadata
  unfolding w_put_state_metadata_def by (rule wire_codec_lossless) (simp add: wire_nested)

record write_record =
  wr_key :: str
  wr_value :: bytes
  wr_collection :: str
  wr_metadata :: "state_metadata option"
  wr_type :: i32

definition w_write_record :: "write_record codec" where
  "w_write_record = wire_codec
     (\<lambda>m. f_str 1 (wr_key m) @ f_bytes 2 (wr_value m) @ f_str 3 (wr_collection m) @
        f_opt 4 (encode w_state_metadata) (wr_metadata m) @ f_i32 5 (wr_type m))
     (\<lambda>fs.
       res_bind (get_str (vals 1 fs)) (\<lambda>x0.
       res_bind (get_bytes (vals 2 fs)) (\<lambda>x1.
       res_bind (get_str (vals 3 fs)) (\<lambda>x2.
       res_bind (get_opt (decode w_state_metadata) (vals 4 fs)) (\<lambda>x3.
       res_bind (get_i32 (vals 5 fs)) (\<lambda>x4.
       Inr \<lparr>wr_key = x0, wr_value = x1, wr_collection = x2, wr_metadata = x3, wr_type = x4\<rparr>))))))"

interpretation write_record_wire: lossless w_write_record
  unfolding w_write_record_def by (rule wire_codec_lossless) (simp add: wire_nested)

lemmas [wire_nested] = get_opt_codec [OF write_record_wire.lossless_axioms] get_rep_codec [OF write_record_wire.lossless_axioms]

record write_batch_state =
  wbs_rec :: "write_record list"

definition w_write_batch_state :: "write_batch_state codec" where
  "w_write_batch_state = wire_codec
     (\<lambda>m. f_rep 1 (encode w_write_record) (wbs_rec m))
     (\<lambda>fs.
       res_bind (get_rep (decode w_write_record) (vals 1 fs)) (\<lambda>x0.
       Inr \<lparr>wbs_rec = x0\<rparr>))"

interpretation write_batch_state_wire: lossless w_write_batch_state
  unfolding w_write_batch_state_def by (rule wire_codec_lossless) (simp add: wire_nested)

record state_metadata_result =
  smr_entries :: "state_metadata list"

definition w_state_metadata_result :: "state_metadata_result codec" where
  "w_state_metadata_result = wire_codec
     (\<lambda>m. f_rep 1 (encode w_state_metadata) (smr_entries m))
     (\<lambda>fs.
       res_bind (get_rep (decode w_state_metadata) (vals 1 fs)) (\<lambda>x0.
       Inr \<lparr>smr_entries = x0\<rparr>))"

interpretation state_metadata_result_wire: lossless w_state_metadata_result
  unfolding w_state_metadata_result_def by (rule wire_codec_lossless) (simp add: wire_nested)

subsection \<open>Identities\<close>

record serialized_idemix_identity =
  sii_nym_x :: bytes
  sii_nym_y :: bytes
  sii_ou :: bytes
  sii_role :: bytes
  sii_proof :: bytes

definition w_serialized_idemix_identity :: "serialized_idemix_identity codec" where
  "w_serialized_idemix_identity = wire_codec
     (\<lambda>m. f_bytes 1 (sii_nym_x m) @ f_bytes 2 (sii_nym_y m) @ f_bytes 3 (sii_ou m) @ f_bytes 4 (sii_role m) @
        f_bytes 5 (sii_proof m))
     (\<lambda>fs.
       res_bind (get_bytes (vals 1 fs)) (\<lambda>x0.
       res_bind (get_bytes (vals 2 fs)) (\<lambda>x1.
       res_bind (get_bytes (vals 3 fs)) (\<lambda>x2.
       res_bind (get_bytes (vals 4 fs)) (\<lambda>x3.
       res_bind (get_bytes (vals 5 fs)) (\<lambda>x4.
       Inr \<lparr>sii_nym_x = x0, sii_nym_y = x1, sii_ou = x2, sii_role = x3, sii_proof = x4\<rparr>))))))"

interpretation serialized_idemix_identity_wire: lossless w_serialized_idemix_identity
  unfolding w_serialized_idemix_identity_def by (rule wire_codec_lossless) (simp add: wire_nested)

end
