(* ===== verification/Handler.thy ===== *)
theory Handler imports Stub
begin

section \<open>The connection handler: messages and decisions\<close>

text \<open>
  The sequential parts of \<open>fabric-shim/src/handler.rs\<close>: building messages, judging a
  reply, the dispatch table of the connection loop, and what a transaction task does before
  and after the user's code. Theory \<open>System\<close> composes them into the concurrent
  connection. The clock is a parameter: a reading is the time since the epoch, if it is not
  before it.
\<close>

type_synonym tx_key = "str \<times> str"
type_synonym clock = "(nat \<times> nat) option"

subsection \<open>Messages\<close>

definition now :: "clock \<Rightarrow> timestamp" where
  "now d = (case d of
     None \<Rightarrow> \<lparr>ts_seconds = 0, ts_nanos = 0\<rparr>
   | Some (secs, nanos) \<Rightarrow> \<lparr>ts_seconds = word_of_nat secs, ts_nanos = word_of_nat nanos\<rparr>)"

definition new_message :: "clock \<Rightarrow> msg_type \<Rightarrow> bytes \<Rightarrow> str \<Rightarrow> str \<Rightarrow> chaincode_message" where
  "new_message d t payload channel_id tx_id =
     \<lparr>cm_type = msg_type_i32 t, cm_timestamp = Some (now d), cm_payload = payload, cm_txid = tx_id,
      cm_proposal = None, cm_chaincode_event = None, cm_channel_id = channel_id\<rparr>"

definition register_message :: "prost \<Rightarrow> clock \<Rightarrow> str \<Rightarrow> chaincode_message" where
  "register_message P d cc_id =
     (new_message d MT_Register [] [] [])
       \<lparr>cm_payload := encode (c_chaincode_id P) (default_chaincode_id\<lparr>cid_name := cc_id\<rparr>)\<rparr>"

definition key_of :: "chaincode_message \<Rightarrow> tx_key" where
  "key_of m = (cm_channel_id m, cm_txid m)"

lemma new_message_sel [simp]:
  "cm_kind (new_message d t p ch tx) = t" "cm_payload (new_message d t p ch tx) = p"
  "cm_channel_id (new_message d t p ch tx) = ch" "cm_txid (new_message d t p ch tx) = tx"
  "key_of (new_message d t p ch tx) = (ch, tx)" "cm_chaincode_event (new_message d t p ch tx) = None"
  by (simp_all add: new_message_def cm_kind_def key_of_def)

lemma cm_update_sel [simp]:
  "cm_kind (m\<lparr>cm_payload := p\<rparr>) = cm_kind m" "key_of (m\<lparr>cm_payload := p\<rparr>) = key_of m"
  "cm_kind (m\<lparr>cm_chaincode_event := e\<rparr>) = cm_kind m" "key_of (m\<lparr>cm_chaincode_event := e\<rparr>) = key_of m"
  by (simp_all add: cm_kind_def key_of_def)

lemma register_message_sel [simp]:
  "cm_kind (register_message P d cc) = MT_Register" "key_of (register_message P d cc) = ([], [])"
  by (simp_all add: register_message_def)

subsection \<open>Judging a reply\<close>

definition in_flight_error :: "str \<Rightarrow> shim_error" where
  "in_flight_error tx_id = ErrProtocol (lit ''another ledger request is already in flight for tx '' @ tx_id)"

text \<open>The last match of \<open>PeerLink::request\<close>.\<close>

definition classify_reply :: "chaincode_message \<Rightarrow> shim_error + chaincode_message" where
  "classify_reply reply =
     (if cm_kind reply = MT_Response then Inr reply
      else if cm_kind reply = MT_Error then Inl (ErrPeer (from_utf8_lossy (cm_payload reply)))
      else Inl (ErrProtocol (lit ''unexpected message type '' @ msg_type_debug (cm_kind reply)
             @ lit '' routed as tx response'')))"

text \<open>A peer that answers a request at once or never, seen through \<open>PeerLink::request\<close>.\<close>

definition link_env :: "('p \<Rightarrow> chaincode_message \<Rightarrow> (chaincode_message \<times> 'p) option) \<Rightarrow> clock \<Rightarrow> str \<Rightarrow> str \<Rightarrow> 'p env" where
  "link_env serve d channel_id tx_id p t payload =
     map_option (\<lambda>(reply, p'). (classify_reply reply, p')) (serve p (new_message d t payload channel_id tx_id))"

subsection \<open>The dispatch table of the connection loop\<close>

datatype conn_state = Created | Established | Ready

fun conn_state_debug :: "conn_state \<Rightarrow> str" where
  "conn_state_debug Created = lit ''Created''"
| "conn_state_debug Established = lit ''Established''"
| "conn_state_debug Ready = lit ''Ready''"

datatype dispatch =
    Advance conn_state
  | EchoKeepalive
  | SpawnTransaction
  | RouteResponse
  | Reject

text \<open>The arms of \<open>match (state, msg.r#type())\<close>, in their order.\<close>

definition dispatch :: "conn_state \<Rightarrow> msg_type \<Rightarrow> dispatch" where
  "dispatch st t =
     (if st = Created \<and> t = MT_Registered then Advance Established
      else if st = Established \<and> t = MT_Ready then Advance Ready
      else if t = MT_Keepalive then EchoKeepalive
      else if st = Ready \<and> (t = MT_Init \<or> t = MT_Transaction) then SpawnTransaction
      else if st = Ready \<and> (t = MT_Response \<or> t = MT_Error) then RouteResponse
      else Reject)"

definition keepalive_message :: "clock \<Rightarrow> chaincode_message \<Rightarrow> chaincode_message" where
  "keepalive_message d msg = new_message d MT_Keepalive [] (cm_channel_id msg) (cm_txid msg)"

definition error_message :: "clock \<Rightarrow> str \<Rightarrow> str \<Rightarrow> str \<Rightarrow> chaincode_message" where
  "error_message d text channel_id tx_id =
     (new_message d MT_Error [] channel_id tx_id)\<lparr>cm_payload := str_bytes text\<rparr>"

definition reject_message :: "clock \<Rightarrow> conn_state \<Rightarrow> chaincode_message \<Rightarrow> chaincode_message" where
  "reject_message d st msg =
     error_message d (lit ''received '' @ msg_type_debug (cm_kind msg) @ lit '' in state '' @ conn_state_debug st)
       (cm_channel_id msg) (cm_txid msg)"

subsection \<open>A transaction task\<close>

definition METADATA_FUNCTION :: str where
  "METADATA_FUNCTION = lit ''org.hyperledger.fabric:GetMetadata''"

text \<open>\<open>metadata()\<close> of the chaincode with the result of serializing it: \<open>None\<close> if it declares none.\<close>

type_synonym metadata_reply = "(str + bytes) option"

definition metadata_response :: "str + bytes \<Rightarrow> response" where
  "metadata_response r = (case r of
     Inr json \<Rightarrow> success json
   | Inl e \<Rightarrow> response_error (lit ''failed to serialize metadata: '' @ e))"

definition completed_message :: "prost \<Rightarrow> clock \<Rightarrow> str \<Rightarrow> str \<Rightarrow> response \<Rightarrow> chaincode_event option \<Rightarrow> chaincode_message" where
  "completed_message P d channel_id tx_id resp event =
     (new_message d MT_Completed [] channel_id tx_id)
       \<lparr>cm_payload := encode (c_response P) (into_proto resp), cm_chaincode_event := event\<rparr>"

text \<open>What the task does with its message: answer it itself, or run the user's code on a stub.\<close>

datatype tx_plan =
    Answer chaincode_message
  | RunUser bool stub

definition prepare_transaction :: "prost \<Rightarrow> metadata_reply \<Rightarrow> clock \<Rightarrow> chaincode_message \<Rightarrow> tx_plan" where
  "prepare_transaction P meta d msg =
     (let is_init = (cm_kind msg = MT_Init);
          channel_id = cm_channel_id msg;
          tx_id = cm_txid msg in
      case decode (c_chaincode_input P) (cm_payload msg) of
        Inl e \<Rightarrow> Answer (error_message d (lit ''failed to decode ChaincodeInput: '' @ e) channel_id tx_id)
      | Inr input \<Rightarrow>
          let run = (case stub_new P channel_id tx_id input (cm_proposal msg) of
                Inl e \<Rightarrow> Answer (error_message d (lit ''failed to build stub: '' @ error_display e) channel_id tx_id)
              | Inr stub \<Rightarrow> RunUser is_init stub) in
          if ci_args input \<noteq> [] \<and> hd (ci_args input) = str_bytes METADATA_FUNCTION then
            (case meta of
               Some r \<Rightarrow> Answer (completed_message P d channel_id tx_id (metadata_response r) None)
             | None \<Rightarrow> run)
          else run)"

text \<open>How the user's task ended: with a response, or with a panic (the text is the join error's).\<close>

datatype user_outcome = Returned response | Panicked str

fun outcome_response :: "user_outcome \<Rightarrow> response" where
  "outcome_response (Returned resp) = resp"
| "outcome_response (Panicked join_err) = response_error (lit ''chaincode handler panicked: '' @ join_err)"

lemma error_message_sel [simp]:
  "cm_kind (error_message d s ch tx) = MT_Error" "key_of (error_message d s ch tx) = (ch, tx)"
  "cm_payload (error_message d s ch tx) = str_bytes s"
  by (simp_all add: error_message_def)

lemma completed_message_sel [simp]:
  "cm_kind (completed_message P d ch tx r e) = MT_Completed"
  "key_of (completed_message P d ch tx r e) = (ch, tx)"
  "cm_payload (completed_message P d ch tx r e) = encode (c_response P) (into_proto r)"
  "cm_chaincode_event (completed_message P d ch tx r e) = e"
  by (simp_all add: completed_message_def)

lemma keepalive_message_sel [simp]:
  "cm_kind (keepalive_message d m) = MT_Keepalive" "key_of (keepalive_message d m) = key_of m"
  by (simp_all add: keepalive_message_def key_of_def [of m])

lemma reject_message_sel [simp]:
  "cm_kind (reject_message d st m) = MT_Error" "key_of (reject_message d st m) = key_of m"
  by (simp_all add: reject_message_def key_of_def [of m])

lemma prepare_answer:
  assumes "prepare_transaction P meta d msg = Answer m"
  shows "cm_kind m \<in> {MT_Completed, MT_Error}" and "key_of m = key_of msg"
  using assms
  by (auto simp: prepare_transaction_def Let_def key_of_def [of msg] split: sum.splits if_splits option.splits)

lemma prepare_run:
  assumes "prepare_transaction P meta d msg = RunUser b stub"
  shows "(sb_channel_id stub, sb_tx_id stub) = key_of msg" and "b \<longleftrightarrow> cm_kind msg = MT_Init"
  using assms stub_new_ids
  by (fastforce simp: prepare_transaction_def Let_def key_of_def split: sum.splits if_splits option.splits)+

subsection \<open>A whole transaction against a peer that answers at once\<close>

text \<open>The chaincode: \<open>init\<close> and \<open>invoke\<close> as programs over the stub.\<close>

record chaincode =
  cc_metadata :: metadata_reply
  cc_init :: "stub \<Rightarrow> response io"
  cc_invoke :: "stub \<Rightarrow> response io"

text \<open>The task of one transaction run to its terminal message; \<open>None\<close> if the user's code does
  not return. \<open>join_error\<close> is the text of tokio's join error for a panic message.\<close>

definition run_transaction :: "prost \<Rightarrow> (str \<Rightarrow> str) \<Rightarrow> chaincode \<Rightarrow> ('p \<Rightarrow> chaincode_message \<Rightarrow> (chaincode_message \<times> 'p) option) \<Rightarrow>
    clock \<Rightarrow> chaincode_message \<Rightarrow> 'p \<Rightarrow> (chaincode_message \<times> 'p) option" where
  "run_transaction P join_error cc serve d msg p = (case prepare_transaction P (cc_metadata cc) d msg of
     Answer m \<Rightarrow> Some (m, p)
   | RunUser is_init stub \<Rightarrow>
       map_option (\<lambda>(r, p', ev).
           let outcome = (case r of Inl panic \<Rightarrow> Panicked (join_error panic) | Inr resp \<Rightarrow> Returned resp) in
           (completed_message P d (cm_channel_id msg) (cm_txid msg) (outcome_response outcome) ev, p'))
         (run_io (link_env serve d (cm_channel_id msg) (cm_txid msg)) p None
            ((if is_init then cc_init cc else cc_invoke cc) stub)))"

text \<open>Transactions one after the other, with the terminal message of each.\<close>

fun run_transactions :: "prost \<Rightarrow> (str \<Rightarrow> str) \<Rightarrow> chaincode \<Rightarrow> ('p \<Rightarrow> chaincode_message \<Rightarrow> (chaincode_message \<times> 'p) option) \<Rightarrow>
    clock \<Rightarrow> chaincode_message list \<Rightarrow> 'p \<Rightarrow> (chaincode_message list \<times> 'p) option" where
  "run_transactions P je cc serve d [] p = Some ([], p)"
| "run_transactions P je cc serve d (m # ms) p =
     Option.bind (run_transaction P je cc serve d m p) (\<lambda>(t, p').
     map_option (\<lambda>(ts, p''). (t # ts, p'')) (run_transactions P je cc serve d ms p'))"

lemma stub_new_Inl_decode:
  assumes "stub_new P ch tx input sp = Inl e"
  shows "\<exists>sp'. sp = Some sp' \<and> read_proposal P sp' = Inl e"
  using assms by (cases sp) (auto simp: stub_new_def res_bind_Inl_iff)

text \<open>C25. A transaction that ends sends one terminal message for its own channel and id: COMPLETED with a
  response the peer can decode, or ERROR, and ERROR only when the chaincode input or the
  signed proposal cannot be decoded.\<close>

theorem transaction_ends_in_terminal_message:
  assumes "prost_ok P" and "run_transaction P join_error cc serve d msg p = Some (m, p')"
  shows "key_of m = key_of msg \<and>
    (cm_kind m = MT_Completed \<and> (\<exists>resp. decode (c_response P) (cm_payload m) = Inr (into_proto resp))
   \<or> cm_kind m = MT_Error \<and> p' = p \<and> (\<not> is_ok (decode (c_chaincode_input P) (cm_payload msg))
        \<or> (\<exists>sp. cm_proposal msg = Some sp \<and> \<not> is_ok (read_proposal P sp))))"
proof (cases "prepare_transaction P (cc_metadata cc) d msg")
  case (Answer a)
  then have m: "m = a" "p' = p" using assms(2) by (simp_all add: run_transaction_def)
  have "key_of a = key_of msg" using prepare_answer(2) [OF Answer] .
  with Answer m assms(1) stub_new_Inl_decode show ?thesis
    by (fastforce simp: prepare_transaction_def Let_def split: sum.splits if_splits option.splits)
next
  case (RunUser b stub)
  with assms show ?thesis
    by (auto simp: run_transaction_def Let_def key_of_def [of msg])
qed

text \<open>An example chaincode: \<open>init\<close> succeeds with an empty payload, \<open>invoke\<close> panics.\<close>

definition ex_chaincode :: chaincode where
  "ex_chaincode = \<lparr>cc_metadata = Some (Inr [123, 125]), cc_init = \<lambda>_. Ret success_empty,
     cc_invoke = \<lambda>_. Panic (lit ''bad'')\<rparr>"

definition ex_call :: "msg_type \<Rightarrow> str list \<Rightarrow> chaincode_message" where
  "ex_call t ss = (plain_message t (encode (c_chaincode_input wire_prost)
     \<lparr>ci_args = map str_bytes ss, ci_decorations = fmempty, ci_is_init = False\<rparr>))"

theorem transaction_ends_in_terminal_message_witness:
  "\<exists>m resp. run_transaction wire_prost id ex_chaincode (\<lambda>_ _. None) None (ex_call MT_Transaction [lit ''f'']) () = Some (m, ())
    \<and> cm_kind m = MT_Completed \<and> decode (c_response wire_prost) (cm_payload m) = Inr (into_proto resp)"
proof -
  obtain m where run: "run_transaction wire_prost id ex_chaincode (\<lambda>_ _. None) None (ex_call MT_Transaction [lit ''f'']) () = Some (m, ())"
      and kind: "cm_kind m = MT_Completed"
    by (auto simp: run_transaction_def prepare_transaction_def ex_chaincode_def ex_call_def Let_def stub_new_def
        METADATA_FUNCTION_def split: if_splits)
  from transaction_ends_in_terminal_message [OF wire_prost_ok run] kind show ?thesis
    using run by auto
qed

text \<open>The metadata request is answered by the shim: when the chaincode declares metadata and the
  first argument is \<open>org.hyperledger.fabric:GetMetadata\<close>, the transaction ends in COMPLETED with the metadata
  as payload, without running the user's code, without any ledger request and without an
  event, whatever the proposal holds.\<close>

lemma metadata_is_served_by_the_shim:
  assumes "prost_ok P" and "cc_metadata cc = Some (Inr json)"
    and "decode (c_chaincode_input P) (cm_payload msg) = Inr input"
    and "ci_args input = str_bytes METADATA_FUNCTION # rest"
  shows "\<exists>m. run_transaction P join_error cc serve d msg p = Some (m, p) \<and> cm_kind m = MT_Completed
    \<and> decode (c_response P) (cm_payload m) = Inr (into_proto (success json)) \<and> cm_chaincode_event m = None"
  using assms by (simp add: run_transaction_def prepare_transaction_def metadata_response_def Let_def)

lemma metadata_is_served_by_the_shim_example:
  "\<exists>m. run_transaction wire_prost id ex_chaincode (\<lambda>_ _. None) None (ex_call MT_Transaction [METADATA_FUNCTION]) ()
      = Some (m, ()) \<and> cm_kind m = MT_Completed"
proof -
  let ?input = "\<lparr>ci_args = map str_bytes [METADATA_FUNCTION], ci_decorations = fmempty, ci_is_init = False\<rparr>"
  have "decode (c_chaincode_input wire_prost) (cm_payload (ex_call MT_Transaction [METADATA_FUNCTION])) = Inr ?input"
    and "cc_metadata ex_chaincode = Some (Inr [123, 125])"
    by (simp_all add: ex_call_def ex_chaincode_def)
  from metadata_is_served_by_the_shim [OF wire_prost_ok this(2,1), of "[]" id "\<lambda>_ _. None" None "()"]
  show ?thesis by auto
qed

end
