(* ===== verification/System.thy ===== *)
theory System imports Handler
begin

section \<open>The connection as a concurrent system\<close>

text \<open>
  \<open>run_connection\<close>, \<open>spawn_transaction\<close>, \<open>PeerLink::request\<close> and \<open>StubCore::request\<close> running
  concurrently, as an executable step function: an action names the task that moves and the
  nondeterminism it resolves (what arrives from the peer, the clock reading, what the user's
  code asks for), and one action is what the code does between two points where it may be
  suspended. The user's code is arbitrary: any number of strands (futures polled together,
  or spawned tasks) that issue requests, wait, are dropped, set the event, and one of which
  returns or panics. \<open>s_owner\<close>, \<open>s_pushed\<close>, \<open>s_seen\<close>, \<open>s_sent\<close>, \<open>tk_log\<close> and \<open>tk_late\<close> only record history.
\<close>

subsection \<open>State\<close>

text \<open>The capacity of the channel to the transport, \<open>mpsc::channel(64)\<close>.\<close>

definition OUT_CAPACITY :: nat where "OUT_CAPACITY = 64"

datatype origin = FromLoop | FromTask nat | FromStrand nat nat

text \<open>A \<open>oneshot\<close> channel: its sender is still there, has sent, or was dropped.\<close>

datatype cell = Waiting | Filled chaincode_message | SenderDropped

text \<open>Where a strand stands in \<open>StubCore::request\<close>: waiting for the gate, waiting for room in the
  out channel (with the pending entry made), or waiting for the reply.\<close>

datatype strand =
    Idle
  | WaitGate msg_type bytes
  | SendReq nat chaincode_message
  | AwaitReply nat

text \<open>Where a transaction task stands: just spawned, awaiting the user's code, the user's code
  joined, sending its terminal message, done (with or without having sent it).\<close>

datatype phase =
    Spawned
  | Running
  | Joined response
  | Sending chaincode_message
  | Finished bool

record task =
  tk_msg :: chaincode_message
  tk_phase :: phase
  tk_stub :: "(bool \<times> stub) option"
  tk_gate :: "nat option"
  tk_strands :: "nat \<Rightarrow> strand"
  tk_event :: "chaincode_event option"
  tk_log :: "(nat \<times> (shim_error + chaincode_message)) list"
  tk_late :: bool

fun before_clean_up :: "phase \<Rightarrow> bool" where
  "before_clean_up Running = True"
| "before_clean_up (Joined r) = True"
| "before_clean_up _ = False"

text \<open>The connection loop: sending a message of its own (with the states to go on in when the
  send succeeds or fails, \<open>None\<close> to return), reading, or returned.\<close>

datatype loop =
    LoopSend chaincode_message "conn_state option" "conn_state option"
  | Reading conn_state
  | Closed

record sys =
  s_loop :: loop
  s_out :: "(origin \<times> chaincode_message) list"
  s_open :: bool
  s_pending :: "tx_key \<Rightarrow> nat option"
  s_cells :: "nat \<Rightarrow> cell"
  s_next :: nat
  s_tasks :: "task list"
  s_owner :: "nat \<Rightarrow> nat \<times> nat"
  s_pushed :: "(origin \<times> chaincode_message) list"
  s_sent :: "(origin \<times> chaincode_message) list"
  s_seen :: "chaincode_message list"

definition new_task :: "chaincode_message \<Rightarrow> task" where
  "new_task m = \<lparr>tk_msg = m, tk_phase = Spawned, tk_stub = None, tk_gate = None, tk_strands = (\<lambda>_. Idle),
     tk_event = None, tk_log = [], tk_late = False\<rparr>"

text \<open>The connection after \<open>connect\<close> has spawned it: about to send REGISTER.\<close>

definition sys_init :: "prost \<Rightarrow> clock \<Rightarrow> str \<Rightarrow> sys" where
  "sys_init P d cc_id = \<lparr>s_loop = LoopSend (register_message P d cc_id) (Some Created) None,
     s_out = [], s_open = True, s_pending = Map.empty, s_cells = (\<lambda>_. Waiting), s_next = 0,
     s_tasks = [], s_owner = (\<lambda>_. (0, 0)), s_pushed = [], s_sent = [], s_seen = []\<rparr>"

definition tkey :: "task \<Rightarrow> tx_key" where
  "tkey t = key_of (tk_msg t)"

subsection \<open>Operations on the state\<close>

definition set_task :: "nat \<Rightarrow> task \<Rightarrow> sys \<Rightarrow> sys" where
  "set_task i t s = s\<lparr>s_tasks := (s_tasks s)[i := t]\<rparr>"

text \<open>\<open>out.send(..).await\<close>: fails when the receiver is gone, waits while the channel is full.\<close>

definition push_out :: "origin \<Rightarrow> chaincode_message \<Rightarrow> sys \<Rightarrow> sys" where
  "push_out o' m s = s\<lparr>s_out := s_out s @ [(o', m)], s_pushed := s_pushed s @ [(o', m)]\<rparr>"

definition out_full :: "sys \<Rightarrow> bool" where
  "out_full s \<longleftrightarrow> OUT_CAPACITY \<le> length (s_out s)"

definition drop_pending :: "tx_key \<Rightarrow> sys \<Rightarrow> sys" where
  "drop_pending k s = (case s_pending s k of
     None \<Rightarrow> s
   | Some c \<Rightarrow> s\<lparr>s_pending := (s_pending s)(k := None), s_cells := (s_cells s)(c := SenderDropped)\<rparr>)"

definition route_response :: "chaincode_message \<Rightarrow> sys \<Rightarrow> sys" where
  "route_response m s = (case s_pending s (key_of m) of
     None \<Rightarrow> s
   | Some c \<Rightarrow> s\<lparr>s_pending := (s_pending s)(key_of m := None), s_cells := (s_cells s)(c := Filled m)\<rparr>)"

definition go_on :: "conn_state option \<Rightarrow> loop" where
  "go_on n = (case n of None \<Rightarrow> Closed | Some st \<Rightarrow> Reading st)"

text \<open>A strand leaves \<open>request\<close> with a result; the gate's guard is dropped with it.\<close>

definition leave_request :: "nat \<Rightarrow> shim_error + chaincode_message \<Rightarrow> task \<Rightarrow> task" where
  "leave_request j r t = t\<lparr>tk_strands := (tk_strands t)(j := Idle), tk_gate := None, tk_log := tk_log t @ [(j, r)]\<rparr>"

subsection \<open>Steps\<close>

datatype action =
    LoopPush
  | Inbound clock chaincode_message
  | InboundEnd
  | Transport
  | PeerGone
  | Prepare clock nat
  | Request nat nat msg_type bytes
  | Acquire clock nat nat
  | StrandPush nat nat
  | Receive nat nat
  | Cancel nat nat
  | EmitEvent nat chaincode_event
  | UserDone nat user_outcome
  | CleanUp clock nat
  | TaskPush nat

text \<open>The send of the loop itself (REGISTER, keepalive echo, rejection) resolves.\<close>

definition loop_push :: "sys \<Rightarrow> sys option" where
  "loop_push s = (case s_loop s of
     LoopSend m ok err \<Rightarrow>
       if \<not> s_open s then Some (s\<lparr>s_loop := go_on err\<rparr>)
       else if out_full s then None
       else Some (push_out FromLoop m (s\<lparr>s_loop := go_on ok\<rparr>))
   | _ \<Rightarrow> None)"

text \<open>\<open>inbound.message()\<close> yields a message: one turn of the loop.\<close>

definition inbound :: "clock \<Rightarrow> chaincode_message \<Rightarrow> sys \<Rightarrow> sys option" where
  "inbound d m s = (case s_loop s of
     Reading st \<Rightarrow>
       let s = s\<lparr>s_seen := s_seen s @ [m]\<rparr> in
       Some (case dispatch st (cm_kind m) of
         Advance st' \<Rightarrow> s\<lparr>s_loop := Reading st'\<rparr>
       | EchoKeepalive \<Rightarrow> s\<lparr>s_loop := LoopSend (keepalive_message d m) (Some st) (Some st)\<rparr>
       | SpawnTransaction \<Rightarrow> s\<lparr>s_tasks := s_tasks s @ [new_task m]\<rparr>
       | RouteResponse \<Rightarrow> route_response m s
       | Reject \<Rightarrow> s\<lparr>s_loop := LoopSend (reject_message d st m) None None\<rparr>)
   | _ \<Rightarrow> None)"

text \<open>The peer ends the stream, or the stream fails: the loop returns.\<close>

definition inbound_end :: "sys \<Rightarrow> sys option" where
  "inbound_end s = (case s_loop s of Reading st \<Rightarrow> Some (s\<lparr>s_loop := Closed\<rparr>) | _ \<Rightarrow> None)"

text \<open>The transport takes a message from the channel, or drops the receiver.\<close>

definition transport :: "sys \<Rightarrow> sys option" where
  "transport s = (case s_out s of [] \<Rightarrow> None
     | m # ms \<Rightarrow> Some (s\<lparr>s_out := ms, s_sent := s_sent s @ [m]\<rparr>))"

definition peer_gone :: "sys \<Rightarrow> sys option" where
  "peer_gone s = Some (s\<lparr>s_open := False, s_out := []\<rparr>)"

text \<open>The task decodes its message and either answers it or starts the user's code.\<close>

definition prepare :: "prost \<Rightarrow> metadata_reply \<Rightarrow> clock \<Rightarrow> nat \<Rightarrow> sys \<Rightarrow> sys option" where
  "prepare P meta d i s =
     (let t = s_tasks s ! i in
      if tk_phase t \<noteq> Spawned then None
      else Some (set_task i (case prepare_transaction P meta d (tk_msg t) of
          Answer m \<Rightarrow> t\<lparr>tk_phase := Sending m\<rparr>
        | RunUser b stub \<Rightarrow> t\<lparr>tk_phase := Running, tk_stub := Some (b, stub)\<rparr>) s))"

text \<open>A strand that holds the stub calls \<open>StubCore::request\<close>, with one of the types the methods of
  the stub and the iterators use.\<close>

definition LEDGER_REQUESTS :: "msg_type list" where
  "LEDGER_REQUESTS = [MT_GetState, MT_PutState, MT_DelState, MT_InvokeChaincode, MT_GetStateByRange,
     MT_GetQueryResult, MT_QueryStateNext, MT_QueryStateClose, MT_GetHistoryForKey,
     MT_GetPrivateDataHash, MT_PurgePrivateData]"

definition request :: "nat \<Rightarrow> nat \<Rightarrow> msg_type \<Rightarrow> bytes \<Rightarrow> sys \<Rightarrow> sys option" where
  "request i j t b s =
     (let tk = s_tasks s ! i in
      if tk_stub tk = None \<or> tk_strands tk j \<noteq> Idle \<or> t \<notin> set LEDGER_REQUESTS then None
      else Some (set_task i (tk\<lparr>tk_strands := (tk_strands tk)(j := WaitGate t b)\<rparr>) s))"

text \<open>The strand gets the gate; \<open>PeerLink::request\<close> refuses a second request for the key or
  registers a oneshot channel and builds the message.\<close>

definition acquire :: "clock \<Rightarrow> nat \<Rightarrow> nat \<Rightarrow> sys \<Rightarrow> sys option" where
  "acquire d i j s =
     (let tk = s_tasks s ! i in
      case tk_strands tk j of
        WaitGate t b \<Rightarrow>
          if tk_gate tk \<noteq> None then None
          else (case tkey tk of (ch, tx) \<Rightarrow>
            if s_pending s (ch, tx) \<noteq> None then
              Some (set_task i (leave_request j (Inl (in_flight_error tx)) tk) s)
            else
              let c = s_next s in
              Some (set_task i (tk\<lparr>tk_gate := Some j,
                    tk_strands := (tk_strands tk)(j := SendReq c (new_message d t b ch tx)),
                    tk_late := (tk_late tk \<or> \<not> before_clean_up (tk_phase tk))\<rparr>)
                (s\<lparr>s_next := Suc c, s_pending := (s_pending s)((ch, tx) := Some c),
                   s_owner := (s_owner s)(c := (i, j))\<rparr>)))
      | _ \<Rightarrow> None)"

definition strand_push :: "nat \<Rightarrow> nat \<Rightarrow> sys \<Rightarrow> sys option" where
  "strand_push i j s =
     (let tk = s_tasks s ! i in
      case tk_strands tk j of
        SendReq c m \<Rightarrow>
          if \<not> s_open s then
            Some (set_task i (leave_request j (Inl ErrConnectionClosed) tk) (drop_pending (tkey tk) s))
          else if out_full s then None
          else Some (push_out (FromStrand i j) m
                 (set_task i (tk\<lparr>tk_strands := (tk_strands tk)(j := AwaitReply c)\<rparr>) s))
      | _ \<Rightarrow> None)"

definition receive :: "nat \<Rightarrow> nat \<Rightarrow> sys \<Rightarrow> sys option" where
  "receive i j s =
     (let tk = s_tasks s ! i in
      case tk_strands tk j of
        AwaitReply c \<Rightarrow> (case s_cells s c of
            Waiting \<Rightarrow> None
          | Filled m \<Rightarrow> Some (set_task i (leave_request j (classify_reply m) tk) s)
          | SenderDropped \<Rightarrow> Some (set_task i (leave_request j (Inl ErrConnectionClosed) tk) s))
      | _ \<Rightarrow> None)"

text \<open>The future of the call is dropped before it is ready: the gate's guard goes with it, the
  pending entry stays.\<close>

definition cancel :: "nat \<Rightarrow> nat \<Rightarrow> sys \<Rightarrow> sys option" where
  "cancel i j s =
     (let tk = s_tasks s ! i in
      case tk_strands tk j of
        Idle \<Rightarrow> None
      | WaitGate t b \<Rightarrow> Some (set_task i (tk\<lparr>tk_strands := (tk_strands tk)(j := Idle)\<rparr>) s)
      | _ \<Rightarrow> Some (set_task i (tk\<lparr>tk_strands := (tk_strands tk)(j := Idle), tk_gate := None\<rparr>) s))"

definition emit_event :: "nat \<Rightarrow> chaincode_event \<Rightarrow> sys \<Rightarrow> sys option" where
  "emit_event i e s =
     (let tk = s_tasks s ! i in
      if tk_stub tk = None then None else Some (set_task i (tk\<lparr>tk_event := Some e\<rparr>) s))"

definition user_done :: "nat \<Rightarrow> user_outcome \<Rightarrow> sys \<Rightarrow> sys option" where
  "user_done i outcome s =
     (let tk = s_tasks s ! i in
      if tk_phase tk \<noteq> Running then None
      else Some (set_task i (tk\<lparr>tk_phase := Joined (outcome_response outcome)\<rparr>) s))"

text \<open>After the join: drop the pending entry, take the event, build COMPLETED.\<close>

definition clean_up :: "prost \<Rightarrow> clock \<Rightarrow> nat \<Rightarrow> sys \<Rightarrow> sys option" where
  "clean_up P d i s =
     (let tk = s_tasks s ! i in
      case tk_phase tk of
        Joined resp \<Rightarrow>
          let m = completed_message P d (fst (tkey tk)) (snd (tkey tk)) resp (tk_event tk) in
          Some (set_task i (tk\<lparr>tk_phase := Sending m, tk_event := None\<rparr>) (drop_pending (tkey tk) s))
      | _ \<Rightarrow> None)"

definition task_push :: "nat \<Rightarrow> sys \<Rightarrow> sys option" where
  "task_push i s =
     (let tk = s_tasks s ! i in
      case tk_phase tk of
        Sending m \<Rightarrow>
          if \<not> s_open s then Some (set_task i (tk\<lparr>tk_phase := Finished False\<rparr>) s)
          else if out_full s then None
          else Some (push_out (FromTask i) m (set_task i (tk\<lparr>tk_phase := Finished True\<rparr>) s))
      | _ \<Rightarrow> None)"

fun task_of :: "action \<Rightarrow> nat option" where
  "task_of (Prepare d i) = Some i"
| "task_of (Request i j t b) = Some i"
| "task_of (Acquire d i j) = Some i"
| "task_of (StrandPush i j) = Some i"
| "task_of (Receive i j) = Some i"
| "task_of (Cancel i j) = Some i"
| "task_of (EmitEvent i e) = Some i"
| "task_of (UserDone i r) = Some i"
| "task_of (CleanUp d i) = Some i"
| "task_of (TaskPush i) = Some i"
| "task_of _ = None"

fun perform :: "prost \<Rightarrow> metadata_reply \<Rightarrow> action \<Rightarrow> sys \<Rightarrow> sys option" where
  "perform P meta LoopPush s = loop_push s"
| "perform P meta (Inbound d m) s = inbound d m s"
| "perform P meta InboundEnd s = inbound_end s"
| "perform P meta Transport s = transport s"
| "perform P meta PeerGone s = peer_gone s"
| "perform P meta (Prepare d i) s = prepare P meta d i s"
| "perform P meta (Request i j t b) s = request i j t b s"
| "perform P meta (Acquire d i j) s = acquire d i j s"
| "perform P meta (StrandPush i j) s = strand_push i j s"
| "perform P meta (Receive i j) s = receive i j s"
| "perform P meta (Cancel i j) s = cancel i j s"
| "perform P meta (EmitEvent i e) s = emit_event i e s"
| "perform P meta (UserDone i r) s = user_done i r s"
| "perform P meta (CleanUp d i) s = clean_up P d i s"
| "perform P meta (TaskPush i) s = task_push i s"

text \<open>A step: the action is of a task that exists and is enabled.\<close>

definition sys_step :: "prost \<Rightarrow> metadata_reply \<Rightarrow> action \<Rightarrow> sys \<Rightarrow> sys option" where
  "sys_step P meta a s =
     (case task_of a of
        None \<Rightarrow> perform P meta a s
      | Some i \<Rightarrow> if i < length (s_tasks s) then perform P meta a s else None)"

fun sys_run :: "prost \<Rightarrow> metadata_reply \<Rightarrow> action list \<Rightarrow> sys \<Rightarrow> sys option" where
  "sys_run P meta [] s = Some s"
| "sys_run P meta (a # as) s = Option.bind (sys_step P meta a s) (sys_run P meta as)"

inductive reachable :: "prost \<Rightarrow> metadata_reply \<Rightarrow> str \<Rightarrow> sys \<Rightarrow> bool" for P meta cc_id where
  init: "reachable P meta cc_id (sys_init P d cc_id)"
| step: "reachable P meta cc_id s \<Longrightarrow> sys_step P meta a s = Some s' \<Longrightarrow> reachable P meta cc_id s'"

end
