(* ===== verification/System_Inv.thy ===== *)
theory System_Inv imports System
begin

section \<open>Invariants of the connection\<close>

text \<open>
  Reachable states of theory \<open>System\<close>: mutual exclusion by the gate, the life of the
  oneshot cells, routing of replies, the handshake, the terminal message of each task, and
  the absence of leaked pending entries. \<open>sys_rel\<close> lists the branches of the step function
  as rules; every invariant is proved by cases on them.
\<close>

declare split_paired_All [simp del] split_paired_Ex [simp del]

subsection \<open>The steps as rules\<close>

inductive sys_rel :: "prost \<Rightarrow> metadata_reply \<Rightarrow> action \<Rightarrow> sys \<Rightarrow> sys \<Rightarrow> bool" for P meta where
  loop_sent: "s_loop s = LoopSend m ok err \<Longrightarrow> s_open s \<Longrightarrow> \<not> out_full s \<Longrightarrow>
    sys_rel P meta LoopPush s (push_out FromLoop m (s\<lparr>s_loop := go_on ok\<rparr>))"
| loop_failed: "s_loop s = LoopSend m ok err \<Longrightarrow> \<not> s_open s \<Longrightarrow>
    sys_rel P meta LoopPush s (s\<lparr>s_loop := go_on err\<rparr>)"
| advance: "s_loop s = Reading st \<Longrightarrow> dispatch st (cm_kind m) = Advance st' \<Longrightarrow>
    sys_rel P meta (Inbound d m) s (s\<lparr>s_seen := s_seen s @ [m], s_loop := Reading st'\<rparr>)"
| echo: "s_loop s = Reading st \<Longrightarrow> dispatch st (cm_kind m) = EchoKeepalive \<Longrightarrow>
    sys_rel P meta (Inbound d m) s
      (s\<lparr>s_seen := s_seen s @ [m], s_loop := LoopSend (keepalive_message d m) (Some st) (Some st)\<rparr>)"
| spawn: "s_loop s = Reading st \<Longrightarrow> dispatch st (cm_kind m) = SpawnTransaction \<Longrightarrow>
    sys_rel P meta (Inbound d m) s (s\<lparr>s_seen := s_seen s @ [m], s_tasks := s_tasks s @ [new_task m]\<rparr>)"
| route: "s_loop s = Reading st \<Longrightarrow> dispatch st (cm_kind m) = RouteResponse \<Longrightarrow> s_pending s (key_of m) = Some c \<Longrightarrow>
    sys_rel P meta (Inbound d m) s
      (s\<lparr>s_seen := s_seen s @ [m], s_pending := (s_pending s)(key_of m := None),
         s_cells := (s_cells s)(c := Filled m)\<rparr>)"
| route_none: "s_loop s = Reading st \<Longrightarrow> dispatch st (cm_kind m) = RouteResponse \<Longrightarrow> s_pending s (key_of m) = None \<Longrightarrow>
    sys_rel P meta (Inbound d m) s (s\<lparr>s_seen := s_seen s @ [m]\<rparr>)"
| reject: "s_loop s = Reading st \<Longrightarrow> dispatch st (cm_kind m) = Reject \<Longrightarrow>
    sys_rel P meta (Inbound d m) s
      (s\<lparr>s_seen := s_seen s @ [m], s_loop := LoopSend (reject_message d st m) None None\<rparr>)"
| inbound_ended: "s_loop s = Reading st \<Longrightarrow> sys_rel P meta InboundEnd s (s\<lparr>s_loop := Closed\<rparr>)"
| transported: "s_out s = m # ms \<Longrightarrow>
    sys_rel P meta Transport s (s\<lparr>s_out := ms, s_sent := s_sent s @ [m]\<rparr>)"
| gone: "sys_rel P meta PeerGone s (s\<lparr>s_open := False, s_out := []\<rparr>)"
| answered: "i < length (s_tasks s) \<Longrightarrow> tk = s_tasks s ! i \<Longrightarrow> tk_phase tk = Spawned \<Longrightarrow>
    prepare_transaction P meta d (tk_msg tk) = Answer m \<Longrightarrow>
    sys_rel P meta (Prepare d i) s (set_task i (tk\<lparr>tk_phase := Sending m\<rparr>) s)"
| started: "i < length (s_tasks s) \<Longrightarrow> tk = s_tasks s ! i \<Longrightarrow> tk_phase tk = Spawned \<Longrightarrow>
    prepare_transaction P meta d (tk_msg tk) = RunUser b stub \<Longrightarrow>
    sys_rel P meta (Prepare d i) s (set_task i (tk\<lparr>tk_phase := Running, tk_stub := Some (b, stub)\<rparr>) s)"
| requested: "i < length (s_tasks s) \<Longrightarrow> tk = s_tasks s ! i \<Longrightarrow> tk_stub tk = Some bs \<Longrightarrow> tk_strands tk j = Idle \<Longrightarrow>
    t \<in> set LEDGER_REQUESTS \<Longrightarrow>
    sys_rel P meta (Request i j t b) s (set_task i (tk\<lparr>tk_strands := (tk_strands tk)(j := WaitGate t b)\<rparr>) s)"
| refused: "i < length (s_tasks s) \<Longrightarrow> tk = s_tasks s ! i \<Longrightarrow> tk_strands tk j = WaitGate t b \<Longrightarrow> tk_gate tk = None \<Longrightarrow>
    s_pending s (tkey tk) = Some c \<Longrightarrow>
    sys_rel P meta (Acquire d i j) s (set_task i (leave_request j (Inl (in_flight_error (snd (tkey tk)))) tk) s)"
| registered: "i < length (s_tasks s) \<Longrightarrow> tk = s_tasks s ! i \<Longrightarrow> tk_strands tk j = WaitGate t b \<Longrightarrow> tk_gate tk = None \<Longrightarrow>
    s_pending s (tkey tk) = None \<Longrightarrow> c = s_next s \<Longrightarrow>
    sys_rel P meta (Acquire d i j) s
      (set_task i (tk\<lparr>tk_gate := Some j,
          tk_strands := (tk_strands tk)(j := SendReq c (new_message d t b (fst (tkey tk)) (snd (tkey tk)))),
          tk_late := (tk_late tk \<or> \<not> before_clean_up (tk_phase tk))\<rparr>)
        (s\<lparr>s_next := Suc c, s_pending := (s_pending s)(tkey tk := Some c), s_owner := (s_owner s)(c := (i, j))\<rparr>))"
| strand_failed: "i < length (s_tasks s) \<Longrightarrow> tk = s_tasks s ! i \<Longrightarrow> tk_strands tk j = SendReq c m \<Longrightarrow> \<not> s_open s \<Longrightarrow>
    sys_rel P meta (StrandPush i j) s
      (set_task i (leave_request j (Inl ErrConnectionClosed) tk) (drop_pending (tkey tk) s))"
| strand_sent: "i < length (s_tasks s) \<Longrightarrow> tk = s_tasks s ! i \<Longrightarrow> tk_strands tk j = SendReq c m \<Longrightarrow> s_open s \<Longrightarrow> \<not> out_full s \<Longrightarrow>
    sys_rel P meta (StrandPush i j) s
      (push_out (FromStrand i j) m (set_task i (tk\<lparr>tk_strands := (tk_strands tk)(j := AwaitReply c)\<rparr>) s))"
| received: "i < length (s_tasks s) \<Longrightarrow> tk = s_tasks s ! i \<Longrightarrow> tk_strands tk j = AwaitReply c \<Longrightarrow> s_cells s c = Filled m \<Longrightarrow>
    sys_rel P meta (Receive i j) s (set_task i (leave_request j (classify_reply m) tk) s)"
| sender_dropped: "i < length (s_tasks s) \<Longrightarrow> tk = s_tasks s ! i \<Longrightarrow> tk_strands tk j = AwaitReply c \<Longrightarrow> s_cells s c = SenderDropped \<Longrightarrow>
    sys_rel P meta (Receive i j) s (set_task i (leave_request j (Inl ErrConnectionClosed) tk) s)"
| cancelled_wait: "i < length (s_tasks s) \<Longrightarrow> tk = s_tasks s ! i \<Longrightarrow> tk_strands tk j = WaitGate t b \<Longrightarrow>
    sys_rel P meta (Cancel i j) s (set_task i (tk\<lparr>tk_strands := (tk_strands tk)(j := Idle)\<rparr>) s)"
| cancelled: "i < length (s_tasks s) \<Longrightarrow> tk = s_tasks s ! i \<Longrightarrow>
    tk_strands tk j = SendReq c m \<or> tk_strands tk j = AwaitReply c \<Longrightarrow>
    sys_rel P meta (Cancel i j) s (set_task i (tk\<lparr>tk_strands := (tk_strands tk)(j := Idle), tk_gate := None\<rparr>) s)"
| emitted: "i < length (s_tasks s) \<Longrightarrow> tk = s_tasks s ! i \<Longrightarrow> tk_stub tk = Some bs \<Longrightarrow>
    sys_rel P meta (EmitEvent i e) s (set_task i (tk\<lparr>tk_event := Some e\<rparr>) s)"
| joined: "i < length (s_tasks s) \<Longrightarrow> tk = s_tasks s ! i \<Longrightarrow> tk_phase tk = Running \<Longrightarrow>
    sys_rel P meta (UserDone i outcome) s (set_task i (tk\<lparr>tk_phase := Joined (outcome_response outcome)\<rparr>) s)"
| cleaned: "i < length (s_tasks s) \<Longrightarrow> tk = s_tasks s ! i \<Longrightarrow> tk_phase tk = Joined resp \<Longrightarrow>
    m = completed_message P d (fst (tkey tk)) (snd (tkey tk)) resp (tk_event tk) \<Longrightarrow>
    sys_rel P meta (CleanUp d i) s
      (set_task i (tk\<lparr>tk_phase := Sending m, tk_event := None\<rparr>) (drop_pending (tkey tk) s))"
| task_failed: "i < length (s_tasks s) \<Longrightarrow> tk = s_tasks s ! i \<Longrightarrow> tk_phase tk = Sending m \<Longrightarrow> \<not> s_open s \<Longrightarrow>
    sys_rel P meta (TaskPush i) s (set_task i (tk\<lparr>tk_phase := Finished False\<rparr>) s)"
| task_sent: "i < length (s_tasks s) \<Longrightarrow> tk = s_tasks s ! i \<Longrightarrow> tk_phase tk = Sending m \<Longrightarrow> s_open s \<Longrightarrow> \<not> out_full s \<Longrightarrow>
    sys_rel P meta (TaskPush i) s
      (push_out (FromTask i) m (set_task i (tk\<lparr>tk_phase := Finished True\<rparr>) s))"

lemma sys_step_rel:
  assumes "sys_step P meta a s = Some s'"
  shows "sys_rel P meta a s s'"
proof (cases a)
  case LoopPush
  with assms show ?thesis
    by (auto simp: sys_step_def loop_push_def intro: loop_sent loop_failed split: loop.splits if_splits)
next
  case (Inbound d m)
  with assms obtain st where st: "s_loop s = Reading st"
    by (auto simp: sys_step_def inbound_def split: loop.splits)
  show ?thesis
  proof (cases "dispatch st (cm_kind m)")
    case RouteResponse
    with Inbound assms st show ?thesis
      by (cases "s_pending s (key_of m)")
        (auto simp: sys_step_def inbound_def route_response_def Let_def intro: route route_none)
  qed (use Inbound assms st in \<open>auto simp: sys_step_def inbound_def Let_def intro: advance echo spawn reject\<close>)
next
  case InboundEnd
  with assms show ?thesis
    by (auto simp: sys_step_def inbound_end_def intro: inbound_ended split: loop.splits)
next
  case Transport
  with assms show ?thesis
    by (auto simp: sys_step_def transport_def intro: transported split: list.splits)
next
  case PeerGone
  with assms show ?thesis by (auto simp: sys_step_def peer_gone_def intro: gone)
next
  case (Prepare d i)
  with assms show ?thesis
    by (auto simp: sys_step_def prepare_def Let_def intro: answered started split: if_splits tx_plan.splits)
next
  case (Request i j t b)
  with assms show ?thesis
    by (auto simp: sys_step_def request_def Let_def intro: requested split: if_splits)
next
  case (Acquire d i j)
  with assms have i: "i < length (s_tasks s)" by (auto simp: sys_step_def split: if_splits)
  let ?tk = "s_tasks s ! i"
  from Acquire assms i obtain t b where w: "tk_strands ?tk j = WaitGate t b" and g: "tk_gate ?tk = None"
    by (auto simp: sys_step_def acquire_def Let_def split: strand.splits if_splits)
  obtain ch tx where k: "tkey ?tk = (ch, tx)" by (cases "tkey ?tk")
  show ?thesis
  proof (cases "s_pending s (ch, tx)")
    case None
    with Acquire assms i w g k have "s' = set_task i (?tk\<lparr>tk_gate := Some j,
          tk_strands := (tk_strands ?tk)(j := SendReq (s_next s) (new_message d t b (fst (tkey ?tk)) (snd (tkey ?tk)))),
          tk_late := (tk_late ?tk \<or> \<not> before_clean_up (tk_phase ?tk))\<rparr>)
        (s\<lparr>s_next := Suc (s_next s), s_pending := (s_pending s)(tkey ?tk := Some (s_next s)),
           s_owner := (s_owner s)(s_next s := (i, j))\<rparr>)"
      by (simp add: sys_step_def acquire_def Let_def)
    with Acquire i w g None k show ?thesis using registered [of i s ?tk j t b "s_next s" P meta d] by simp
  next
    case (Some c)
    with Acquire assms i w g k have "s' = set_task i (leave_request j (Inl (in_flight_error (snd (tkey ?tk)))) ?tk) s"
      by (simp add: sys_step_def acquire_def Let_def)
    with Acquire i w g Some k show ?thesis using refused [of i s ?tk j t b c] by simp
  qed
next
  case (StrandPush i j)
  with assms show ?thesis
    by (auto simp: sys_step_def strand_push_def Let_def intro: strand_failed strand_sent split: strand.splits if_splits)
next
  case (Receive i j)
  with assms show ?thesis
    by (auto simp: sys_step_def receive_def Let_def intro: received sender_dropped
        split: strand.splits if_splits cell.splits)
next
  case (Cancel i j)
  with assms show ?thesis
    by (auto simp: sys_step_def cancel_def Let_def intro: cancelled cancelled_wait split: strand.splits if_splits)
next
  case (EmitEvent i e)
  with assms show ?thesis
    by (auto simp: sys_step_def emit_event_def Let_def intro: emitted split: if_splits)
next
  case (UserDone i r)
  with assms show ?thesis
    by (auto simp: sys_step_def user_done_def Let_def intro: joined split: if_splits)
next
  case (CleanUp d i)
  with assms show ?thesis
    by (auto simp: sys_step_def clean_up_def Let_def intro!: cleaned split: if_splits phase.splits)
next
  case (TaskPush i)
  with assms show ?thesis
    by (auto simp: sys_step_def task_push_def Let_def intro: task_failed task_sent split: if_splits phase.splits)
qed

lemma reachable_invariant [consumes 1, case_names init step]:
  assumes "reachable P meta cc_id s"
    and "\<And>d. I (sys_init P d cc_id)"
    and "\<And>s a s'. reachable P meta cc_id s \<Longrightarrow> I s \<Longrightarrow> sys_rel P meta a s s' \<Longrightarrow> I s'"
  shows "I s"
  using assms(1) by (induction rule: reachable.induct) (use assms(2,3) sys_step_rel in blast)+

text \<open>How the helpers act on the parts of the state.\<close>

lemma push_out_sel [simp]:
  "s_loop (push_out o' m s) = s_loop s" "s_out (push_out o' m s) = s_out s @ [(o', m)]"
  "s_open (push_out o' m s) = s_open s" "s_pending (push_out o' m s) = s_pending s"
  "s_cells (push_out o' m s) = s_cells s" "s_next (push_out o' m s) = s_next s"
  "s_tasks (push_out o' m s) = s_tasks s" "s_owner (push_out o' m s) = s_owner s"
  "s_pushed (push_out o' m s) = s_pushed s @ [(o', m)]" "s_sent (push_out o' m s) = s_sent s"
  "s_seen (push_out o' m s) = s_seen s"
  by (simp_all add: push_out_def)

lemma set_task_sel [simp]:
  "s_loop (set_task i t s) = s_loop s" "s_out (set_task i t s) = s_out s"
  "s_open (set_task i t s) = s_open s" "s_pending (set_task i t s) = s_pending s"
  "s_cells (set_task i t s) = s_cells s" "s_next (set_task i t s) = s_next s"
  "s_tasks (set_task i t s) = (s_tasks s)[i := t]" "s_owner (set_task i t s) = s_owner s"
  "s_pushed (set_task i t s) = s_pushed s" "s_sent (set_task i t s) = s_sent s"
  "s_seen (set_task i t s) = s_seen s"
  by (simp_all add: set_task_def)

lemma drop_pending_sel [simp]:
  "s_loop (drop_pending k s) = s_loop s" "s_out (drop_pending k s) = s_out s"
  "s_open (drop_pending k s) = s_open s" "s_pending (drop_pending k s) = (s_pending s)(k := None)"
  "s_next (drop_pending k s) = s_next s" "s_tasks (drop_pending k s) = s_tasks s"
  "s_owner (drop_pending k s) = s_owner s" "s_pushed (drop_pending k s) = s_pushed s"
  "s_sent (drop_pending k s) = s_sent s" "s_seen (drop_pending k s) = s_seen s"
  by (auto simp: drop_pending_def fun_eq_iff split: option.split)

lemma drop_pending_cells:
  "s_cells (drop_pending k s) c = (if s_pending s k = Some c then SenderDropped else s_cells s c)"
  by (auto simp: drop_pending_def split: option.split)

lemma leave_request_sel [simp]:
  "tk_msg (leave_request j r t) = tk_msg t" "tk_phase (leave_request j r t) = tk_phase t"
  "tk_stub (leave_request j r t) = tk_stub t" "tk_gate (leave_request j r t) = None"
  "tk_strands (leave_request j r t) = (tk_strands t)(j := Idle)"
  "tk_event (leave_request j r t) = tk_event t" "tk_log (leave_request j r t) = tk_log t @ [(j, r)]"
  "tk_late (leave_request j r t) = tk_late t" "tkey (leave_request j r t) = tkey t"
  by (simp_all add: leave_request_def tkey_def)

lemma new_task_sel [simp]:
  "tk_msg (new_task m) = m" "tk_phase (new_task m) = Spawned" "tk_stub (new_task m) = None"
  "tk_gate (new_task m) = None" "tk_strands (new_task m) j = Idle" "tk_event (new_task m) = None"
  "tk_log (new_task m) = []" "\<not> tk_late (new_task m)" "tkey (new_task m) = key_of m"
  by (simp_all add: new_task_def tkey_def)

lemma tkey_update [simp]:
  "tkey (t\<lparr>tk_phase := p\<rparr>) = tkey t" "tkey (t\<lparr>tk_stub := b\<rparr>) = tkey t"
  "tkey (t\<lparr>tk_gate := g\<rparr>) = tkey t" "tkey (t\<lparr>tk_strands := f\<rparr>) = tkey t"
  "tkey (t\<lparr>tk_event := e\<rparr>) = tkey t" "tkey (t\<lparr>tk_late := l\<rparr>) = tkey t"
  by (simp_all add: tkey_def)

lemma go_on_simps [simp]: "go_on None = Closed" "go_on (Some st) = Reading st"
  by (simp_all add: go_on_def)

subsection \<open>The gate\<close>

fun strand_cell :: "strand \<Rightarrow> nat option" where
  "strand_cell (SendReq c m) = Some c"
| "strand_cell (AwaitReply c) = Some c"
| "strand_cell _ = None"

definition gate_ok :: "task \<Rightarrow> bool" where
  "gate_ok t \<longleftrightarrow> (\<forall>j. strand_cell (tk_strands t j) \<noteq> None \<longleftrightarrow> tk_gate t = Some j)"

definition gate_inv :: "sys \<Rightarrow> bool" where
  "gate_inv s \<longleftrightarrow> (\<forall>i<length (s_tasks s). gate_ok (s_tasks s ! i))"

lemma gate_ok_frame [simp]:
  "gate_ok (t\<lparr>tk_phase := p\<rparr>) = gate_ok t" "gate_ok (t\<lparr>tk_stub := b\<rparr>) = gate_ok t"
  "gate_ok (t\<lparr>tk_event := e\<rparr>) = gate_ok t" "gate_ok (t\<lparr>tk_late := l\<rparr>) = gate_ok t"
  "gate_ok (new_task m)"
  by (simp_all add: gate_ok_def)

lemma gate_ok_holder: "gate_ok t \<Longrightarrow> strand_cell (tk_strands t j) = Some c \<Longrightarrow> tk_gate t = Some j"
  unfolding gate_ok_def by (metis option.distinct(1))

lemma gate_ok_not_holder: "gate_ok t \<Longrightarrow> strand_cell (tk_strands t j) = None \<Longrightarrow> tk_gate t \<noteq> Some j"
  unfolding gate_ok_def by metis

lemma gate_ok_unique:
  "gate_ok t \<Longrightarrow> strand_cell (tk_strands t j) = Some c \<Longrightarrow> strand_cell (tk_strands t j') = Some c' \<Longrightarrow> j = j'"
  by (metis gate_ok_holder option.inject)

lemma gate_ok_outside:
  "gate_ok t \<Longrightarrow> strand_cell (tk_strands t j) = None \<Longrightarrow> strand_cell x = None \<Longrightarrow>
   gate_ok (t\<lparr>tk_strands := (tk_strands t)(j := x)\<rparr>)"
  using gate_ok_not_holder [of t j] by (auto simp: gate_ok_def)

lemma gate_ok_inside:
  "gate_ok t \<Longrightarrow> strand_cell (tk_strands t j) = Some c \<Longrightarrow> strand_cell x \<noteq> None \<Longrightarrow>
   gate_ok (t\<lparr>tk_strands := (tk_strands t)(j := x)\<rparr>)"
  using gate_ok_holder [of t j c] by (auto simp: gate_ok_def)

lemma gate_ok_release:
  assumes "gate_ok t" and "strand_cell (tk_strands t j) = Some c \<or> tk_gate t = None"
  shows "gate_ok (t\<lparr>tk_strands := (tk_strands t)(j := Idle), tk_gate := None\<rparr>)"
    and "gate_ok (leave_request j r t)"
proof -
  have "strand_cell (tk_strands t j') = None" if "j' \<noteq> j" for j'
    using assms that by (metis gate_ok_def gate_ok_unique not_None_eq)
  then show "gate_ok (t\<lparr>tk_strands := (tk_strands t)(j := Idle), tk_gate := None\<rparr>)"
    and "gate_ok (leave_request j r t)" by (simp_all add: gate_ok_def)
qed

lemma gate_ok_acquire:
  "gate_ok t \<Longrightarrow> tk_gate t = None \<Longrightarrow>
   gate_ok (t\<lparr>tk_gate := Some j, tk_strands := (tk_strands t)(j := SendReq c m)\<rparr>)"
  by (auto simp: gate_ok_def)

lemmas gate_ok_intros = gate_ok_outside gate_ok_inside gate_ok_release gate_ok_acquire

lemma gate_inv_step:
  assumes "gate_inv s" and "sys_rel P meta a s s'"
  shows "gate_inv s'"
  using assms(2,1)
  by cases (simp_all add: gate_inv_def nth_list_update nth_append, auto intro: gate_ok_intros)

lemma gate_invariant:
  assumes "reachable P meta cc_id s"
  shows "gate_inv s"
  using assms
proof (induction rule: reachable_invariant)
  case (init d)
  show ?case by (simp add: gate_inv_def sys_init_def)
qed (rule gate_inv_step)

subsection \<open>Cells and routing\<close>

definition reply_kind :: "msg_type \<Rightarrow> bool" where
  "reply_kind t \<longleftrightarrow> t = MT_Response \<or> t = MT_Error"

definition cell_of_task :: "sys \<Rightarrow> nat \<Rightarrow> tx_key \<Rightarrow> bool" where
  "cell_of_task s c k \<longleftrightarrow> c < s_next s \<and> fst (s_owner s c) < length (s_tasks s)
     \<and> tkey (s_tasks s ! fst (s_owner s c)) = k"

definition strand_cells_inv :: "sys \<Rightarrow> bool" where
  "strand_cells_inv s \<longleftrightarrow> (\<forall>i<length (s_tasks s). \<forall>j c.
     strand_cell (tk_strands (s_tasks s ! i) j) = Some c \<longrightarrow> c < s_next s \<and> s_owner s c = (i, j))"

definition pending_inv :: "sys \<Rightarrow> bool" where
  "pending_inv s \<longleftrightarrow> (\<forall>k c. s_pending s k = Some c \<longrightarrow> cell_of_task s c k \<and> s_cells s c = Waiting)"

definition filled_inv :: "sys \<Rightarrow> bool" where
  "filled_inv s \<longleftrightarrow> (\<forall>c m. s_cells s c = Filled m \<longrightarrow> cell_of_task s c (key_of m) \<and> reply_kind (cm_kind m))
     \<and> (\<forall>c. s_next s \<le> c \<longrightarrow> s_cells s c = Waiting)"

lemma dispatch_route_iff: "dispatch st t = RouteResponse \<longleftrightarrow> st = Ready \<and> reply_kind t"
  by (cases t) (auto simp: dispatch_def reply_kind_def)

lemma cell_of_task_mono:
  assumes "sys_rel P meta a s s'" and "cell_of_task s c k"
  shows "cell_of_task s' c k"
  using assms by cases (auto simp: cell_of_task_def nth_list_update nth_append)

lemma strand_cells_step:
  assumes "strand_cells_inv s" and "sys_rel P meta a s s'"
  shows "strand_cells_inv s'"
  using assms(2,1)
  by cases (simp_all add: strand_cells_inv_def nth_list_update nth_append,
      auto simp: less_Suc_eq split: if_splits, metis strand_cell.simps(1))

lemma cell_of_task_key: "cell_of_task s c k \<Longrightarrow> cell_of_task s c k' \<Longrightarrow> k = k'"
  by (simp add: cell_of_task_def)

lemma pending_inj:
  "pending_inv s \<Longrightarrow> s_pending s k = Some c \<Longrightarrow> s_pending s k' = Some c \<Longrightarrow> k = k'"
  unfolding pending_inv_def using cell_of_task_key by blast

lemma pending_fresh: "pending_inv s \<Longrightarrow> s_pending s k = Some c \<Longrightarrow> c < s_next s"
  by (simp add: pending_inv_def cell_of_task_def)

text \<open>A pending entry of the next state was there before, or is the one just registered.\<close>

lemma pending_step:
  assumes "sys_rel P meta a s s'" and "s_pending s' k = Some c"
  shows "s_pending s k = Some c \<or> c = s_next s \<and> s_next s' = Suc c \<and> cell_of_task s' c k \<and> s_cells s' = s_cells s"
  using assms by cases (auto simp: cell_of_task_def split: if_splits)

text \<open>A cell changes only when its pending entry is taken out.\<close>

lemma cells_step:
  assumes "sys_rel P meta a s s'" and "s_cells s' c \<noteq> s_cells s c"
  shows "\<exists>k. s_pending s k = Some c \<and> s_pending s' k = None"
  using assms by cases (auto simp: drop_pending_cells split: if_splits)

lemma filled_step:
  assumes "sys_rel P meta a s s'" and "s_cells s' c = Filled m"
  shows "s_cells s c = Filled m \<or> s_pending s (key_of m) = Some c \<and> reply_kind (cm_kind m)"
  using assms by cases (auto simp: drop_pending_cells dispatch_route_iff split: if_splits)

lemma cells_inv_step:
  assumes inv: "pending_inv s" "filled_inv s" and rel: "sys_rel P meta a s s'"
  shows "pending_inv s'" and "filled_inv s'"
proof -
  have next_mono: "s_next s \<le> s_next s'" using rel by cases auto
  show "pending_inv s'"
    unfolding pending_inv_def
  proof (intro allI impI)
    fix k c assume p': "s_pending s' k = Some c"
    from pending_step [OF rel p'] show "cell_of_task s' c k \<and> s_cells s' c = Waiting"
    proof
      assume p: "s_pending s k = Some c"
      with inv(1) have c: "cell_of_task s c k" "s_cells s c = Waiting" by (simp_all add: pending_inv_def)
      have "s_cells s' c = s_cells s c"
        using cells_step [OF rel, of c] pending_inj [OF inv(1) p] p' by force
      with c cell_of_task_mono [OF rel] show ?thesis by auto
    qed (use inv(2) in \<open>auto simp: filled_inv_def\<close>)
  qed
  show "filled_inv s'"
    unfolding filled_inv_def
  proof (intro conjI allI impI)
    fix c m assume f: "s_cells s' c = Filled m"
    show "cell_of_task s' c (key_of m)" "reply_kind (cm_kind m)"
      using filled_step [OF rel f] inv cell_of_task_mono [OF rel, of c "key_of m"]
      by (auto simp: filled_inv_def pending_inv_def)
  next
    fix c assume "s_next s' \<le> c"
    with next_mono have c: "s_next s \<le> c" by simp
    then have "s_cells s c = Waiting" using inv(2) by (simp add: filled_inv_def)
    moreover have "s_pending s k \<noteq> Some c" for k using pending_fresh [OF inv(1), of k c] c by force
    ultimately show "s_cells s' c = Waiting" using cells_step [OF rel, of c] by metis
  qed
qed

lemma cells_invariant:
  assumes "reachable P meta cc_id s"
  shows "strand_cells_inv s \<and> pending_inv s \<and> filled_inv s"
  using assms
proof (induction rule: reachable_invariant)
  case (init d)
  show ?case by (simp add: strand_cells_inv_def pending_inv_def filled_inv_def sys_init_def)
next
  case (step s a s')
  then show ?case using strand_cells_step cells_inv_step by blast
qed

subsection \<open>What the user's code gets\<close>

lemma log_entry_received:
  assumes "strand_cells_inv s" "filled_inv s" "i < length (s_tasks s)"
    and "tk_strands (s_tasks s ! i) j = AwaitReply c" "s_cells s c = Filled m"
  shows "key_of m = tkey (s_tasks s ! i)" and "reply_kind (cm_kind m)"
proof -
  have "s_owner s c = (i, j)" using assms(1,3,4) by (auto simp: strand_cells_inv_def)
  moreover have "cell_of_task s c (key_of m)" "reply_kind (cm_kind m)" using assms(2,5) by (auto simp: filled_inv_def)
  ultimately show "key_of m = tkey (s_tasks s ! i)" and "reply_kind (cm_kind m)" by (auto simp: cell_of_task_def)
qed

text \<open>
  Each result of a call comes from a message received for the transaction, a RESPONSE or an ERROR, or
  from no message; and the messages behind the results are received in the order of the
  results, each used once.
\<close>

text \<open>The reply a task's call in flight can already receive.\<close>

definition held :: "sys \<Rightarrow> task \<Rightarrow> chaincode_message list" where
  "held s t = (case tk_gate t of None \<Rightarrow> [] | Some j \<Rightarrow> (case strand_cell (tk_strands t j) of
     None \<Rightarrow> []
   | Some c \<Rightarrow> (case s_cells s c of Filled m \<Rightarrow> [m] | _ \<Rightarrow> [])))"

text \<open>Where a result comes from: a message received for the transaction, or no message at all.\<close>

definition result_of :: "tx_key \<Rightarrow> chaincode_message option \<Rightarrow> shim_error + chaincode_message \<Rightarrow> bool" where
  "result_of k src r \<longleftrightarrow> (case src of
     Some m \<Rightarrow> key_of m = k \<and> (cm_kind m = MT_Response \<and> r = Inr m
        \<or> cm_kind m = MT_Error \<and> r = Inl (ErrPeer (from_utf8_lossy (cm_payload m))))
   | None \<Rightarrow> r = Inl ErrConnectionClosed \<or> r = Inl (in_flight_error (snd k)))"

definition delivered :: "chaincode_message option list \<Rightarrow> chaincode_message list" where
  "delivered srcs = concat (map (case_option [] (\<lambda>m. [m])) srcs)"

definition delivery_ok :: "chaincode_message list \<Rightarrow> chaincode_message list \<Rightarrow> task \<Rightarrow> bool" where
  "delivery_ok seen waiting t \<longleftrightarrow> (\<exists>srcs. list_all2 (\<lambda>src (j, r). result_of (tkey t) src r) srcs (tk_log t)
     \<and> subseq (delivered srcs @ waiting) seen)"

definition delivery_inv :: "sys \<Rightarrow> bool" where
  "delivery_inv s \<longleftrightarrow> (\<forall>i<length (s_tasks s). delivery_ok (s_seen s) (held s (s_tasks s ! i)) (s_tasks s ! i))"

lemma delivery_ok_log: "tk_log t = tk_log t' \<Longrightarrow> tkey t = tkey t' \<Longrightarrow> delivery_ok seen w t = delivery_ok seen w t'"
  by (simp add: delivery_ok_def)

lemma delivery_ok_mono: "delivery_ok seen w t \<Longrightarrow> delivery_ok (seen @ ms) w t"
  unfolding delivery_ok_def by (meson list_emb_append2 subseq_order.order_trans subseq_rev_drop_many)

lemma delivery_ok_drop: "delivery_ok seen w t \<Longrightarrow> delivery_ok seen [] t"
  unfolding delivery_ok_def by (metis append_Nil2 subseq_order.order_trans subseq_rev_drop_many subseq_order.order_refl)

lemma delivery_ok_arrives: "delivery_ok seen [] t \<Longrightarrow> delivery_ok (seen @ [m]) [m] t"
  unfolding delivery_ok_def by (metis append_Nil2 list_emb_append_mono subseq_order.order_refl)

lemma delivery_ok_result:
  assumes "delivery_ok seen w t" and "result_of (tkey t) src r" and "w = delivered [src] \<or> src = None"
  shows "delivery_ok seen [] (leave_request j r t)"
proof -
  obtain srcs where srcs: "list_all2 (\<lambda>src (j, r). result_of (tkey t) src r) srcs (tk_log t)" "subseq (delivered srcs @ w) seen"
    using assms(1) by (auto simp: delivery_ok_def)
  have "list_all2 (\<lambda>src (j, r). result_of (tkey t) src r) (srcs @ [src]) (tk_log t @ [(j, r)])"
    using srcs(1) assms(2) by (simp add: list_all2_appendI)
  moreover have "subseq (delivered (srcs @ [src])) seen"
    using assms(3) srcs(2) delivery_ok_drop by (auto simp: delivered_def) (metis append_Nil2 subseq_order.order_trans subseq_rev_drop_many subseq_order.order_refl)
  ultimately show ?thesis unfolding delivery_ok_def by (intro exI [of _ "srcs @ [src]"]) simp
qed

lemma held_sel [simp]:
  "held s (t\<lparr>tk_phase := p\<rparr>) = held s t" "held s (t\<lparr>tk_stub := b\<rparr>) = held s t"
  "held s (t\<lparr>tk_event := e\<rparr>) = held s t" "held s (t\<lparr>tk_late := l\<rparr>) = held s t" "held s (new_task m) = []"
  "held s (leave_request j r t) = []"
  by (simp_all add: held_def split: option.split)

text \<open>Only the arrival of a reply puts a message into a cell that is waited for.\<close>

lemma held_step:
  assumes "sys_rel P meta a s s'" and "pending_inv s"
  shows "held s' t = held s t \<or> held s t = [] \<and> (\<exists>m. held s' t = [m] \<and> s_seen s' = s_seen s @ [m])"
proof (cases "\<exists>j c. tk_gate t = Some j \<and> strand_cell (tk_strands t j) = Some c")
  case True
  then obtain j c where c: "tk_gate t = Some j" "strand_cell (tk_strands t j) = Some c" by blast
  have w: "s_cells s c = Waiting" if "s_pending s k = Some c" for k
    using assms(2) that by (simp add: pending_inv_def)
  from assms(1) show ?thesis
    by cases (auto simp: held_def c drop_pending_cells w split: option.splits)
qed (auto simp: held_def split: option.splits)

lemma held_in_flight:
  assumes "gate_ok t" and "tk_strands t j = AwaitReply c" and "s_cells s c = Filled m"
  shows "held s t = [m]"
  using gate_ok_holder [OF assms(1), of j c] assms(2,3) by (simp add: held_def)

lemma held_strand:
  "strand_cell x = strand_cell (tk_strands t j) \<Longrightarrow> held s (t\<lparr>tk_strands := (tk_strands t)(j := x)\<rparr>) = held s t"
  "held s (t\<lparr>tk_strands := f, tk_gate := None\<rparr>) = []"
  by (auto simp: held_def split: option.split)

lemma result_without_message:
  assumes "r = Inl ErrConnectionClosed \<or> r = Inl (in_flight_error (snd (tkey t)))"
  shows "\<exists>j' r'. leave_request j r t = leave_request j' r' t \<and> (\<exists>src. result_of (tkey t) src r' \<and> (held s t = delivered [src] \<or> src = None))"
  using assms by (intro exI [of _ j] exI [of _ r]) (auto simp: result_of_def intro: exI [of _ None])

text \<open>What a step does to one task: its log stays, or gets the result of the call in flight.\<close>

lemma task_step:
  assumes rel: "sys_rel P meta a s s'" and i: "i < length (s_tasks s)"
    and inv: "gate_inv s" "strand_cells_inv s" "filled_inv s"
  defines "t \<equiv> s_tasks s ! i" and "t' \<equiv> s_tasks s' ! i"
  shows "tkey t' = tkey t \<and>
    (tk_log t' = tk_log t \<and> (held s t' = held s t \<or> held s t' = [])
     \<or> s_seen s' = s_seen s \<and> (\<exists>j r src. t' = leave_request j r t \<and> result_of (tkey t) src r
         \<and> (held s t = delivered [src] \<or> src = None)))"
  using rel
proof cases
  case (received i' tk j c m)
  then show ?thesis
  proof (cases "i' = i")
    case True
    with received have at: "tk_strands t j = AwaitReply c" "s_cells s c = Filled m" by (simp_all add: t_def)
    have "held s t = [m]" using held_in_flight [OF _ at] inv(1) i by (simp add: gate_inv_def t_def)
    moreover have "result_of (tkey t) (Some m) (classify_reply m)"
      using log_entry_received [OF inv(2,3) i at [unfolded t_def]] by (auto simp: result_of_def classify_reply_def reply_kind_def t_def)
    ultimately have "\<exists>j r src. t' = leave_request j r t \<and> result_of (tkey t) src r \<and> (held s t = delivered [src] \<or> src = None)"
      using received True i
      by (intro exI [of _ j] exI [of _ "classify_reply m"] exI [of _ "Some m"]) (simp add: t_def t'_def delivered_def)
    then show ?thesis using received by (auto simp: t_def)
  qed (simp add: t_def t'_def)
next
  case (registered i' tk j t0 b c d)
  have "s_cells s (s_next s) = Waiting" using inv(3) by (simp add: filled_inv_def)
  with registered i show ?thesis by (simp add: t_def t'_def nth_list_update held_def)
qed (use i result_without_message in \<open>auto simp: t_def t'_def nth_list_update nth_append held_strand\<close>)

text \<open>A step of one task, the rest of the state as before.\<close>

lemma delivery_step:
  assumes rel: "sys_rel P meta a s s'" and inv: "delivery_inv s" "gate_inv s" "strand_cells_inv s" "pending_inv s" "filled_inv s"
  shows "delivery_inv s'"
  unfolding delivery_inv_def
proof (intro allI impI)
  fix i assume i: "i < length (s_tasks s')"
  have seen: "s_seen s' = s_seen s \<or> (\<exists>m. s_seen s' = s_seen s @ [m])" using rel by cases auto
  let ?t = "s_tasks s ! i" and ?t' = "s_tasks s' ! i"
  show "delivery_ok (s_seen s') (held s' ?t') ?t'"
  proof (cases "i < length (s_tasks s)")
    case new: False
    with rel i have "tk_log ?t' = [] \<and> held s' ?t' = []" by cases (auto simp: nth_append)
    then show ?thesis by (simp add: delivery_ok_def delivered_def)
  next
    case True
    then have old: "delivery_ok (s_seen s) (held s ?t) ?t" using inv(1) by (simp add: delivery_inv_def)
    from task_step [OF rel True inv(2,3,5)] consider
        (same) "tkey ?t' = tkey ?t" "tk_log ?t' = tk_log ?t" "held s ?t' = held s ?t \<or> held s ?t' = []"
      | (result) j r src where "s_seen s' = s_seen s" "?t' = leave_request j r ?t" "result_of (tkey ?t) src r"
          "held s ?t = delivered [src] \<or> src = None" by auto
    then show ?thesis
    proof cases
      case same
      then have before: "delivery_ok (s_seen s) (held s ?t') ?t'"
        using old delivery_ok_drop delivery_ok_log [of ?t' ?t] by metis
      from held_step [OF rel inv(4), of ?t'] show ?thesis
        using before seen delivery_ok_mono delivery_ok_arrives by metis
    next
      case result
      then show ?thesis using delivery_ok_result [OF old] by simp
    qed
  qed
qed


lemma delivery_invariant:
  assumes "reachable P meta cc_id s"
  shows "delivery_inv s"
  using assms
proof (induction rule: reachable_invariant)
  case (init d)
  show ?case by (simp add: delivery_inv_def sys_init_def)
next
  case (step s a s')
  then show ?case using delivery_step gate_invariant cells_invariant by blast
qed

subsection \<open>What is sent\<close>

text \<open>The messages each part of the connection may send.\<close>

fun sent_ok :: "sys \<Rightarrow> origin \<Rightarrow> chaincode_message \<Rightarrow> bool" where
  "sent_ok s FromLoop m = (cm_kind m \<in> {MT_Register, MT_Keepalive, MT_Error})"
| "sent_ok s (FromTask i) m = (i < length (s_tasks s) \<and> key_of m = tkey (s_tasks s ! i)
     \<and> cm_kind m \<in> {MT_Completed, MT_Error})"
| "sent_ok s (FromStrand i j) m = (i < length (s_tasks s) \<and> key_of m = tkey (s_tasks s ! i)
     \<and> tk_stub (s_tasks s ! i) \<noteq> None)"

definition stub_inv :: "sys \<Rightarrow> bool" where
  "stub_inv s \<longleftrightarrow> (\<forall>i<length (s_tasks s). \<forall>j.
     tk_strands (s_tasks s ! i) j \<noteq> Idle \<longrightarrow> tk_stub (s_tasks s ! i) \<noteq> None)"

definition sending_inv :: "sys \<Rightarrow> bool" where
  "sending_inv s \<longleftrightarrow> (\<forall>i<length (s_tasks s). \<forall>m.
     tk_phase (s_tasks s ! i) = Sending m \<longrightarrow> sent_ok s (FromTask i) m)"

definition asking_inv :: "sys \<Rightarrow> bool" where
  "asking_inv s \<longleftrightarrow> (\<forall>i<length (s_tasks s). \<forall>j c m.
     tk_strands (s_tasks s ! i) j = SendReq c m \<longrightarrow> key_of m = tkey (s_tasks s ! i))"

definition loop_msg_inv :: "sys \<Rightarrow> bool" where
  "loop_msg_inv s \<longleftrightarrow> (\<forall>m ok err. s_loop s = LoopSend m ok err \<longrightarrow> sent_ok s FromLoop m)"

definition pushed_inv :: "sys \<Rightarrow> bool" where
  "pushed_inv s \<longleftrightarrow> (\<forall>(o', m)\<in>set (s_pushed s). sent_ok s o' m)"

lemma stub_inv_step:
  assumes "sys_rel P meta a s s'" and "stub_inv s"
  shows "stub_inv s'"
  using assms
  by cases
    (auto simp: stub_inv_def nth_list_update nth_append)

lemma sending_inv_step:
  assumes "sys_rel P meta a s s'" and "sending_inv s"
  shows "sending_inv s'"
  using assms
  by cases
    (auto simp: sending_inv_def nth_list_update nth_append tkey_def dest: prepare_answer split: if_splits)

lemma asking_inv_step:
  assumes "sys_rel P meta a s s'" and "asking_inv s"
  shows "asking_inv s'"
  using assms
  by cases
    (auto simp: asking_inv_def nth_list_update nth_append split: if_splits)

lemma loop_msg_inv_step:
  assumes "sys_rel P meta a s s'" and "loop_msg_inv s"
  shows "loop_msg_inv s'"
  using assms
  by cases (auto simp: loop_msg_inv_def go_on_def split: option.splits)

lemma sent_ok_mono:
  assumes "sys_rel P meta a s s'" and "sent_ok s o' m"
  shows "sent_ok s' o' m"
  using assms by (cases o'; cases) (auto simp: nth_list_update nth_append)

text \<open>What a step adds to the messages sent.\<close>

lemma pushed_step:
  assumes "sys_rel P meta a s s'"
  shows "s_pushed s' = s_pushed s \<or> (\<exists>o' m. s_pushed s' = s_pushed s @ [(o', m)] \<and> s_open s' \<and>
     (case o' of
        FromLoop \<Rightarrow> (\<exists>ok err. s_loop s = LoopSend m ok err)
      | FromTask i \<Rightarrow> i < length (s_tasks s) \<and> tk_phase (s_tasks s ! i) = Sending m \<and> tk_phase (s_tasks s' ! i) = Finished True
      | FromStrand i j \<Rightarrow> i < length (s_tasks s) \<and> (\<exists>c. tk_strands (s_tasks s ! i) j = SendReq c m)))"
  using assms by cases auto

definition sent_inv :: "sys \<Rightarrow> bool" where
  "sent_inv s \<longleftrightarrow> stub_inv s \<and> sending_inv s \<and> asking_inv s \<and> loop_msg_inv s \<and> pushed_inv s"

lemma pushed_inv_step:
  assumes rel: "sys_rel P meta a s s'" and inv: "sent_inv s"
  shows "pushed_inv s'"
proof -
  have old: "\<forall>(o', m)\<in>set (s_pushed s). sent_ok s' o' m"
    using inv sent_ok_mono [OF rel] by (fastforce simp: sent_inv_def pushed_inv_def)
  from pushed_step [OF rel] show ?thesis
  proof
    assume "s_pushed s' = s_pushed s"
    with old show ?thesis by (simp add: pushed_inv_def)
  next
    assume "\<exists>o' m. s_pushed s' = s_pushed s @ [(o', m)] \<and> s_open s' \<and>
     (case o' of
        FromLoop \<Rightarrow> (\<exists>ok err. s_loop s = LoopSend m ok err)
      | FromTask i \<Rightarrow> i < length (s_tasks s) \<and> tk_phase (s_tasks s ! i) = Sending m \<and> tk_phase (s_tasks s' ! i) = Finished True
      | FromStrand i j \<Rightarrow> i < length (s_tasks s) \<and> (\<exists>c. tk_strands (s_tasks s ! i) j = SendReq c m))"
    then obtain o' m where new: "s_pushed s' = s_pushed s @ [(o', m)]" and src: "case o' of
        FromLoop \<Rightarrow> (\<exists>ok err. s_loop s = LoopSend m ok err)
      | FromTask i \<Rightarrow> i < length (s_tasks s) \<and> tk_phase (s_tasks s ! i) = Sending m \<and> tk_phase (s_tasks s' ! i) = Finished True
      | FromStrand i j \<Rightarrow> i < length (s_tasks s) \<and> (\<exists>c. tk_strands (s_tasks s ! i) j = SendReq c m)" by blast
    have "sent_ok s o' m"
      using src inv
      by (cases o') (fastforce simp: sent_inv_def loop_msg_inv_def sending_inv_def asking_inv_def stub_inv_def)+
    with old new sent_ok_mono [OF rel] show ?thesis by (auto simp: pushed_inv_def)
  qed
qed

lemma sent_invariant:
  assumes "reachable P meta cc_id s"
  shows "sent_inv s"
  using assms
proof (induction rule: reachable_invariant)
  case (init d)
  show ?case
    by (simp add: sent_inv_def stub_inv_def sending_inv_def asking_inv_def loop_msg_inv_def pushed_inv_def sys_init_def)
next
  case (step s a s')
  then show ?case
    by (simp add: sent_inv_def stub_inv_step sending_inv_step asking_inv_step loop_msg_inv_step pushed_inv_step)
qed

subsection \<open>The handshake\<close>

fun conn_phase :: "loop \<Rightarrow> conn_state option" where
  "conn_phase (LoopSend m ok err) = ok"
| "conn_phase (Reading st) = Some st"
| "conn_phase Closed = None"

text \<open>The message types the loop has seen, keepalives aside.\<close>

definition handshake :: "sys \<Rightarrow> msg_type list" where
  "handshake s = filter (\<lambda>t. t \<noteq> MT_Keepalive) (map cm_kind (s_seen s))"

definition is_tx :: "chaincode_message \<Rightarrow> bool" where
  "is_tx m \<longleftrightarrow> cm_kind m = MT_Init \<or> cm_kind m = MT_Transaction"

fun state_after :: "msg_type list \<Rightarrow> conn_state \<Rightarrow> bool" where
  "state_after ts Created \<longleftrightarrow> ts = []"
| "state_after ts Established \<longleftrightarrow> ts = [MT_Registered]"
| "state_after ts Ready \<longleftrightarrow> (\<exists>us. ts = MT_Registered # MT_Ready # us
     \<and> set us \<subseteq> {MT_Init, MT_Transaction, MT_Response, MT_Error})"

definition handshake_inv :: "sys \<Rightarrow> bool" where
  "handshake_inv s \<longleftrightarrow>
     (\<forall>st. conn_phase (s_loop s) = Some st \<longrightarrow> state_after (handshake s) st \<and> map tk_msg (s_tasks s) = filter is_tx (s_seen s))
   \<and> (s_tasks s \<noteq> [] \<longrightarrow> (\<exists>us. handshake s = MT_Registered # MT_Ready # us))
   \<and> (\<forall>m ok err. s_loop s = LoopSend m ok err \<longrightarrow> err = None \<or> err = ok)"

lemma dispatch_cases:
  "dispatch st t = Advance st' \<longleftrightarrow> st = Created \<and> t = MT_Registered \<and> st' = Established
     \<or> st = Established \<and> t = MT_Ready \<and> st' = Ready"
  "dispatch st t = EchoKeepalive \<longleftrightarrow> t = MT_Keepalive"
  "dispatch st t = SpawnTransaction \<longleftrightarrow> st = Ready \<and> (t = MT_Init \<or> t = MT_Transaction)"
  by (auto simp: dispatch_def)

lemma handshake_sel [simp]:
  "handshake (set_task i t s) = handshake s" "handshake (push_out o' m s) = handshake s"
  "handshake (drop_pending k s) = handshake s" "handshake (s\<lparr>s_loop := l\<rparr>) = handshake s"
  "handshake (s\<lparr>s_tasks := ts\<rparr>) = handshake s" "handshake (s\<lparr>s_pending := p\<rparr>) = handshake s"
  "handshake (s\<lparr>s_cells := c\<rparr>) = handshake s" "handshake (s\<lparr>s_out := ou\<rparr>) = handshake s"
  "handshake (s\<lparr>s_open := b\<rparr>) = handshake s" "handshake (s\<lparr>s_sent := se\<rparr>) = handshake s"
  "handshake (s\<lparr>s_next := n\<rparr>) = handshake s" "handshake (s\<lparr>s_owner := ow\<rparr>) = handshake s"
  "handshake (s\<lparr>s_seen := xs @ [m]\<rparr>) =
     handshake (s\<lparr>s_seen := xs\<rparr>) @ (if cm_kind m = MT_Keepalive then [] else [cm_kind m])"
  "handshake (s\<lparr>s_seen := s_seen s\<rparr>) = handshake s"
  by (simp_all add: handshake_def)

lemma map_update_same: "i < length xs \<Longrightarrow> f y = f (xs ! i) \<Longrightarrow> map f (xs[i := y]) = map f xs"
  by (simp add: map_update list_update_same_conv)

lemma handshake_inv_step:
  assumes "sys_rel P meta a s s'" and "handshake_inv s"
  shows "handshake_inv s'"
  using assms
  by cases (auto simp: handshake_inv_def map_update_same dispatch_cases dispatch_route_iff is_tx_def reply_kind_def
      go_on_def split: option.splits)

lemma handshake_invariant:
  assumes "reachable P meta cc_id s"
  shows "handshake_inv s"
  using assms
proof (induction rule: reachable_invariant)
  case (init d)
  show ?case by (simp add: handshake_inv_def sys_init_def handshake_def)
qed (rule handshake_inv_step)

text \<open>REGISTER is the first message sent, and no other part of the connection sends it.\<close>

definition register_inv :: "prost \<Rightarrow> str \<Rightarrow> sys \<Rightarrow> bool" where
  "register_inv P cc_id s \<longleftrightarrow>
     (s_pushed s = [] \<and> s_tasks s = [] \<and>
        (s_loop s = Closed \<or> (\<exists>d. s_loop s = LoopSend (register_message P d cc_id) (Some Created) None)))
   \<or> (\<exists>d rest. s_pushed s = (FromLoop, register_message P d cc_id) # rest
        \<and> (\<forall>m. (FromLoop, m) \<in> set rest \<longrightarrow> cm_kind m \<noteq> MT_Register)
        \<and> (\<forall>m ok err. s_loop s = LoopSend m ok err \<longrightarrow> cm_kind m \<noteq> MT_Register))"

lemma register_inv_step:
  assumes "sys_rel P meta a s s'" and "register_inv P cc_id s"
  shows "register_inv P cc_id s'"
  using assms by cases (auto simp: register_inv_def go_on_def split: option.splits)

lemma register_invariant:
  assumes "reachable P meta cc_id s"
  shows "register_inv P cc_id s"
  using assms
proof (induction rule: reachable_invariant)
  case (init d)
  show ?case by (auto simp: register_inv_def sys_init_def)
qed (rule register_inv_step)

subsection \<open>The out channel\<close>

text \<open>The channel is bounded and first-in first-out: while it is open, what was sent is what the
  transport took followed by what waits.\<close>

definition channel_inv :: "sys \<Rightarrow> bool" where
  "channel_inv s \<longleftrightarrow> length (s_out s) \<le> OUT_CAPACITY \<and> (\<exists>lost. s_pushed s = s_sent s @ s_out s @ lost \<and> (s_open s \<longrightarrow> lost = []))
     \<and> (\<not> s_open s \<longrightarrow> s_out s = [])"

lemma channel_inv_step:
  assumes "sys_rel P meta a s s'" and "channel_inv s"
  shows "channel_inv s'"
  using assms by cases (auto simp: channel_inv_def out_full_def)

lemma channel_invariant:
  assumes "reachable P meta cc_id s"
  shows "channel_inv s"
  using assms
proof (induction rule: reachable_invariant)
  case (init d)
  show ?case by (simp add: channel_inv_def sys_init_def)
qed (rule channel_inv_step)

subsection \<open>Terminal messages\<close>

text \<open>The terminal messages task \<open>i\<close> has sent.\<close>

definition terminals :: "sys \<Rightarrow> nat \<Rightarrow> chaincode_message list" where
  "terminals s i = map snd (filter (\<lambda>om. fst om = FromTask i) (s_pushed s))"

lemma terminals_sel [simp]:
  "terminals (set_task j t s) i = terminals s i"
  "terminals (push_out o' m s) i = terminals s i @ (if o' = FromTask i then [m] else [])"
  "terminals (drop_pending k s) i = terminals s i" "terminals (s\<lparr>s_loop := l\<rparr>) i = terminals s i"
  "terminals (s\<lparr>s_tasks := ts\<rparr>) i = terminals s i" "terminals (s\<lparr>s_pending := p\<rparr>) i = terminals s i"
  "terminals (s\<lparr>s_cells := c\<rparr>) i = terminals s i" "terminals (s\<lparr>s_out := ou\<rparr>) i = terminals s i"
  "terminals (s\<lparr>s_open := b\<rparr>) i = terminals s i" "terminals (s\<lparr>s_sent := se\<rparr>) i = terminals s i"
  "terminals (s\<lparr>s_next := n\<rparr>) i = terminals s i" "terminals (s\<lparr>s_owner := ow\<rparr>) i = terminals s i"
  "terminals (s\<lparr>s_seen := xs\<rparr>) i = terminals s i"
  by (simp_all add: terminals_def)

text \<open>The terminal messages so far, by phase; a task that started the user's code ends with
  COMPLETED.\<close>

fun terminal_ok :: "bool \<Rightarrow> chaincode_message list \<Rightarrow> (bool \<times> stub) option \<Rightarrow> phase \<Rightarrow> bool" where
  "terminal_ok op ms st Spawned \<longleftrightarrow> ms = [] \<and> st = None"
| "terminal_ok op ms st Running \<longleftrightarrow> ms = [] \<and> st \<noteq> None"
| "terminal_ok op ms st (Joined r) \<longleftrightarrow> ms = [] \<and> st \<noteq> None"
| "terminal_ok op ms st (Sending m) \<longleftrightarrow> ms = [] \<and> (st \<noteq> None \<longrightarrow> cm_kind m = MT_Completed)"
| "terminal_ok op ms st (Finished sent) \<longleftrightarrow>
     (if sent then \<exists>m. ms = [m] \<and> (st \<noteq> None \<longrightarrow> cm_kind m = MT_Completed) else ms = [] \<and> \<not> op)"

definition terminal_inv :: "sys \<Rightarrow> bool" where
  "terminal_inv s \<longleftrightarrow> (\<forall>i<length (s_tasks s).
       terminal_ok (s_open s) (terminals s i) (tk_stub (s_tasks s ! i)) (tk_phase (s_tasks s ! i)))
     \<and> (\<forall>i\<ge>length (s_tasks s). terminals s i = [])"

lemma terminal_ok_closed: "terminal_ok op ms st p \<Longrightarrow> terminal_ok False ms st p"
  by (cases p) (auto split: if_splits)

lemma terminal_inv_step:
  assumes "sys_rel P meta a s s'" and "terminal_inv s"
  shows "terminal_inv s'"
  using assms
  by cases (simp_all add: terminal_inv_def nth_list_update nth_append, auto intro: terminal_ok_closed)

lemma terminal_invariant:
  assumes "reachable P meta cc_id s"
  shows "terminal_inv s"
  using assms
proof (induction rule: reachable_invariant)
  case (init d)
  show ?case by (simp add: terminal_inv_def sys_init_def terminals_def)
qed (rule terminal_inv_step)

subsection \<open>No leaked pending entries\<close>

text \<open>An entry belongs to a task that has not cleaned up yet, or was made by a strand that
  outlived the task's own code.\<close>

definition leak_inv :: "sys \<Rightarrow> bool" where
  "leak_inv s \<longleftrightarrow> (\<forall>k c. s_pending s k = Some c \<longrightarrow>
     (let t = s_tasks s ! fst (s_owner s c) in before_clean_up (tk_phase t) \<or> tk_late t))"

lemma leak_inv_step:
  assumes rel: "sys_rel P meta a s s'" and inv: "leak_inv s" "pending_inv s"
  shows "leak_inv s'"
  unfolding leak_inv_def
proof (intro allI impI)
  fix k c assume p': "s_pending s' k = Some c"
  show "let t = s_tasks s' ! fst (s_owner s' c) in before_clean_up (tk_phase t) \<or> tk_late t"
  proof (cases "s_pending s k = Some c")
    case True
    then have old: "let t = s_tasks s ! fst (s_owner s c) in before_clean_up (tk_phase t) \<or> tk_late t"
      and own: "fst (s_owner s c) < length (s_tasks s)" "tkey (s_tasks s ! fst (s_owner s c)) = k" "c < s_next s"
      using inv by (simp_all add: leak_inv_def pending_inv_def cell_of_task_def)
    from rel old own p' show ?thesis
      by cases (auto simp: Let_def nth_list_update nth_append split: if_splits)
  next
    case False
    with rel p' show ?thesis by cases (auto simp: Let_def split: if_splits)
  qed
qed

lemma leak_invariant:
  assumes "reachable P meta cc_id s"
  shows "leak_inv s"
  using assms
proof (induction rule: reachable_invariant)
  case (init d)
  show ?case by (simp add: leak_inv_def sys_init_def)
next
  case (step s a s')
  then show ?case using cells_invariant leak_inv_step by blast
qed

end
