(* ===== verification/System_Order.thy ===== *)
theory System_Order imports System_Inv
begin

section \<open>Orderly runs: each request gets its own reply\<close>

text \<open>
  Runs in which the peer keeps its side of the protocol (it answers a request once, after it
  was sent, and uses a transaction id once per connection and stays connected) and the user's code keeps
  its own (a call that holds the gate is not dropped half-way, and nothing is in flight when the task cleans up).
  In these runs the results of a transaction's ledger calls are exactly the peer's replies
  for its key, in order: the calls of concurrent strands are serialized by the gate, no reply
  goes astray, and no call is refused.
\<close>

definition replies :: "sys \<Rightarrow> tx_key \<Rightarrow> chaincode_message list" where
  "replies s k = filter (\<lambda>m. reply_kind (cm_kind m) \<and> key_of m = k) (s_seen s)"

fun from_strand :: "origin \<Rightarrow> bool" where
  "from_strand (FromStrand i j) = True"
| "from_strand _ = False"

definition requests :: "sys \<Rightarrow> tx_key \<Rightarrow> nat" where
  "requests s k = length (filter (\<lambda>(o', m). from_strand o' \<and> key_of m = k) (s_pushed s))"

fun orderly_action :: "sys \<Rightarrow> action \<Rightarrow> bool" where
  "orderly_action s (Inbound d m) \<longleftrightarrow>
     (is_tx m \<longrightarrow> key_of m \<notin> tkey ` set (s_tasks s))
   \<and> (reply_kind (cm_kind m) \<longrightarrow> length (replies s (key_of m)) < requests s (key_of m))"
| "orderly_action s PeerGone \<longleftrightarrow> False"
| "orderly_action s (Cancel i j) \<longleftrightarrow> strand_cell (tk_strands (s_tasks s ! i) j) = None"
| "orderly_action s (CleanUp d i) \<longleftrightarrow> tk_gate (s_tasks s ! i) = None"
| "orderly_action s _ \<longleftrightarrow> True"

inductive orderly :: "prost \<Rightarrow> metadata_reply \<Rightarrow> str \<Rightarrow> sys \<Rightarrow> bool" for P meta cc_id where
  init: "orderly P meta cc_id (sys_init P d cc_id)"
| step: "orderly P meta cc_id s \<Longrightarrow> orderly_action s a \<Longrightarrow> sys_step P meta a s = Some s' \<Longrightarrow> orderly P meta cc_id s'"

lemma orderly_reachable: "orderly P meta cc_id s \<Longrightarrow> reachable P meta cc_id s"
  by (induction rule: orderly.induct) (auto intro: reachable.intros)

text \<open>The state of one transaction: between calls, sending, waiting, or answered.\<close>

definition order_ok :: "nat option \<Rightarrow> (nat \<Rightarrow> cell) \<Rightarrow> task \<Rightarrow> chaincode_message list \<Rightarrow> nat \<Rightarrow> bool" where
  "order_ok pk cells t r q \<longleftrightarrow> (case tk_gate t of
      None \<Rightarrow> pk = None \<and> length r = q \<and> map snd (tk_log t) = map classify_reply r
    | Some j \<Rightarrow> (case tk_strands t j of
        SendReq c m \<Rightarrow> pk = Some c \<and> length r = q \<and> map snd (tk_log t) = map classify_reply r
      | AwaitReply c \<Rightarrow>
          pk = Some c \<and> q = Suc (length r) \<and> map snd (tk_log t) = map classify_reply r
        \<or> (\<exists>m r'. pk = None \<and> cells c = Filled m \<and> r = r' @ [m] \<and> q = length r
              \<and> map snd (tk_log t) = map classify_reply r')
      | _ \<Rightarrow> False))"

definition order_inv :: "sys \<Rightarrow> bool" where
  "order_inv s \<longleftrightarrow> s_open s \<and> distinct (map tkey (s_tasks s))
   \<and> (\<forall>i<length (s_tasks s). let t = s_tasks s ! i in
        order_ok (s_pending s (tkey t)) (s_cells s) t (replies s (tkey t)) (requests s (tkey t)))
   \<and> (\<forall>k. k \<notin> tkey ` set (s_tasks s) \<longrightarrow> s_pending s k = None \<and> replies s k = [] \<and> requests s k = 0)"

lemma replies_sel [simp]:
  "replies (set_task i t s) k = replies s k" "replies (push_out o' m s) k = replies s k"
  "replies (drop_pending k' s) k = replies s k" "replies (s\<lparr>s_loop := l\<rparr>) k = replies s k"
  "replies (s\<lparr>s_tasks := ts\<rparr>) k = replies s k" "replies (s\<lparr>s_pending := p\<rparr>) k = replies s k"
  "replies (s\<lparr>s_cells := c\<rparr>) k = replies s k" "replies (s\<lparr>s_out := ou\<rparr>) k = replies s k"
  "replies (s\<lparr>s_sent := se\<rparr>) k = replies s k"
  "replies (s\<lparr>s_next := n\<rparr>) k = replies s k" "replies (s\<lparr>s_owner := ow\<rparr>) k = replies s k"
  "replies (s\<lparr>s_seen := s_seen s @ [m]\<rparr>) k =
     replies s k @ (if reply_kind (cm_kind m) \<and> key_of m = k then [m] else [])"
  by (simp_all add: replies_def)

lemma requests_sel [simp]:
  "requests (set_task i t s) k = requests s k"
  "requests (push_out o' m s) k = requests s k + (if from_strand o' \<and> key_of m = k then 1 else 0)"
  "requests (drop_pending k' s) k = requests s k" "requests (s\<lparr>s_loop := l\<rparr>) k = requests s k"
  "requests (s\<lparr>s_tasks := ts\<rparr>) k = requests s k" "requests (s\<lparr>s_pending := p\<rparr>) k = requests s k"
  "requests (s\<lparr>s_cells := c\<rparr>) k = requests s k" "requests (s\<lparr>s_out := ou\<rparr>) k = requests s k"
  "requests (s\<lparr>s_sent := se\<rparr>) k = requests s k"
  "requests (s\<lparr>s_next := n\<rparr>) k = requests s k" "requests (s\<lparr>s_owner := ow\<rparr>) k = requests s k"
  "requests (s\<lparr>s_seen := xs\<rparr>) k = requests s k"
  by (simp_all add: requests_def)

lemma order_ok_frame [simp]:
  "order_ok pk cells (t\<lparr>tk_phase := p\<rparr>) = order_ok pk cells t"
  "order_ok pk cells (t\<lparr>tk_stub := b\<rparr>) = order_ok pk cells t"
  "order_ok pk cells (t\<lparr>tk_event := e\<rparr>) = order_ok pk cells t"
  "order_ok pk cells (t\<lparr>tk_late := l\<rparr>) = order_ok pk cells t"
  by (simp_all add: fun_eq_iff order_ok_def cong: option.case_cong strand.case_cong)

text \<open>Filling or dropping a cell that still waits leaves the other transactions alone.\<close>

lemma order_ok_cells:
  assumes "order_ok pk cells t r q" and "cells c = Waiting"
  shows "order_ok pk (cells(c := x)) t r q"
  using assms by (auto simp: order_ok_def split: option.splits strand.splits)

lemma order_ok_other:
  assumes "order_ok pk cells t r q" "gate_ok t" "strand_cell (tk_strands t j) = None" "strand_cell x = None"
  shows "order_ok pk cells (t\<lparr>tk_strands := (tk_strands t)(j := x)\<rparr>) r q"
proof -
  have "tk_gate t \<noteq> Some j" using assms(2,3) by (rule gate_ok_not_holder)
  with assms(1) show ?thesis
    by (auto simp: order_ok_def split: option.splits strand.splits)
qed

lemma order_ok_new: "order_ok None cells (new_task m) [] 0"
  by (simp add: order_ok_def)

lemma order_ok_filled:
  assumes "order_ok (Some c) cells t r q" and "length r < q"
  shows "order_ok None (cells(c := Filled m)) t (r @ [m]) q"
  using assms by (auto simp: order_ok_def split: option.splits strand.splits)

lemma order_ok_sent:
  assumes "order_ok pk cells t r q" "gate_ok t" "tk_strands t j = SendReq c m"
  shows "order_ok pk cells (t\<lparr>tk_strands := (tk_strands t)(j := AwaitReply c)\<rparr>) r (Suc q)"
proof -
  have "tk_gate t = Some j" using gate_ok_holder [OF assms(2), of j c] assms(3) by simp
  with assms(1,3) show ?thesis by (auto simp: order_ok_def)
qed

lemma order_ok_received:
  assumes "order_ok pk cells t r q" "gate_ok t" "tk_strands t j = AwaitReply c" "cells c = Filled m" "pk = Some c \<Longrightarrow> cells c = Waiting"
  shows "order_ok pk cells (leave_request j (classify_reply m) t) r q"
proof -
  have "tk_gate t = Some j" using gate_ok_holder [OF assms(2), of j c] assms(3) by simp
  with assms show ?thesis by (auto simp: order_ok_def)
qed

lemma order_ok_registered:
  assumes "order_ok pk cells t r q" "tk_gate t = None"
  shows "order_ok (Some c) cells (t\<lparr>tk_gate := Some j, tk_strands := (tk_strands t)(j := SendReq c m)\<rparr>) r q"
  using assms by (auto simp: order_ok_def)

lemma no_task_before_ready:
  assumes "handshake_inv s" and "s_loop s = Reading st" and "st \<noteq> Ready"
  shows "s_tasks s = []"
proof -
  from assms have "state_after (handshake s) st" "map tk_msg (s_tasks s) = filter is_tx (s_seen s)"
    by (simp_all add: handshake_inv_def)
  then have "\<not> (\<exists>us. handshake s = MT_Registered # MT_Ready # us)" using assms(3) by (cases st) auto
  with assms(1) show ?thesis by (auto simp: handshake_inv_def)
qed

lemma order_task:
  assumes "order_inv s" and "i < length (s_tasks s)"
  shows "order_ok (s_pending s (tkey (s_tasks s ! i))) (s_cells s) (s_tasks s ! i)
    (replies s (tkey (s_tasks s ! i))) (requests s (tkey (s_tasks s ! i)))"
  using assms by (auto simp: order_inv_def Let_def)

lemma order_key_unique:
  assumes "order_inv s" and "i < length (s_tasks s)" and "j < length (s_tasks s)"
    and "tkey (s_tasks s ! i) = tkey (s_tasks s ! j)"
  shows "i = j"
  using assms by (auto simp: order_inv_def distinct_conv_nth)

text \<open>Updating one task: the invariant of the others is unchanged.\<close>

lemma order_inv_update:
  assumes inv: "order_inv s" and i: "i < length (s_tasks s)"
    and tasks: "s_tasks s' = (s_tasks s)[i := t]" and key: "tkey t = tkey (s_tasks s ! i)"
    and op: "s_open s'"
    and mine: "order_ok (s_pending s' (tkey t)) (s_cells s') t (replies s' (tkey t)) (requests s' (tkey t))"
    and pend: "\<And>k. k \<noteq> tkey t \<Longrightarrow> s_pending s' k = s_pending s k"
    and reps: "\<And>k. k \<noteq> tkey t \<Longrightarrow> replies s' k = replies s k \<and> requests s' k = requests s k"
    and cells: "\<And>pk t r q. order_ok pk (s_cells s) t r q \<Longrightarrow> order_ok pk (s_cells s') t r q"
  shows "order_inv s'"
proof -
  have keys: "map tkey (s_tasks s') = map tkey (s_tasks s)" using tasks i key by (simp add: map_update_same)
  then have set_keys: "tkey ` set (s_tasks s') = tkey ` set (s_tasks s)" by (metis list.set_map)
  have "order_ok (s_pending s' (tkey (s_tasks s' ! j))) (s_cells s') (s_tasks s' ! j)
      (replies s' (tkey (s_tasks s' ! j))) (requests s' (tkey (s_tasks s' ! j)))"
    if j: "j < length (s_tasks s')" for j
  proof (cases "j = i")
    case True
    with mine tasks i show ?thesis by simp
  next
    case False
    with j tasks have j': "j < length (s_tasks s)" "s_tasks s' ! j = s_tasks s ! j" by simp_all
    with False order_key_unique [OF inv i j'(1)] key have "tkey (s_tasks s ! j) \<noteq> tkey t" by auto
    with order_task [OF inv j'(1)] j'(2) pend reps cells show ?thesis by simp
  qed
  moreover have "k \<noteq> tkey t" if "k \<notin> tkey ` set (s_tasks s)" for k
    using that i key by (metis image_eqI nth_mem)
  ultimately show ?thesis
    using inv keys set_keys op pend reps by (simp add: order_inv_def Let_def)
qed

lemma order_inv_frame:
  assumes "order_inv s" "s_tasks s' = s_tasks s" "s_open s' = s_open s" "s_pending s' = s_pending s"
    "s_cells s' = s_cells s" "\<And>k. replies s' k = replies s k" "\<And>k. requests s' k = requests s k"
  shows "order_inv s'"
  using assms by (simp add: order_inv_def Let_def)

lemma honest_reply_has_task:
  assumes "order_inv s" and "length (replies s k) < requests s k"
  obtains i where "i < length (s_tasks s)" "tkey (s_tasks s ! i) = k"
proof -
  have "k \<in> tkey ` set (s_tasks s)" using assms by (auto simp: order_inv_def)
  then show ?thesis using that by (auto simp: in_set_conv_nth)
qed

lemma order_inv_step:
  assumes rel: "sys_rel P meta a s s'" and good: "orderly_action s a"
    and inv: "order_inv s" and base: "gate_inv s" "pending_inv s" "filled_inv s" "asking_inv s" "handshake_inv s"
  shows "order_inv s'"
  using rel
proof cases
  case (loop_sent m ok err)
  with inv show ?thesis by (intro order_inv_frame [OF inv]) simp_all
next
  case (loop_failed m ok err)
  with inv show ?thesis by (intro order_inv_frame [OF inv]) simp_all
next
  case (advance st m st' d)
  with inv show ?thesis
    by (intro order_inv_frame [OF inv]) (auto simp: dispatch_cases reply_kind_def)
next
  case (echo st m d)
  with inv show ?thesis
    by (intro order_inv_frame [OF inv]) (auto simp: dispatch_cases reply_kind_def)
next
  case (inbound_ended st)
  with inv show ?thesis by (intro order_inv_frame [OF inv]) simp_all
next
  case (transported m ms)
  with inv show ?thesis by (intro order_inv_frame [OF inv]) simp_all
next
  case gone
  with good show ?thesis by simp
next
  case (spawn st m d)
  have tx: "is_tx m" "\<not> reply_kind (cm_kind m)"
    using spawn by (auto simp: dispatch_cases is_tx_def reply_kind_def)
  with spawn good have fresh: "key_of m \<notin> tkey ` set (s_tasks s)" by simp
  with inv have new: "s_pending s (key_of m) = None" "replies s (key_of m) = []" "requests s (key_of m) = 0"
    by (auto simp: order_inv_def)
  from order_task [OF inv] show ?thesis
    using spawn inv fresh tx new order_ok_new [of "s_cells s" m]
    by (simp add: order_inv_def Let_def nth_append)
next
  case (route st m c d)
  have kind: "reply_kind (cm_kind m)" using route by (simp add: dispatch_route_iff)
  with route good have honest: "length (replies s (key_of m)) < requests s (key_of m)" by simp
  then obtain i where i: "i < length (s_tasks s)" "tkey (s_tasks s ! i) = key_of m"
    using honest_reply_has_task [OF inv] by blast
  have wait: "s_cells s c = Waiting" using base(2) route by (simp add: pending_inv_def)
  show ?thesis
  proof (rule order_inv_update [OF inv i(1)])
    show "order_ok (s_pending s' (tkey (s_tasks s ! i))) (s_cells s') (s_tasks s ! i)
        (replies s' (tkey (s_tasks s ! i))) (requests s' (tkey (s_tasks s ! i)))"
      using order_task [OF inv i(1)] i(2) route kind honest by (simp add: order_ok_filled)
  qed (use route i inv order_ok_cells [where cells = "s_cells s", OF _ wait] in \<open>auto simp: order_inv_def\<close>)
next
  case (route_none st m d)
  have kind: "reply_kind (cm_kind m)" using route_none by (simp add: dispatch_route_iff)
  with route_none good have honest: "length (replies s (key_of m)) < requests s (key_of m)" by simp
  then obtain i where i: "i < length (s_tasks s)" "tkey (s_tasks s ! i) = key_of m"
    using honest_reply_has_task [OF inv] by blast
  from order_task [OF inv i(1)] i(2) route_none honest show ?thesis
    by (auto simp: order_ok_def split: option.splits strand.splits)
next
  case (reject st m d)
  have "\<not> reply_kind (cm_kind m)"
  proof
    assume kind: "reply_kind (cm_kind m)"
    with reject good have "length (replies s (key_of m)) < requests s (key_of m)" by simp
    then obtain i where "i < length (s_tasks s)"
      using honest_reply_has_task [OF inv] by blast
    moreover have "st \<noteq> Ready" using reject kind by (auto simp: dispatch_def reply_kind_def)
    ultimately show False using no_task_before_ready [OF base(5)] reject by auto
  qed
  with reject show ?thesis by (intro order_inv_frame [OF inv]) simp_all
next
  case (registered i tk j t b c d)
  let ?t = "tk\<lparr>tk_gate := Some j,
      tk_strands := (tk_strands tk)(j := SendReq c (new_message d t b (fst (tkey tk)) (snd (tkey tk)))),
      tk_late := (tk_late tk \<or> \<not> before_clean_up (tk_phase tk))\<rparr>"
  have "order_ok (Some c) (s_cells s) ?t (replies s (tkey tk)) (requests s (tkey tk))"
    using order_task [OF inv, of i] registered by (simp add: order_ok_registered)
  then show ?thesis
    by (intro order_inv_update [OF inv, of i s' ?t]) (use registered inv in \<open>auto simp: order_inv_def\<close>)
next
  case (refused i tk j t b c d)
  then show ?thesis using order_task [OF inv, of i] by (auto simp: order_ok_def)
next
  case (strand_failed i tk j c m)
  then show ?thesis using inv by (simp add: order_inv_def)
next
  case (strand_sent i tk j c m)
  have key: "key_of m = tkey tk" using strand_sent base(4) by (auto simp: asking_inv_def)
  have gate: "gate_ok tk" using strand_sent base(1) by (simp add: gate_inv_def)
  show ?thesis
    by (intro order_inv_update [OF inv, of i s' "tk\<lparr>tk_strands := (tk_strands tk)(j := AwaitReply c)\<rparr>"])
      (use strand_sent key inv order_task [OF inv, of i] order_ok_sent [OF _ gate] in \<open>auto simp: order_inv_def\<close>)
next
  case (received i tk j c m)
  have gate: "gate_ok tk" using received base(1) by (simp add: gate_inv_def)
  have "s_pending s (tkey tk) \<noteq> Some c" using received(6) base(2) by (auto simp: pending_inv_def)
  then have "order_ok (s_pending s (tkey tk)) (s_cells s) (leave_request j (classify_reply m) tk)
      (replies s (tkey tk)) (requests s (tkey tk))"
    using order_ok_received [where cells = "s_cells s", OF _ gate received(5,6)] order_task [OF inv received(3)] received(4) by blast
  with received show ?thesis
    by (intro order_inv_update [OF inv, of i s' "leave_request j (classify_reply m) tk"])
      (use inv in \<open>auto simp: order_inv_def\<close>)
next
  case (sender_dropped i tk j c)
  have gate: "gate_ok tk" using sender_dropped base(1) by (simp add: gate_inv_def)
  then have "tk_gate tk = Some j" using gate_ok_holder [OF gate, of j c] sender_dropped by simp
  with sender_dropped order_task [OF inv, of i] base(2) show ?thesis
    by (auto simp: order_ok_def pending_inv_def)
next
  case (cancelled i tk j c m)
  with good show ?thesis by auto
next
  case (cleaned i tk resp m d)
  have "tk_gate tk = None" using cleaned good by simp
  with cleaned order_task [OF inv, of i] have "s_pending s (tkey tk) = None" by (simp add: order_ok_def)
  then have "drop_pending (tkey tk) s = s" by (simp add: drop_pending_def)
  with cleaned show ?thesis
    by (intro order_inv_update [OF inv, of i s' "tk\<lparr>tk_phase := Sending m, tk_event := None\<rparr>"]) (use inv order_task [OF inv, of i] in \<open>auto simp: order_inv_def\<close>)
next
  case (task_sent i tk m)
  then show ?thesis
    by (intro order_inv_update [OF inv, of i s' "tk\<lparr>tk_phase := Finished True\<rparr>"]) (use inv order_task [OF inv, of i] in \<open>auto simp: order_inv_def\<close>)
next
  case (requested i tk bs j t b)
  have "gate_ok tk" using requested base(1) by (simp add: gate_inv_def)
  with requested show ?thesis
    by (intro order_inv_update [OF inv, of i s' "tk\<lparr>tk_strands := (tk_strands tk)(j := WaitGate t b)\<rparr>"])
      (use inv order_task [OF inv, of i] in \<open>auto simp: order_inv_def order_ok_other\<close>)
next
  case (cancelled_wait i tk j t b)
  have "gate_ok tk" using cancelled_wait base(1) by (simp add: gate_inv_def)
  with cancelled_wait show ?thesis
    by (intro order_inv_update [OF inv, of i s' "tk\<lparr>tk_strands := (tk_strands tk)(j := Idle)\<rparr>"])
      (use inv order_task [OF inv, of i] in \<open>auto simp: order_inv_def order_ok_other\<close>)
next
  case (answered i tk d m)
  then show ?thesis
    by (intro order_inv_update [OF inv, of i s' "tk\<lparr>tk_phase := Sending m\<rparr>"]) (use inv order_task [OF inv, of i] in \<open>auto simp: order_inv_def\<close>)
next
  case (started i tk d b stub)
  then show ?thesis
    by (intro order_inv_update [OF inv, of i s' "tk\<lparr>tk_phase := Running, tk_stub := Some (b, stub)\<rparr>"]) (use inv order_task [OF inv, of i] in \<open>auto simp: order_inv_def\<close>)
next
  case (emitted i tk bs e)
  then show ?thesis
    by (intro order_inv_update [OF inv, of i s' "tk\<lparr>tk_event := Some e\<rparr>"]) (use inv order_task [OF inv, of i] in \<open>auto simp: order_inv_def\<close>)
next
  case (joined i tk outcome)
  then show ?thesis
    by (intro order_inv_update [OF inv, of i s' "tk\<lparr>tk_phase := Joined (outcome_response outcome)\<rparr>"]) (use inv order_task [OF inv, of i] in \<open>auto simp: order_inv_def\<close>)
next
  case (task_failed i tk m)
  then show ?thesis
    by (intro order_inv_update [OF inv, of i s' "tk\<lparr>tk_phase := Finished False\<rparr>"]) (use inv order_task [OF inv, of i] in \<open>auto simp: order_inv_def\<close>)
qed

lemma order_invariant:
  assumes "orderly P meta cc_id s"
  shows "order_inv s"
  using assms
proof (induction rule: orderly.induct)
  case (init d)
  show ?case by (simp add: order_inv_def sys_init_def replies_def requests_def)
next
  case (step s a s')
  from orderly_reachable [OF step(1)] have r: "reachable P meta cc_id s" .
  show ?case
    using order_inv_step [OF sys_step_rel [OF step(3)] step(2) step.IH] gate_invariant [OF r]
      cells_invariant [OF r] sent_invariant [OF r] handshake_invariant [OF r]
    by (simp add: sent_inv_def)
qed

end
