(* ===== verification/Connection.thy ===== *)
theory Connection imports System_Order Wire
begin

section \<open>Properties of the connection\<close>

text \<open>
  What the connection guarantees, stated over the reachable states and runs of theory
  \<open>System\<close>, each with a run that shows its hypotheses can hold. The example runs perform the
  handshake, start one transaction and make one ledger request, on the wire format.
\<close>

declare split_paired_All [simp del] split_paired_Ex [simp del]

subsection \<open>Example runs\<close>

definition ex_msg :: "msg_type \<Rightarrow> bytes \<Rightarrow> chaincode_message" where
  "ex_msg t b = new_message None t b (lit ''ch'') (lit ''tx1'')"

definition ex_tx :: chaincode_message where
  "ex_tx = ex_msg MT_Transaction (encode (c_chaincode_input wire_prost)
     \<lparr>ci_args = [str_bytes (lit ''get'')], ci_decorations = fmempty, ci_is_init = False\<rparr>)"

definition ex_stub :: stub where
  "ex_stub = \<lparr>sb_channel_id = lit ''ch'', sb_tx_id = lit ''tx1'', sb_args = [str_bytes (lit ''get'')],
     sb_decorations = fmempty, sb_signed_proposal = None, sb_creator = [], sb_transient = fmempty,
     sb_tx_timestamp = None\<rparr>"

definition ex_init :: sys where "ex_init = sys_init wire_prost None (lit ''cc'')"

text \<open>Handshake and start of the transaction.\<close>

definition ex_start :: "action list" where
  "ex_start = [LoopPush, Inbound None (ex_msg MT_Registered []), Inbound None (ex_msg MT_Ready []),
     Inbound None ex_tx, Prepare None 0]"

definition ex_ask :: "action list" where
  "ex_ask = [Request 0 0 MT_GetState [], Acquire None 0 0, StrandPush 0 0]"

definition ex_answer :: "action list" where
  "ex_answer = [Inbound None (ex_msg MT_Response [7]), Receive 0 0]"

definition ex_finish :: "action list" where
  "ex_finish = [UserDone 0 (Returned (success [7])), CleanUp None 0, TaskPush 0]"

lemma sys_run_append:
  "sys_run P meta (as @ bs) s = Option.bind (sys_run P meta as s) (sys_run P meta bs)"
  by (induction as arbitrary: s) (auto split: bind_split)

lemma run_reachable:
  "sys_run P meta as s = Some s' \<Longrightarrow> reachable P meta cc_id s \<Longrightarrow> reachable P meta cc_id s'"
  by (induction as arbitrary: s) (auto simp: bind_eq_Some_conv intro: reachable.step)

lemma ex_reachable: "sys_run wire_prost None as ex_init = Some s \<Longrightarrow> reachable wire_prost None (lit ''cc'') s"
  unfolding ex_init_def using run_reachable reachable.init by blast

lemma ex_msg_kind [simp]: "cm_kind (ex_msg t b) = t" "key_of (ex_msg t b) = (lit ''ch'', lit ''tx1'')"
  "cm_payload (ex_msg t b) = b" "cm_channel_id (ex_msg t b) = lit ''ch''" "cm_txid (ex_msg t b) = lit ''tx1''"
  "cm_proposal (ex_msg t b) = None"
  by (simp_all add: ex_msg_def new_message_def cm_kind_def key_of_def)

lemma ex_prepare: "prepare_transaction wire_prost None None ex_tx = RunUser False ex_stub"
proof -
  have "str_bytes (lit ''get'') \<noteq> str_bytes METADATA_FUNCTION" by (simp add: METADATA_FUNCTION_def)
  then show ?thesis
    by (simp add: prepare_transaction_def ex_tx_def stub_new_def ex_stub_def Let_def)
qed

definition ex_task :: task where
  "ex_task = (new_task ex_tx)\<lparr>tk_phase := Running, tk_stub := Some (False, ex_stub)\<rparr>"

definition ex_running :: sys where
  "ex_running = ex_init\<lparr>s_loop := Reading Ready, s_out := [(FromLoop, register_message wire_prost None (lit ''cc''))],
     s_pushed := [(FromLoop, register_message wire_prost None (lit ''cc''))],
     s_seen := [ex_msg MT_Registered [], ex_msg MT_Ready [], ex_tx],
     s_tasks := [ex_task]\<rparr>"

lemma ex_tx_sel [simp]: "cm_kind ex_tx = MT_Transaction" "key_of ex_tx = (lit ''ch'', lit ''tx1'')"
  by (simp_all add: ex_tx_def)

lemmas ex_step_simps = sys_step_def loop_push_def inbound_def inbound_end_def prepare_def request_def acquire_def
  strand_push_def receive_def user_done_def clean_up_def task_push_def Let_def out_full_def OUT_CAPACITY_def

lemma ex_start_run: "sys_run wire_prost None ex_start ex_init = Some ex_running"
  by (simp add: ex_start_def ex_init_def sys_init_def ex_step_simps dispatch_def ex_prepare
      ex_running_def ex_task_def push_out_def set_task_def)

text \<open>The request has been sent and its reply is awaited.\<close>

definition ex_request :: chaincode_message where
  "ex_request = new_message None MT_GetState [] (lit ''ch'') (lit ''tx1'')"

definition ex_waiting :: sys where
  "ex_waiting = ex_running\<lparr>
     s_out := s_out ex_running @ [(FromStrand 0 0, ex_request)],
     s_pushed := s_pushed ex_running @ [(FromStrand 0 0, ex_request)],
     s_pending := [(lit ''ch'', lit ''tx1'') \<mapsto> 0], s_next := 1, s_owner := (\<lambda>_. (0, 0)),
     s_tasks := [ex_task\<lparr>tk_gate := Some 0, tk_strands := (\<lambda>_. Idle)(0 := AwaitReply 0)\<rparr>]\<rparr>"

lemma ex_task_sel [simp]:
  "tkey ex_task = (lit ''ch'', lit ''tx1'')" "tk_phase ex_task = Running" "tk_stub ex_task = Some (False, ex_stub)"
  "tk_strands ex_task = (\<lambda>_. Idle)" "tk_gate ex_task = None" "tk_log ex_task = []" "\<not> tk_late ex_task"
  "tk_event ex_task = None" "tk_msg ex_task = ex_tx"
  by (simp_all add: ex_task_def new_task_def tkey_def)

lemma ex_running_sel [simp]:
  "s_tasks ex_running = [ex_task]" "s_pending ex_running = Map.empty" "s_next ex_running = 0" "s_open ex_running"
  "s_out ex_running = [(FromLoop, register_message wire_prost None (lit ''cc''))]"
  "s_pushed ex_running = [(FromLoop, register_message wire_prost None (lit ''cc''))]"
  "s_loop ex_running = Reading Ready" "s_cells ex_running = (\<lambda>_. Waiting)" "s_owner ex_running = (\<lambda>_. (0, 0))"
  "s_seen ex_running = [ex_msg MT_Registered [], ex_msg MT_Ready [], ex_tx]" "s_sent ex_running = []"
  by (simp_all add: ex_running_def ex_init_def sys_init_def)

lemma ex_ask_run: "sys_run wire_prost None ex_ask ex_running = Some ex_waiting"
  by (simp add: ex_ask_def ex_step_simps LEDGER_REQUESTS_def ex_waiting_def set_task_def push_out_def ex_request_def
      fun_upd_def cong: if_cong)

lemma ex_waiting_sel [simp]:
  "s_tasks ex_waiting = [ex_task\<lparr>tk_gate := Some 0, tk_strands := (\<lambda>_. Idle)(0 := AwaitReply 0)\<rparr>]"
  "s_pending ex_waiting = [(lit ''ch'', lit ''tx1'') \<mapsto> 0]" "s_next ex_waiting = 1" "s_open ex_waiting"
  "s_out ex_waiting = [(FromLoop, register_message wire_prost None (lit ''cc'')), (FromStrand 0 0, ex_request)]"
  "s_pushed ex_waiting = [(FromLoop, register_message wire_prost None (lit ''cc'')), (FromStrand 0 0, ex_request)]"
  "s_loop ex_waiting = Reading Ready" "s_cells ex_waiting = (\<lambda>_. Waiting)" "s_owner ex_waiting = (\<lambda>_. (0, 0))"
  "s_seen ex_waiting = [ex_msg MT_Registered [], ex_msg MT_Ready [], ex_tx]" "s_sent ex_waiting = []"
  by (simp_all add: ex_waiting_def)

lemma ex_running_reachable: "reachable wire_prost None (lit ''cc'') ex_running"
  using ex_reachable [OF ex_start_run] .

lemma ex_waiting_reachable: "reachable wire_prost None (lit ''cc'') ex_waiting"
  using run_reachable [OF ex_ask_run ex_running_reachable] .

text \<open>The reply has arrived and been received.\<close>

definition ex_reply :: chaincode_message where "ex_reply = ex_msg MT_Response [7]"

definition ex_answered :: sys where
  "ex_answered = ex_waiting\<lparr>s_pending := Map.empty, s_cells := (\<lambda>_. Waiting)(0 := Filled ex_reply),
     s_seen := s_seen ex_waiting @ [ex_reply], s_tasks := [ex_task\<lparr>tk_log := [(0, Inr ex_reply)]\<rparr>]\<rparr>"

lemma ex_answer_run: "sys_run wire_prost None ex_answer ex_waiting = Some ex_answered"
  by (simp add: ex_answer_def ex_step_simps dispatch_def route_response_def leave_request_def classify_reply_def
      ex_answered_def set_task_def ex_reply_def fun_upd_def ex_task_def new_task_def cong: if_cong)

lemma ex_answered_reachable: "reachable wire_prost None (lit ''cc'') ex_answered"
  using run_reachable [OF ex_answer_run ex_waiting_reachable] .

lemma ex_answered_sel [simp]:
  "s_tasks ex_answered = [ex_task\<lparr>tk_log := [(0, Inr ex_reply)]\<rparr>]" "s_pending ex_answered = Map.empty"
  "s_seen ex_answered = [ex_msg MT_Registered [], ex_msg MT_Ready [], ex_tx, ex_reply]"
  "s_loop ex_answered = Reading Ready" "s_open ex_answered"
  "s_out ex_answered = [(FromLoop, register_message wire_prost None (lit ''cc'')), (FromStrand 0 0, ex_request)]"
  "s_pushed ex_answered = [(FromLoop, register_message wire_prost None (lit ''cc'')), (FromStrand 0 0, ex_request)]"
  by (simp_all add: ex_answered_def)

text \<open>The user's code has returned and COMPLETED has been sent.\<close>

definition ex_completed :: chaincode_message where
  "ex_completed = completed_message wire_prost None (lit ''ch'') (lit ''tx1'') (success [7]) None"

definition ex_done :: sys where
  "ex_done = push_out (FromTask 0) ex_completed
     (ex_answered\<lparr>s_tasks := [ex_task\<lparr>tk_log := [(0, Inr ex_reply)], tk_phase := Finished True\<rparr>]\<rparr>)"

lemma ex_finish_run: "sys_run wire_prost None ex_finish ex_answered = Some ex_done"
  by (simp add: ex_finish_def ex_step_simps drop_pending_def ex_done_def set_task_def push_out_def ex_completed_def
      ex_task_def new_task_def tkey_def)

lemma ex_done_reachable: "reachable wire_prost None (lit ''cc'') ex_done"
  using run_reachable [OF ex_finish_run ex_answered_reachable] .

subsection \<open>Safety\<close>

text \<open>C9. Replies are routed to the right call: every result a call of \<open>request\<close> in a transaction has returned
  is that of a message received for this transaction's channel and transaction id (a RESPONSE returned as it
  is, or an ERROR, whose payload is the error's text), or is an error of the connection itself: closed, or a
  second call in flight. The messages behind the results are distinct messages of those
  received, in the order received: none is delivered twice, and none to a call of another transaction.\<close>

theorem reply_routing:
  assumes "reachable P meta cc_id s" and "i < length (s_tasks s)"
  shows "let k = tkey (s_tasks s ! i) in \<exists>srcs.
      list_all2 (\<lambda>src (j, r). case src of
          Some m \<Rightarrow> key_of m = k \<and> (cm_kind m = MT_Response \<and> r = Inr m
             \<or> cm_kind m = MT_Error \<and> r = Inl (ErrPeer (from_utf8_lossy (cm_payload m))))
        | None \<Rightarrow> r = Inl ErrConnectionClosed \<or> r = Inl (in_flight_error (snd k))) srcs (tk_log (s_tasks s ! i))
    \<and> subseq (concat (map (case_option [] (\<lambda>m. [m])) srcs)) (s_seen s)"
proof -
  have "delivery_ok (s_seen s) [] (s_tasks s ! i)"
    using delivery_invariant [OF assms(1)] assms(2) delivery_ok_drop unfolding delivery_inv_def by blast
  then show ?thesis by (simp add: delivery_ok_def delivered_def result_of_def [abs_def] Let_def)
qed

theorem reply_routing_witness:
  "\<exists>src. tk_log (s_tasks ex_answered ! 0) = [(0, Inr ex_reply)]
    \<and> src = Some ex_reply \<and> ex_reply \<in> set (s_seen ex_answered) \<and> key_of ex_reply = tkey (s_tasks ex_answered ! 0)"
  using reply_routing [OF ex_answered_reachable, of 0]
  by (auto simp: Let_def list_all2_Cons2 split: option.splits dest: list_emb_set)

text \<open>C10. The gate serializes the ledger calls of a transaction: at any moment at most one strand of
  a task is between registering its request and leaving \<open>request\<close>.\<close>

theorem one_request_in_flight:
  assumes "reachable P meta cc_id s" and "i < length (s_tasks s)"
    and "strand_cell (tk_strands (s_tasks s ! i) j) \<noteq> None" and "strand_cell (tk_strands (s_tasks s ! i) j') \<noteq> None"
  shows "j = j'"
  using gate_invariant [OF assms(1)] gate_ok_unique assms(2-4) by (auto simp: gate_inv_def)

theorem one_request_in_flight_witness:
  "strand_cell (tk_strands (s_tasks ex_waiting ! 0) 0) = Some 0
   \<and> strand_cell (tk_strands (s_tasks ex_waiting ! 0) 1) = None"
proof -
  have zero: "strand_cell (tk_strands (s_tasks ex_waiting ! 0) 0) = Some 0" by simp
  have "strand_cell (tk_strands (s_tasks ex_waiting ! 0) 1) = None"
  proof (rule ccontr)
    assume "strand_cell (tk_strands (s_tasks ex_waiting ! 0) 1) \<noteq> None"
    from one_request_in_flight [OF ex_waiting_reachable _ _ this, of 0] zero show False by simp
  qed
  with zero show ?thesis ..
qed

text \<open>C12. No transaction before the handshake: a transaction task exists only after the peer has sent
  REGISTERED and then READY (keepalives aside), and while the loop runs the tasks are exactly
  the INIT and TRANSACTION messages received, in order.\<close>

theorem transactions_after_ready:
  assumes "reachable P meta cc_id s"
  shows "(s_tasks s = [] \<or> (\<exists>us. handshake s = MT_Registered # MT_Ready # us))
    \<and> (case conn_phase (s_loop s) of None \<Rightarrow> True
        | Some st \<Rightarrow> state_after (handshake s) st \<and> map tk_msg (s_tasks s) = filter is_tx (s_seen s))"
  using handshake_invariant [OF assms] unfolding handshake_inv_def by (cases "conn_phase (s_loop s)") auto

theorem transactions_after_ready_witness:
  "map tk_msg (s_tasks ex_running) = [ex_tx] \<and> handshake ex_running = [MT_Registered, MT_Ready, MT_Transaction]"
  using transactions_after_ready [OF ex_running_reachable] by (simp add: handshake_def)

text \<open>Registration comes first: the first message ever sent on a connection is REGISTER with the
  chaincode id, and the loop sends it only once.\<close>

lemma register_first:
  assumes "reachable P meta cc_id s" and "s_pushed s \<noteq> []"
  shows "\<exists>d rest. s_pushed s = (FromLoop, register_message P d cc_id) # rest
    \<and> list_all (\<lambda>(o', m). o' = FromLoop \<longrightarrow> cm_kind m \<noteq> MT_Register) rest"
  using register_invariant [OF assms(1)] assms(2) by (fastforce simp: register_inv_def list_all_iff)

lemma register_first_example:
  "\<exists>d. hd (s_pushed ex_waiting) = (FromLoop, register_message wire_prost d (lit ''cc''))"
  using register_first [OF ex_waiting_reachable] by auto

text \<open>C11. Exactly one terminal message: a transaction task that has sent its terminal message has sent
  exactly one, any other has sent none, and a task gives up without sending only when the connection is
  closed. If the user's code was started, the message is COMPLETED, even when that code
  panicked.\<close>

theorem one_terminal_message:
  assumes "reachable P meta cc_id s" and "i < length (s_tasks s)"
  shows "case tk_phase (s_tasks s ! i) of
      Finished True \<Rightarrow> (\<exists>m. terminals s i = [m] \<and> key_of m = tkey (s_tasks s ! i)
        \<and> (if tk_stub (s_tasks s ! i) = None then cm_kind m \<in> {MT_Completed, MT_Error} else cm_kind m = MT_Completed))
    | Finished False \<Rightarrow> terminals s i = [] \<and> \<not> s_open s
    | _ \<Rightarrow> terminals s i = []"
proof -
  have ok: "terminal_ok (s_open s) (terminals s i) (tk_stub (s_tasks s ! i)) (tk_phase (s_tasks s ! i))"
    using terminal_invariant [OF assms(1)] assms(2) by (simp add: terminal_inv_def)
  have "sent_ok s (FromTask i) m" if "m \<in> set (terminals s i)" for m
    using sent_invariant [OF assms(1)] that by (auto simp: sent_inv_def pushed_inv_def terminals_def)
  note sent = this
  show ?thesis
  proof (cases "tk_phase (s_tasks s ! i)")
    case (Finished delivered)
    with ok sent show ?thesis by (cases delivered) auto
  qed (use ok in auto)
qed

theorem one_terminal_message_witness: "\<exists>m. terminals ex_done 0 = [m] \<and> cm_kind m = MT_Completed"
  using one_terminal_message [OF ex_done_reachable, of 0] by (auto simp: ex_done_def)

text \<open>C34. No leaked correlation entries: a transaction that has cleaned up after its user's code, or has not run
  any, owns no entry of the pending table, whatever the other transactions of the connection
  are doing; and where no other transaction has its key, there is no entry under its key. The exception
  is a request that a strand outliving the user's code registers after the clean-up (\<open>tk_late\<close>).\<close>

theorem no_pending_leak:
  assumes "reachable P meta cc_id s" and "i < length (s_tasks s)"
    and "\<not> before_clean_up (tk_phase (s_tasks s ! i))" and "\<not> tk_late (s_tasks s ! i)"
  shows "(\<forall>k c. s_pending s k = Some c \<longrightarrow> fst (s_owner s c) \<noteq> i)
    \<and> ((\<forall>i'<length (s_tasks s). tkey (s_tasks s ! i') = tkey (s_tasks s ! i) \<longrightarrow> i' = i)
        \<longrightarrow> s_pending s (tkey (s_tasks s ! i)) = None)"
proof -
  have own: "fst (s_owner s c) \<noteq> i" if "s_pending s k = Some c" for k c
    using leak_invariant [OF assms(1)] that assms(3,4) by (auto simp: leak_inv_def Let_def)
  moreover have "fst (s_owner s c) < length (s_tasks s) \<and> tkey (s_tasks s ! fst (s_owner s c)) = k"
    if "s_pending s k = Some c" for k c
    using cells_invariant [OF assms(1)] that by (simp add: pending_inv_def cell_of_task_def)
  ultimately show ?thesis by (metis option.exhaust)
qed

theorem no_pending_leak_witness: "s_pending ex_done (lit ''ch'', lit ''tx1'') = None"
  using no_pending_leak [OF ex_done_reachable, of 0] by (simp add: ex_done_def tkey_def new_task_def ex_task_def)

text \<open>The exception is real: a strand spawned by the user's code asks the ledger after the clean-up, and its
  entry outlives the finished transaction.\<close>

definition ex_late :: "action list" where
  "ex_late = [Request 0 1 MT_GetState [], UserDone 0 (Returned (success [7])), CleanUp None 0, TaskPush 0, Acquire None 0 1]"

lemma late_request_leaks:
  "\<exists>s. reachable wire_prost None (lit ''cc'') s \<and> tk_phase (s_tasks s ! 0) = Finished True
     \<and> s_pending s (tkey (s_tasks s ! 0)) \<noteq> None"
proof -
  have "\<exists>s. sys_run wire_prost None ex_late ex_running = Some s \<and> tk_phase (s_tasks s ! 0) = Finished True
     \<and> s_pending s (tkey (s_tasks s ! 0)) \<noteq> None"
    by (simp add: ex_late_def ex_step_simps LEDGER_REQUESTS_def drop_pending_def set_task_def push_out_def)
  then show ?thesis using run_reachable [OF _ ex_running_reachable] by blast
qed

text \<open>The channel to the transport never holds more than its capacity, and while the connection is open
  what the transport has taken, followed by what waits, is exactly what was sent, in order.\<close>

lemma out_channel_fifo:
  assumes "reachable P meta cc_id s"
  shows "length (s_out s) \<le> OUT_CAPACITY \<and> prefix (s_sent s) (s_pushed s)
    \<and> (s_open s = False \<or> s_pushed s = s_sent s @ s_out s)"
  using channel_invariant [OF assms] by (auto simp: channel_inv_def prefix_def)

lemma out_channel_fifo_example: "length (s_out ex_waiting) \<le> OUT_CAPACITY \<and> s_pushed ex_waiting = s_sent ex_waiting @ s_out ex_waiting"
  using out_channel_fifo [OF ex_waiting_reachable] by simp

subsection \<open>Orderly runs\<close>

fun all_orderly :: "prost \<Rightarrow> metadata_reply \<Rightarrow> action list \<Rightarrow> sys \<Rightarrow> bool" where
  "all_orderly P meta [] s = True"
| "all_orderly P meta (a # as) s = (orderly_action s a
     \<and> (case sys_step P meta a s of None \<Rightarrow> False | Some s' \<Rightarrow> all_orderly P meta as s'))"

lemma all_orderly_orderly:
  "all_orderly P meta as s \<Longrightarrow> orderly P meta cc_id s \<Longrightarrow> sys_run P meta as s = Some s' \<Longrightarrow> orderly P meta cc_id s'"
  by (induction as arbitrary: s) (auto simp: bind_eq_Some_conv intro: orderly.step split: option.splits)

lemma all_orderly_append:
  "sys_run P meta as s = Some s' \<Longrightarrow> all_orderly P meta (as @ bs) s \<longleftrightarrow> all_orderly P meta as s \<and> all_orderly P meta bs s'"
  by (induction as arbitrary: s) (auto simp: bind_eq_Some_conv)

lemmas ex_orderly_simps = ex_step_simps dispatch_def is_tx_def reply_kind_def replies_def requests_def

lemma ex_orderly:
  "all_orderly wire_prost None ex_start ex_init" "all_orderly wire_prost None ex_ask ex_running"
  "all_orderly wire_prost None ex_answer ex_waiting"
    apply (simp add: ex_start_def ex_init_def sys_init_def ex_prepare push_out_def set_task_def ex_orderly_simps)
   apply (simp add: ex_ask_def set_task_def push_out_def LEDGER_REQUESTS_def ex_orderly_simps)
  apply (simp add: ex_answer_def ex_request_def route_response_def leave_request_def set_task_def ex_orderly_simps)
  done

lemma replies_kind: "m \<in> set (replies s k) \<Longrightarrow> reply_kind (cm_kind m)"
  by (simp add: replies_def)

text \<open>C1. When the peer answers each request once after it was sent and uses each transaction id once,
  and no call is dropped half-way, the results of a transaction's ledger calls are exactly the
  peer's replies for its key, one by one in their order, at most one request is
  unanswered, at most one reply is not yet consumed, and no call is refused or finds the connection closed.\<close>

theorem results_are_the_replies_in_order:
  assumes "orderly P meta cc_id s" and "i < length (s_tasks s)"
  shows "let t = s_tasks s ! i; rs = replies s (tkey t); n = length (tk_log t) in
      map snd (tk_log t) = map classify_reply (take n rs)
    \<and> length rs \<le> Suc n \<and> length rs \<le> requests s (tkey t) \<and> requests s (tkey t) \<le> Suc n
    \<and> list_all (\<lambda>(j, r). is_ok r \<or> (\<exists>b. r = Inl (ErrPeer b))) (tk_log t)"
proof -
  let ?t = "s_tasks s ! i"
  let ?rs = "replies s (tkey ?t)"
  have ok: "order_ok (s_pending s (tkey ?t)) (s_cells s) ?t ?rs (requests s (tkey ?t))"
    using order_task [OF order_invariant [OF assms(1)] assms(2)] .
  then obtain rs' where rs': "map snd (tk_log ?t) = map classify_reply rs'" "rs' = ?rs \<or> (\<exists>m. ?rs = rs' @ [m])"
    and bounds: "length ?rs \<le> requests s (tkey ?t)" "requests s (tkey ?t) \<le> Suc (length rs')"
    by (auto simp: order_ok_def split: option.splits strand.splits)
  have len: "length (tk_log ?t) = length rs'" using rs'(1) by (metis length_map)
  have "snd ` set (tk_log ?t) = classify_reply ` set rs'" using rs'(1) by (metis list.set_map)
  moreover have "is_ok (classify_reply m) \<or> (\<exists>b. classify_reply m = Inl (ErrPeer b))" if "m \<in> set rs'" for m
    using that rs'(2) replies_kind [of m s "tkey ?t"] by (auto simp: classify_reply_def reply_kind_def)
  ultimately have "is_ok r \<or> (\<exists>b. r = Inl (ErrPeer b))" if "(j, r) \<in> set (tk_log ?t)" for j r
    using that by (metis (no_types, lifting) image_iff snd_conv)
  with rs' bounds len show ?thesis by (auto simp: Let_def list_all_iff)
qed

theorem results_are_the_replies_in_order_witness:
  "replies ex_answered (lit ''ch'', lit ''tx1'') = [ex_reply] \<and> map snd (tk_log (s_tasks ex_answered ! 0)) = [Inr ex_reply]"
proof -
  have replies: "replies ex_answered (lit ''ch'', lit ''tx1'') = [ex_reply]"
    by (simp add: replies_def reply_kind_def ex_reply_def)
  have "sys_run wire_prost None (ex_start @ ex_ask @ ex_answer) ex_init = Some ex_answered"
    by (simp add: sys_run_append ex_start_run ex_ask_run ex_answer_run)
  moreover have "all_orderly wire_prost None (ex_start @ ex_ask @ ex_answer) ex_init"
    by (simp add: all_orderly_append [OF ex_start_run] all_orderly_append [OF ex_ask_run] ex_orderly)
  moreover have "orderly wire_prost None (lit ''cc'') ex_init"
    unfolding ex_init_def by (rule orderly.init)
  ultimately have "orderly wire_prost None (lit ''cc'') ex_answered"
    using all_orderly_orderly by blast
  from results_are_the_replies_in_order [OF this, of 0] replies show ?thesis
    by (simp add: Let_def classify_reply_def ex_reply_def)
qed

subsection \<open>Progress\<close>

text \<open>C26. A reply reaches its caller: when a strand waits for its reply and the loop reads in state
  Ready, then receiving a RESPONSE or ERROR message for the transaction makes the call return
  with that message, and leaves the gate free for the next call.\<close>

theorem reply_is_delivered:
  assumes "reachable P meta cc_id s" and "s_loop s = Reading Ready" and "i < length (s_tasks s)"
    and "tk_strands (s_tasks s ! i) j = AwaitReply c" and "s_pending s (tkey (s_tasks s ! i)) = Some c"
    and "key_of m = tkey (s_tasks s ! i)" and "reply_kind (cm_kind m)"
  shows "\<exists>s'. sys_run P meta [Inbound d m, Receive i j] s = Some s'
    \<and> tk_log (s_tasks s' ! i) = tk_log (s_tasks s ! i) @ [(j, classify_reply m)]
    \<and> tk_strands (s_tasks s' ! i) j = Idle \<and> tk_gate (s_tasks s' ! i) = None
    \<and> s_pending s' = (s_pending s)(tkey (s_tasks s ! i) := None)"
proof -
  have "dispatch Ready (cm_kind m) = RouteResponse" using assms(7) by (simp add: dispatch_route_iff)
  then show ?thesis
    using assms(2-6) by (simp add: sys_step_def inbound_def route_response_def receive_def Let_def)
qed

theorem reply_is_delivered_witness:
  "\<exists>s'. sys_run wire_prost None [Inbound None ex_reply, Receive 0 0] ex_waiting = Some s'
    \<and> tk_log (s_tasks s' ! 0) = [(0, Inr ex_reply)]"
proof -
  have "classify_reply ex_reply = Inr ex_reply" "key_of ex_reply = (lit ''ch'', lit ''tx1'')"
    "reply_kind (cm_kind ex_reply)"
    by (simp_all add: ex_reply_def reply_kind_def classify_reply_def)
  with reply_is_delivered [OF ex_waiting_reachable, of 0 0 0 ex_reply None] show ?thesis by force
qed

text \<open>C27. A panic stays in its transaction: whatever the user's code does in the end, returning or
  panicking, the task sends one COMPLETED message for its transaction with the response (a 500
  response for a panic) and the event set last, and the loop, the other tasks and the
  other pending requests are untouched.\<close>

theorem user_code_ends_in_completed:
  assumes "i < length (s_tasks s)" and "tk_phase (s_tasks s ! i) = Running" and "s_open s" and "\<not> out_full s"
  shows "\<exists>s'. sys_run P meta [UserDone i outcome, CleanUp d i, TaskPush i] s = Some s'
    \<and> s_pushed s' = s_pushed s @ [(FromTask i, completed_message P d (fst (tkey (s_tasks s ! i)))
         (snd (tkey (s_tasks s ! i))) (outcome_response outcome) (tk_event (s_tasks s ! i)))]
    \<and> tk_phase (s_tasks s' ! i) = Finished True
    \<and> s_loop s' = s_loop s \<and> s_tasks s' = (s_tasks s)[i := s_tasks s' ! i]
    \<and> s_pending s' = (s_pending s)(tkey (s_tasks s ! i) := None)
    \<and> (case outcome of Panicked e \<Rightarrow> is_error (outcome_response outcome) | Returned r \<Rightarrow> outcome_response outcome = r)"
  using assms
  by (simp add: sys_step_def user_done_def clean_up_def task_push_def Let_def out_full_def
      split: user_outcome.split)

theorem user_code_ends_in_completed_witness:
  "\<exists>s'. sys_run wire_prost None [UserDone 0 (Panicked (lit ''boom'')), CleanUp None 0, TaskPush 0] ex_running = Some s'
    \<and> s_pushed s' = s_pushed ex_running @ [(FromTask 0, completed_message wire_prost None (lit ''ch'') (lit ''tx1'')
         (response_error (lit ''chaincode handler panicked: '' @ lit ''boom'')) None)]"
  using user_code_ends_in_completed [of 0 ex_running wire_prost None "Panicked (lit ''boom'')" None]
  by (auto simp: out_full_def OUT_CAPACITY_def)

text \<open>The situation of a call that is in flight when the loop has returned.\<close>

definition stranded :: "nat \<Rightarrow> nat \<Rightarrow> nat \<Rightarrow> sys \<Rightarrow> bool" where
  "stranded i j c s \<longleftrightarrow> s_loop s = Closed \<and> distinct (map tkey (s_tasks s)) \<and> i < length (s_tasks s)
     \<and> tk_strands (s_tasks s ! i) j = AwaitReply c \<and> s_pending s (tkey (s_tasks s ! i)) = Some c"

fun leaves_call :: "nat \<Rightarrow> nat \<Rightarrow> action \<Rightarrow> bool" where
  "leaves_call i j (Cancel i' j') \<longleftrightarrow> i' = i \<and> j' = j"
| "leaves_call i j (CleanUp d i') \<longleftrightarrow> i' = i"
| "leaves_call i j _ \<longleftrightarrow> False"

lemma stranded_step:
  assumes rel: "sys_rel P meta a s s'" and st: "stranded i j c s" and no: "\<not> leaves_call i j a"
    and base: "gate_inv s" "pending_inv s"
  shows "stranded i j c s'"
proof -
  have gate: "gate_ok (s_tasks s ! i)" and wait: "s_cells s c = Waiting"
    and pend: "s_pending s (tkey (s_tasks s ! i)) = Some c" and loop: "s_loop s = Closed"
    and await: "tk_strands (s_tasks s ! i) j = AwaitReply c"
    using st base by (auto simp: stranded_def gate_inv_def pending_inv_def)
  have holder: "tk_gate (s_tasks s ! i) = Some j" using gate_ok_holder [OF gate, of j c] await by simp
  have other: "tkey (s_tasks s ! i') \<noteq> tkey (s_tasks s ! i)" if "i' < length (s_tasks s)" "i' \<noteq> i" for i'
    using st that by (auto simp: stranded_def distinct_conv_nth)
  have mine: "j' = j" if "strand_cell (tk_strands (s_tasks s ! i) j') = Some c'" for j' c'
    using gate_ok_unique [OF gate, of j c j' c'] await that by simp
  note simps = stranded_def nth_list_update map_update_same
  from rel show ?thesis
  proof cases
    case (strand_failed i' tk j' c' m)
    have "i' \<noteq> i" using mine [of j' c'] strand_failed await by auto
    with strand_failed other [of i'] show ?thesis using st by (auto simp: simps)
  next
    case (strand_sent i' tk j' c' m)
    have "i' \<noteq> i" using mine [of j' c'] strand_sent await by auto
    with strand_sent show ?thesis using st by (auto simp: simps)
  next
    case (received i' tk j' c' m)
    have "i' \<noteq> i" using mine [of j' c'] received await wait by auto
    with received show ?thesis using st by (auto simp: simps)
  next
    case (sender_dropped i' tk j' c')
    have "i' \<noteq> i" using mine [of j' c'] sender_dropped await wait by auto
    with sender_dropped show ?thesis using st by (auto simp: simps)
  next
    case (cancelled i' tk j' c' m)
    have "i' \<noteq> i" using mine [of j' c'] cancelled no by auto
    with cancelled show ?thesis using st by (auto simp: simps)
  next
    case (cleaned i' tk resp m d)
    have "i' \<noteq> i" using cleaned no by auto
    with cleaned other [of i'] show ?thesis using st by (auto simp: simps)
  next
    case (registered i' tk j' t b c' d)
    have "i' \<noteq> i" using registered holder by auto
    with registered other [of i'] show ?thesis using st by (auto simp: simps)
  next
    case (refused i' tk j' t b c' d)
    have "i' \<noteq> i" using refused holder by auto
    with refused show ?thesis using st by (auto simp: simps)
  next
    case (requested i' tk bs j' t b)
    with await show ?thesis using st by (auto simp: simps)
  next
    case (cancelled_wait i' tk j' t b)
    with await show ?thesis using st by (auto simp: simps)
  qed (use st loop await in \<open>auto simp: simps\<close>)
qed

lemma stranded_run:
  assumes "sys_run P meta as s = Some s'" and "reachable P meta cc_id s" and "stranded i j c s"
    and "list_all (\<lambda>a. \<not> leaves_call i j a) as"
  shows "stranded i j c s' \<and> reachable P meta cc_id s'"
  using assms
proof (induction as arbitrary: s)
  case (Cons a as)
  then obtain t where t: "sys_step P meta a s = Some t" "sys_run P meta as t = Some s'"
    by (auto simp: bind_eq_Some_conv)
  have "stranded i j c t"
    using stranded_step [OF sys_step_rel [OF t(1)] Cons.prems(3)] Cons.prems gate_invariant [OF Cons.prems(2)]
      cells_invariant [OF Cons.prems(2)] by simp
  with Cons t reachable.step show ?case by fastforce
qed simp

text \<open>C38. A call that is in flight when the peer's stream ends never returns: whatever happens then,
  until the call is dropped or its task cleans up (which needs the user's code to be done), the
  strand keeps waiting and receiving is never possible, so \<open>ConnectionClosed\<close> is not
  delivered. (The task itself keeps the sending half of the reply channel alive.)\<close>

theorem in_flight_call_hangs_after_close:
  assumes "reachable P meta cc_id s" and "stranded i j c s"
    and "sys_run P meta as s = Some s'" and "list_all (\<lambda>a. \<not> leaves_call i j a) as"
  shows "tk_strands (s_tasks s' ! i) j = AwaitReply c \<and> sys_step P meta (Receive i j) s' = None"
proof -
  have st: "stranded i j c s'" and r: "reachable P meta cc_id s'"
    using stranded_run [OF assms(3,1,2,4)] by simp_all
  have "s_cells s' c = Waiting" using st cells_invariant [OF r] by (auto simp: stranded_def pending_inv_def)
  with st show ?thesis by (auto simp: stranded_def sys_step_def receive_def Let_def)
qed

theorem in_flight_call_hangs_after_close_witness:
  "\<exists>s'. sys_run wire_prost None [InboundEnd, PeerGone, EmitEvent 0 \<lparr>ev_chaincode_id = [], ev_tx_id = [],
       ev_event_name = [], ev_payload = []\<rparr>] ex_waiting = Some s'
    \<and> tk_strands (s_tasks s' ! 0) 0 = AwaitReply 0 \<and> sys_step wire_prost None (Receive 0 0) s' = None"
proof -
  let ?e = "EmitEvent 0 \<lparr>ev_chaincode_id = [], ev_tx_id = [], ev_event_name = [], ev_payload = []\<rparr>"
  let ?s = "ex_waiting\<lparr>s_loop := Closed\<rparr>"
  have closed: "sys_step wire_prost None InboundEnd ex_waiting = Some ?s"
    by (simp add: sys_step_def inbound_end_def)
  obtain s' where run: "sys_run wire_prost None [PeerGone, ?e] ?s = Some s'"
    by (simp add: sys_step_def peer_gone_def emit_event_def Let_def)
  have "stranded 0 0 0 ?s" by (simp add: stranded_def)
  moreover have "reachable wire_prost None (lit ''cc'') ?s"
    using reachable.step [OF ex_waiting_reachable closed] .
  ultimately have "tk_strands (s_tasks s' ! 0) 0 = AwaitReply 0 \<and> sys_step wire_prost None (Receive 0 0) s' = None"
    using in_flight_call_hangs_after_close [OF _ _ run] by simp
  with closed run show ?thesis by (intro exI [of _ s']) simp
qed

text \<open>C39. Dropping a call is not undone: when the future of a call that has registered its request is
  dropped (a timeout around it, say), the gate opens but the pending entry stays, so the next
  call of the same transaction is refused although nothing else runs.\<close>

theorem dropped_call_blocks_next_call:
  assumes "reachable P meta cc_id s" and "i < length (s_tasks s)"
    and "strand_cell (tk_strands (s_tasks s ! i) j) = Some c" and "s_pending s (tkey (s_tasks s ! i)) = Some c"
    and "t \<in> set LEDGER_REQUESTS"
  shows "\<exists>s'. sys_run P meta [Cancel i j, Request i j t b, Acquire d i j] s = Some s'
    \<and> tk_log (s_tasks s' ! i) = tk_log (s_tasks s ! i) @ [(j, Inl (in_flight_error (snd (tkey (s_tasks s ! i)))))]
    \<and> s_pending s' (tkey (s_tasks s ! i)) = Some c"
proof -
  obtain ch tx where key: "tkey (s_tasks s ! i) = (ch, tx)" by (cases "tkey (s_tasks s ! i)")
  have "tk_strands (s_tasks s ! i) j \<noteq> Idle" using assms(3) by auto
  then have "tk_stub (s_tasks s ! i) \<noteq> None"
    using sent_invariant [OF assms(1)] assms(2) unfolding sent_inv_def stub_inv_def by blast
  with assms(2-5) key show ?thesis
    by (cases "tk_strands (s_tasks s ! i) j")
      (auto simp: sys_step_def cancel_def request_def acquire_def Let_def)
qed

theorem dropped_call_blocks_next_call_witness:
  "\<exists>s'. sys_run wire_prost None [Cancel 0 0, Request 0 0 MT_PutState [], Acquire None 0 0] ex_waiting = Some s'
    \<and> tk_log (s_tasks s' ! 0) = [(0, Inl (in_flight_error (lit ''tx1'')))]"
  using dropped_call_blocks_next_call [OF ex_waiting_reachable, of 0 0 0 MT_PutState "[]" None]
  by (auto simp: LEDGER_REQUESTS_def simp del: sys_run.simps)

end
