(* ===== verification/Server.thy ===== *)
theory Server imports Connection
begin

section \<open>The server\<close>

text \<open>
  The part of \<open>fabric-shim/src/server.rs\<close> that is not I/O: \<open>Server::from_env\<close>, \<open>Server::new\<close>,
  \<open>max_message_size\<close>, and the connection \<open>ChaincodeService::connect\<close> starts. An
  \<open>environment\<close> gives the value of a variable, or nothing when \<open>std::env::var\<close> fails (not set, or
  not Unicode). \<open>resolve\<close> is \<open>to_socket_addrs\<close> of the standard library: the addresses, or the
  error's text; \<open>'a\<close> is the type of socket addresses. \<open>esc\<close> is as in \<open>debug_str\<close>.

  The running server is a step function on events: tonic accepts a connection until the shutdown
  future resolves, which starts a task of its own for it (\<open>run_connection\<close>, theory \<open>System\<close>); the
  tasks share nothing but the chaincode. The lemmas show that each connection runs as if it were alone,
  and that none is accepted after the shutdown.
\<close>

type_synonym environment = "str \<Rightarrow> str option"

record 'a server =
  sv_chaincode_id :: str
  sv_address :: 'a
  sv_max_message_size :: nat

definition DEFAULT_MAX_MESSAGE_SIZE :: nat where
  "DEFAULT_MAX_MESSAGE_SIZE = 100 * 1024 * 1024"

definition server_new :: "(uchr \<Rightarrow> bool) \<Rightarrow> (str \<Rightarrow> str + 'a list) \<Rightarrow> str \<Rightarrow> str \<Rightarrow> shim_error + 'a server" where
  "server_new esc resolve chaincode_id address =
     (if chaincode_id = [] then Inl (ErrConfig (lit ''chaincode id must not be empty''))
      else res_bind
        (res_map_err (\<lambda>e. ErrConfig (lit ''invalid address '' @ debug_str esc address @ lit '': '' @ e)) (resolve address))
        (\<lambda>addrs. case addrs of
           [] \<Rightarrow> Inl (ErrConfig (lit ''address '' @ debug_str esc address @ lit '' resolved to nothing''))
         | addr # _ \<Rightarrow> Inr \<lparr>sv_chaincode_id = chaincode_id, sv_address = addr,
             sv_max_message_size = DEFAULT_MAX_MESSAGE_SIZE\<rparr>))"

definition max_message_size :: "nat \<Rightarrow> 'a server \<Rightarrow> 'a server" where
  "max_message_size n server = server\<lparr>sv_max_message_size := n\<rparr>"

text \<open>\<open>var(first).or_else(|_| var(second))\<close>.\<close>

definition env_either :: "environment \<Rightarrow> string \<Rightarrow> string \<Rightarrow> str option" where
  "env_either env first second = (case env (lit first) of Some v \<Rightarrow> Some v | None \<Rightarrow> env (lit second))"

definition from_env :: "(uchr \<Rightarrow> bool) \<Rightarrow> (str \<Rightarrow> str + 'a list) \<Rightarrow> environment \<Rightarrow> shim_error + 'a server" where
  "from_env esc resolve env =
     (case env_either env ''CHAINCODE_ID'' ''CORE_CHAINCODE_ID'' of
        None \<Rightarrow> Inl (ErrConfig (lit ''CHAINCODE_ID (or CORE_CHAINCODE_ID) is not set''))
      | Some chaincode_id \<Rightarrow>
          let address = (case env_either env ''CHAINCODE_SERVER_ADDRESS'' ''CORE_CHAINCODE_ADDRESS'' of
                Some a \<Rightarrow> a | None \<Rightarrow> lit ''0.0.0.0:7052'') in
          server_new esc resolve chaincode_id address)"

text \<open>The connection the service starts for a peer.\<close>

definition server_connect :: "prost \<Rightarrow> clock \<Rightarrow> 'a server \<Rightarrow> sys" where
  "server_connect P d server = sys_init P d (sv_chaincode_id server)"

subsection \<open>Serving\<close>

datatype os_signal = Sigterm | Interrupt | Other_Signal

text \<open>Whether a signal ends the wait: if the SIGTERM handler cannot be installed, the future never resolves.\<close>

definition shutdown_signal :: "bool \<Rightarrow> os_signal \<Rightarrow> bool" where
  "shutdown_signal installed sig = (if \<not> installed then False else sig = Sigterm \<or> sig = Interrupt)"

record serving =
  sg_listening :: bool
  sg_connections :: "sys list"

datatype server_event =
    Connect clock
  | Moves nat action
  | Signalled os_signal

definition serve_start :: serving where
  "serve_start = \<lparr>sg_listening = True, sg_connections = []\<rparr>"

text \<open>\<open>serve_with_listener\<close>: \<open>shutdown\<close> says which signals resolve its future.\<close>

fun serve_step :: "prost \<Rightarrow> metadata_reply \<Rightarrow> (os_signal \<Rightarrow> bool) \<Rightarrow> 'a server \<Rightarrow> server_event \<Rightarrow> serving \<Rightarrow> serving option" where
  "serve_step P meta shutdown server (Connect d) g =
     (if sg_listening g then Some (g\<lparr>sg_connections := sg_connections g @ [server_connect P d server]\<rparr>) else None)"
| "serve_step P meta shutdown server (Moves i a) g =
     (if i < length (sg_connections g)
      then map_option (\<lambda>s. g\<lparr>sg_connections := (sg_connections g)[i := s]\<rparr>) (sys_step P meta a (sg_connections g ! i))
      else None)"
| "serve_step P meta shutdown server (Signalled sig) g =
     Some (if shutdown sig then g\<lparr>sg_listening := False\<rparr> else g)"

fun serve_with_listener :: "prost \<Rightarrow> metadata_reply \<Rightarrow> (os_signal \<Rightarrow> bool) \<Rightarrow> 'a server \<Rightarrow> server_event list \<Rightarrow> serving \<Rightarrow> serving option" where
  "serve_with_listener P meta shutdown server [] g = Some g"
| "serve_with_listener P meta shutdown server (e # es) g =
     Option.bind (serve_step P meta shutdown server e g) (serve_with_listener P meta shutdown server es)"

text \<open>\<open>start\<close>: \<open>bind\<close> is the platform's, with the text of its error, and \<open>show_addr\<close> writes an address.\<close>

definition start :: "('a \<Rightarrow> str + unit) \<Rightarrow> ('a \<Rightarrow> str) \<Rightarrow> bool \<Rightarrow> prost \<Rightarrow> metadata_reply \<Rightarrow> 'a server \<Rightarrow> server_event list \<Rightarrow>
    shim_error + serving option" where
  "start bind show_addr installed P meta server es =
     res_map (\<lambda>_. serve_with_listener P meta (shutdown_signal installed) server es serve_start)
       (res_map_err (\<lambda>e. ErrTransport (lit ''bind '' @ show_addr (sv_address server) @ lit '': '' @ e)) (bind (sv_address server)))"

subsection \<open>Connections do not interfere\<close>

text \<open>The actions of one connection in the events of the server.\<close>

definition moves_of :: "nat \<Rightarrow> server_event list \<Rightarrow> action list" where
  "moves_of i es = List.map_filter (\<lambda>e. case e of Moves j a \<Rightarrow> if j = i then Some a else None | _ \<Rightarrow> None) es"

lemma moves_of_simps [simp]:
  "moves_of i [] = []" "moves_of i (Connect d # es) = moves_of i es" "moves_of i (Signalled sig # es) = moves_of i es"
  "moves_of i (Moves j a # es) = (if j = i then a # moves_of i es else moves_of i es)"
  by (simp_all add: moves_of_def List.map_filter_def)

lemma existing_connection:
  assumes "serve_with_listener P meta shutdown server es g = Some g'" and "i < length (sg_connections g)"
  shows "i < length (sg_connections g')
    \<and> sys_run P meta (moves_of i es) (sg_connections g ! i) = Some (sg_connections g' ! i)"
  using assms
proof (induction es arbitrary: g)
  case (Cons e es)
  then obtain h where h: "serve_step P meta shutdown server e g = Some h" "serve_with_listener P meta shutdown server es h = Some g'"
    by (auto split: bind_splits)
  show ?case
  proof (cases e)
    case (Connect d)
    with h(1) have "h = g\<lparr>sg_connections := sg_connections g @ [server_connect P d server]\<rparr>" by (auto split: if_splits)
    with Cons.IH [OF h(2)] Cons.prems(2) Connect show ?thesis by (simp add: nth_append)
  next
    case (Moves j a)
    with h(1) obtain s where "sys_step P meta a (sg_connections g ! j) = Some s" "j < length (sg_connections g)"
      "h = g\<lparr>sg_connections := (sg_connections g)[j := s]\<rparr>" by (auto split: if_splits)
    with Cons.IH [OF h(2)] Cons.prems(2) Moves show ?thesis by (cases "j = i") auto
  next
    case (Signalled sig)
    with h(1) have "sg_connections h = sg_connections g" by auto
    with Cons.IH [OF h(2)] Cons.prems(2) Signalled show ?thesis by simp
  qed
qed simp

lemma connection_runs_alone:
  assumes "serve_with_listener P meta shutdown server es g = Some g'" and "i < length (sg_connections g')"
    and "length (sg_connections g) \<le> i"
  shows "\<exists>d. sys_run P meta (moves_of i es) (server_connect P d server) = Some (sg_connections g' ! i)"
  using assms
proof (induction es arbitrary: g)
  case (Cons e es)
  then obtain h where h: "serve_step P meta shutdown server e g = Some h" "serve_with_listener P meta shutdown server es h = Some g'"
    by (auto split: bind_splits)
  show ?case
  proof (cases e)
    case (Connect d)
    with h(1) have conns: "sg_connections h = sg_connections g @ [server_connect P d server]" by (auto split: if_splits)
    show ?thesis
    proof (cases "i = length (sg_connections g)")
      case True
      with existing_connection [OF h(2), of i] conns Connect show ?thesis by auto
    next
      case False
      with Cons.IH [OF h(2) Cons.prems(2)] Cons.prems(3) conns Connect show ?thesis by simp
    qed
  next
    case (Moves j a)
    with h(1) obtain s where "sg_connections h = (sg_connections g)[j := s]" "j < length (sg_connections g)"
      by (auto split: if_splits)
    with Cons.IH [OF h(2) Cons.prems(2)] Cons.prems(3) Moves show ?thesis by auto
  next
    case (Signalled sig)
    with h(1) have "sg_connections h = sg_connections g" by auto
    with Cons.IH [OF h(2) Cons.prems(2)] Cons.prems(3) Signalled show ?thesis by simp
  qed
qed simp

lemma no_connection_after_shutdown:
  assumes "serve_with_listener P meta shutdown server es g = Some g'" and "\<not> sg_listening g"
  shows "length (sg_connections g') = length (sg_connections g) \<and> \<not> sg_listening g'"
  using assms
proof (induction es arbitrary: g)
  case (Cons e es)
  then obtain h where h: "serve_step P meta shutdown server e g = Some h" "serve_with_listener P meta shutdown server es h = Some g'"
    by (auto split: bind_splits)
  from h(1) Cons.prems(2) have "length (sg_connections h) = length (sg_connections g)" "\<not> sg_listening h"
    by (cases e; auto split: if_splits)+
  with Cons.IH [OF h(2)] show ?case by simp
qed simp

text \<open>So what theory \<open>Connection\<close> says of reachable states holds of every connection of a server.\<close>

lemma server_connections_reachable:
  assumes "start bind show_addr installed P meta server es = Inr (Some g)" and "i < length (sg_connections g)"
  shows "reachable P meta (sv_chaincode_id server) (sg_connections g ! i)"
proof -
  from assms(1) have "serve_with_listener P meta (shutdown_signal installed) server es serve_start = Some g"
    by (auto simp: start_def res_map_Inr_iff)
  from connection_runs_alone [OF this assms(2)] obtain d where
    "sys_run P meta (moves_of i es) (server_connect P d server) = Some (sg_connections g ! i)"
    by (auto simp: serve_start_def)
  from run_reachable [OF this] show ?thesis unfolding server_connect_def by (blast intro: reachable.init)
qed

subsection \<open>Properties\<close>

lemma server_new_ok_iff:
  "server_new esc resolve chaincode_id address = Inr server \<longleftrightarrow>
     chaincode_id \<noteq> [] \<and> (\<exists>addr rest. resolve address = Inr (addr # rest)
       \<and> server = \<lparr>sv_chaincode_id = chaincode_id, sv_address = addr, sv_max_message_size = DEFAULT_MAX_MESSAGE_SIZE\<rparr>)"
  by (cases "resolve address") (auto simp: server_new_def split: list.splits)

lemma server_new_error: "server_new esc resolve chaincode_id address = Inl e \<Longrightarrow> \<exists>text. e = ErrConfig text"
  by (cases "resolve address") (auto simp: server_new_def split: list.splits if_splits)

lemma from_env_ok_iff:
  "from_env esc resolve env = Inr server \<longleftrightarrow>
     (\<exists>cc_id addr rest. env_either env ''CHAINCODE_ID'' ''CORE_CHAINCODE_ID'' = Some cc_id \<and> cc_id \<noteq> []
      \<and> resolve (or_else (env_either env ''CHAINCODE_SERVER_ADDRESS'' ''CORE_CHAINCODE_ADDRESS'') (lit ''0.0.0.0:7052''))
          = Inr (addr # rest)
      \<and> server = \<lparr>sv_chaincode_id = cc_id, sv_address = addr, sv_max_message_size = DEFAULT_MAX_MESSAGE_SIZE\<rparr>)"
  by (auto simp: from_env_def server_new_ok_iff or_else_def split: option.splits)

lemma from_env_error:
  "from_env esc resolve env = Inl e \<Longrightarrow> \<exists>text. e = ErrConfig text"
  by (auto simp: from_env_def Let_def dest: server_new_error split: option.splits)

lemma connection_registers:
  assumes "sys_run P meta as (server_connect P d server) = Some s" and "s_pushed s \<noteq> []"
  shows "\<exists>d'. hd (s_pushed s) = (FromLoop, register_message P d' (sv_chaincode_id server))"
proof -
  have "reachable P meta (sv_chaincode_id server) s"
    using run_reachable [OF assms(1)] unfolding server_connect_def by (blast intro: reachable.init)
  from register_invariant [OF this] assms(2) show ?thesis by (auto simp: register_inv_def)
qed

lemma started_connection:
  assumes "start bind show_addr installed P meta server es = Inr (Some g)" and "i < length (sg_connections g)"
  shows "\<exists>d. sys_run P meta (moves_of i es) (server_connect P d server) = Some (sg_connections g ! i)"
    and "s_pushed (sg_connections g ! i) \<noteq> [] \<Longrightarrow>
      \<exists>d. hd (s_pushed (sg_connections g ! i)) = (FromLoop, register_message P d (sv_chaincode_id server))"
proof -
  from assms(1) have "serve_with_listener P meta (shutdown_signal installed) server es serve_start = Some g"
    by (auto simp: start_def res_map_Inr_iff)
  from connection_runs_alone [OF this assms(2)]
  show run: "\<exists>d. sys_run P meta (moves_of i es) (server_connect P d server) = Some (sg_connections g ! i)"
    by (simp add: serve_start_def)
  show "\<exists>d. hd (s_pushed (sg_connections g ! i)) = (FromLoop, register_message P d (sv_chaincode_id server))"
    if "s_pushed (sg_connections g ! i) \<noteq> []"
    using run connection_registers that by blast
qed

text \<open>C32. A server configured from the environment announces itself under the configured id: \<open>from_env\<close>
  succeeds exactly when the first variable set of \<open>CHAINCODE_ID\<close> and \<open>CORE_CHAINCODE_ID\<close> is not empty and the address
  (the first variable set of its two, or \<open>0.0.0.0:7052\<close>) resolves to at least one address; any other outcome
  is a configuration error. Whatever the peers, the platform's signals and the other connections do, every connection
  the started server has is one that ran alone on its own moves, and the first message it sends is REGISTER with
  exactly this id.\<close>

theorem configured_server_registers_its_id:
  assumes "env_id = env_either env ''CHAINCODE_ID'' ''CORE_CHAINCODE_ID''"
    and "addr = or_else (env_either env ''CHAINCODE_SERVER_ADDRESS'' ''CORE_CHAINCODE_ADDRESS'') (lit ''0.0.0.0:7052'')"
  shows "case from_env esc resolve env of
      Inl e \<Rightarrow> (\<exists>text. e = ErrConfig text)
        \<and> (env_id = None \<or> env_id = Some [] \<or> \<not> is_ok (resolve addr) \<or> resolve addr = Inr [])
    | Inr server \<Rightarrow> env_id = Some (sv_chaincode_id server) \<and> sv_chaincode_id server \<noteq> []
        \<and> (\<exists>rest. resolve addr = Inr (sv_address server # rest))
        \<and> (\<forall>bind show_addr installed P meta es g i.
             start bind show_addr installed P meta server es = Inr (Some g) \<and> i < length (sg_connections g) \<longrightarrow>
               (\<exists>d. sys_run P meta (moves_of i es) (server_connect P d server) = Some (sg_connections g ! i))
             \<and> (s_pushed (sg_connections g ! i) \<noteq> [] \<longrightarrow>
                 (\<exists>d. hd (s_pushed (sg_connections g ! i)) = (FromLoop, register_message P d (sv_chaincode_id server)))))"
proof (cases "from_env esc resolve env")
  case (Inl e)
  have "env_id = None \<or> env_id = Some [] \<or> \<not> is_ok (resolve addr) \<or> resolve addr = Inr []"
  proof (rule ccontr)
    assume "\<not> ?thesis"
    then obtain cc_id a rest where "env_id = Some cc_id" "cc_id \<noteq> []" "resolve addr = Inr (a # rest)"
      by (cases env_id; cases "resolve addr") (auto simp: neq_Nil_conv)
    then have "\<exists>server. from_env esc resolve env = Inr server"
      unfolding from_env_ok_iff assms by blast
    with Inl show False by simp
  qed
  with Inl from_env_error [OF Inl] show ?thesis by simp
next
  case (Inr server)
  then have "env_id = Some (sv_chaincode_id server) \<and> sv_chaincode_id server \<noteq> []
      \<and> (\<exists>rest. resolve addr = Inr (sv_address server # rest))"
    by (auto simp: from_env_ok_iff assms)
  with Inr show ?thesis by (auto intro: started_connection)
qed

text \<open>The platform sets only the fallback of the id; two peers connect, the second connection registers, and SIGTERM ends
  the listening.\<close>

definition ex_environment :: environment where
  "ex_environment = [lit ''CORE_CHAINCODE_ID'' \<mapsto> lit ''basic_1.0:cafe'']"

definition ex_server_events :: "server_event list" where
  "ex_server_events = [Connect None, Connect None, Moves 1 LoopPush, Signalled Sigterm]"

theorem configured_server_registers_its_id_witness:
  "\<exists>server g d. from_env (\<lambda>_. False) (\<lambda>a. Inr [a]) ex_environment = Inr server
     \<and> sv_chaincode_id server = lit ''basic_1.0:cafe'' \<and> sv_address server = lit ''0.0.0.0:7052''
     \<and> start (\<lambda>_. Inr ()) id True wire_prost None server ex_server_events = Inr (Some g) \<and> length (sg_connections g) = 2
     \<and> hd (s_pushed (sg_connections g ! 1)) = (FromLoop, register_message wire_prost d (lit ''basic_1.0:cafe''))"
proof -
  have envs: "env_either ex_environment ''CHAINCODE_ID'' ''CORE_CHAINCODE_ID'' = Some (lit ''basic_1.0:cafe'')"
    "env_either ex_environment ''CHAINCODE_SERVER_ADDRESS'' ''CORE_CHAINCODE_ADDRESS'' = None"
    by (simp_all add: env_either_def ex_environment_def)
  let ?from = "from_env (\<lambda>_. False) (\<lambda>a. Inr [a]) ex_environment"
  note claim = configured_server_registers_its_id [OF refl refl,
        where esc = "\<lambda>_. False" and resolve = "\<lambda>a. Inr [a]" and env = ex_environment]
  from claim obtain server where server: "?from = Inr server" by (cases ?from) (simp_all add: envs or_else_def)
  with claim have id: "sv_chaincode_id server = lit ''basic_1.0:cafe''" "sv_address server = lit ''0.0.0.0:7052''"
    by (simp_all add: envs or_else_def)
  obtain g where g: "start (\<lambda>_. Inr ()) id True wire_prost None server ex_server_events = Inr (Some g)"
      "length (sg_connections g) = 2" "s_pushed (sg_connections g ! 1) \<noteq> []"
    by (simp add: start_def ex_server_events_def serve_start_def server_connect_def sys_init_def loop_push_def
        out_full_def OUT_CAPACITY_def push_out_def sys_step_def)
  with claim server id have "\<exists>d. hd (s_pushed (sg_connections g ! 1)) = (FromLoop, register_message wire_prost d (lit ''basic_1.0:cafe''))"
    by fastforce
  with server id g show ?thesis by blast
qed

end
