(* ===== verification/Grpc_Services.thy ===== *)
theory Grpc_Services imports Server
begin

section \<open>The generated gRPC services and clients\<close>

text \<open>
  The modules \<open>chaincode_server\<close>, \<open>chaincode_support_server\<close>, \<open>chaincode_client\<close> and \<open>chaincode_support_client\<close> that
  tonic-build generates in \<open>protos.rs\<close>: the servers' configuration and their routing of HTTP requests by path, and
  the clients' calls. tonic itself is a parameter: \<open>tonic_server\<close> and \<open>tonic_client\<close> hold the operations the generated
  code calls. \<open>'c\<close> is a set of compression encodings, \<open>'e\<close> one encoding, \<open>'b\<close> an HTTP body, \<open>'q\<close> a stream of
  requests and \<open>'r\<close> what a method returns. Both servers keep the interface \<open>grpc_route\<close>, whose laws say where a request goes.
\<close>

subsection \<open>HTTP\<close>

record 'b http_request =
  rq_path :: str
  rq_body :: 'b

record 'b http_response =
  hr_status :: nat
  hr_headers :: "(str \<times> str) list"
  hr_body :: 'b

text \<open>\<open>http::Response::new\<close>: status 200 and no headers.\<close>

definition http_response_new :: "'b \<Rightarrow> 'b http_response" where
  "http_response_new b = \<lparr>hr_status = 200, hr_headers = [], hr_body = b\<rparr>"

text \<open>The headers have other names, so \<open>insert\<close> adds them.\<close>

definition header_insert :: "str \<Rightarrow> str \<Rightarrow> 'b http_response \<Rightarrow> 'b http_response" where
  "header_insert k v r = r\<lparr>hr_headers := filter (\<lambda>h. fst h \<noteq> k) (hr_headers r) @ [(k, v)]\<rparr>"

definition CODE_UNIMPLEMENTED :: nat where
  "CODE_UNIMPLEMENTED = 12"

text \<open>What tonic offers a server: its empty set of encodings, \<open>enable\<close>, and \<open>Grpc::streaming\<close> with the compression and
  size configuration applied; and the default body of a response.\<close>

record ('c, 'e, 'b, 'q, 'r) tonic_server =
  ts_no_encodings :: 'c
  ts_enable :: "'e \<Rightarrow> 'c \<Rightarrow> 'c"
  ts_streaming :: "'c \<Rightarrow> 'c \<Rightarrow> nat option \<Rightarrow> nat option \<Rightarrow> ('q \<Rightarrow> 'r) \<Rightarrow> 'b http_request \<Rightarrow> 'b http_response"
  ts_empty_body :: 'b

subsection \<open>ChaincodeServer\<close>

text \<open>\<open>inner\<close> is the method \<open>connect\<close> of the service it wraps.\<close>

record ('c, 'q, 'r) chaincode_server =
  ccs_inner :: "'q \<Rightarrow> 'r"
  ccs_accept_compression_encodings :: 'c
  ccs_send_compression_encodings :: 'c
  ccs_max_decoding_message_size :: "nat option"
  ccs_max_encoding_message_size :: "nat option"

definition chaincode_server_new :: "('c, 'e, 'b, 'q, 'r) tonic_server \<Rightarrow> ('q \<Rightarrow> 'r) \<Rightarrow> ('c, 'q, 'r) chaincode_server" where
  "chaincode_server_new T inner = \<lparr>ccs_inner = inner, ccs_accept_compression_encodings = ts_no_encodings T,
     ccs_send_compression_encodings = ts_no_encodings T, ccs_max_decoding_message_size = None,
     ccs_max_encoding_message_size = None\<rparr>"

definition ccs_accept_compressed :: "('c, 'e, 'b, 'q, 'r) tonic_server \<Rightarrow> 'e \<Rightarrow> ('c, 'q, 'r) chaincode_server \<Rightarrow> ('c, 'q, 'r) chaincode_server" where
  "ccs_accept_compressed T encoding s =
     s\<lparr>ccs_accept_compression_encodings := ts_enable T encoding (ccs_accept_compression_encodings s)\<rparr>"

definition ccs_send_compressed :: "('c, 'e, 'b, 'q, 'r) tonic_server \<Rightarrow> 'e \<Rightarrow> ('c, 'q, 'r) chaincode_server \<Rightarrow> ('c, 'q, 'r) chaincode_server" where
  "ccs_send_compressed T encoding s =
     s\<lparr>ccs_send_compression_encodings := ts_enable T encoding (ccs_send_compression_encodings s)\<rparr>"

definition ccs_limit_decoding :: "nat \<Rightarrow> ('c, 'q, 'r) chaincode_server \<Rightarrow> ('c, 'q, 'r) chaincode_server" where
  "ccs_limit_decoding limit s = s\<lparr>ccs_max_decoding_message_size := Some limit\<rparr>"

definition ccs_limit_encoding :: "nat \<Rightarrow> ('c, 'q, 'r) chaincode_server \<Rightarrow> ('c, 'q, 'r) chaincode_server" where
  "ccs_limit_encoding limit s = s\<lparr>ccs_max_encoding_message_size := Some limit\<rparr>"

definition ccs_call :: "('c, 'e, 'b, 'q, 'r) tonic_server \<Rightarrow> ('c, 'q, 'r) chaincode_server \<Rightarrow> 'b http_request \<Rightarrow> 'b http_response" where
  "ccs_call T s req =
     (if rq_path req = lit ''/protos.Chaincode/Connect'' then
        ts_streaming T (ccs_accept_compression_encodings s) (ccs_send_compression_encodings s)
          (ccs_max_decoding_message_size s) (ccs_max_encoding_message_size s) (ccs_inner s) req
      else header_insert (lit ''content-type'') (lit ''application/grpc'')
        (header_insert (lit ''grpc-status'') (show_nat CODE_UNIMPLEMENTED) (http_response_new (ts_empty_body T))))"

definition CCS_SERVICE_NAME :: str where
  "CCS_SERVICE_NAME = lit ''protos.Chaincode''"

subsection \<open>ChaincodeSupportServer\<close>

text \<open>\<open>inner\<close> is the method \<open>register\<close> of the service it wraps.\<close>

record ('c, 'q, 'r) support_server =
  sps_inner :: "'q \<Rightarrow> 'r"
  sps_accept_compression_encodings :: 'c
  sps_send_compression_encodings :: 'c
  sps_max_decoding_message_size :: "nat option"
  sps_max_encoding_message_size :: "nat option"

definition support_server_new :: "('c, 'e, 'b, 'q, 'r) tonic_server \<Rightarrow> ('q \<Rightarrow> 'r) \<Rightarrow> ('c, 'q, 'r) support_server" where
  "support_server_new T inner = \<lparr>sps_inner = inner, sps_accept_compression_encodings = ts_no_encodings T,
     sps_send_compression_encodings = ts_no_encodings T, sps_max_decoding_message_size = None,
     sps_max_encoding_message_size = None\<rparr>"

definition sps_accept_compressed :: "('c, 'e, 'b, 'q, 'r) tonic_server \<Rightarrow> 'e \<Rightarrow> ('c, 'q, 'r) support_server \<Rightarrow> ('c, 'q, 'r) support_server" where
  "sps_accept_compressed T encoding s =
     s\<lparr>sps_accept_compression_encodings := ts_enable T encoding (sps_accept_compression_encodings s)\<rparr>"

definition sps_send_compressed :: "('c, 'e, 'b, 'q, 'r) tonic_server \<Rightarrow> 'e \<Rightarrow> ('c, 'q, 'r) support_server \<Rightarrow> ('c, 'q, 'r) support_server" where
  "sps_send_compressed T encoding s =
     s\<lparr>sps_send_compression_encodings := ts_enable T encoding (sps_send_compression_encodings s)\<rparr>"

definition sps_limit_decoding :: "nat \<Rightarrow> ('c, 'q, 'r) support_server \<Rightarrow> ('c, 'q, 'r) support_server" where
  "sps_limit_decoding limit s = s\<lparr>sps_max_decoding_message_size := Some limit\<rparr>"

definition sps_limit_encoding :: "nat \<Rightarrow> ('c, 'q, 'r) support_server \<Rightarrow> ('c, 'q, 'r) support_server" where
  "sps_limit_encoding limit s = s\<lparr>sps_max_encoding_message_size := Some limit\<rparr>"

definition sps_call :: "('c, 'e, 'b, 'q, 'r) tonic_server \<Rightarrow> ('c, 'q, 'r) support_server \<Rightarrow> 'b http_request \<Rightarrow> 'b http_response" where
  "sps_call T s req =
     (if rq_path req = lit ''/protos.ChaincodeSupport/Register'' then
        ts_streaming T (sps_accept_compression_encodings s) (sps_send_compression_encodings s)
          (sps_max_decoding_message_size s) (sps_max_encoding_message_size s) (sps_inner s) req
      else header_insert (lit ''content-type'') (lit ''application/grpc'')
        (header_insert (lit ''grpc-status'') (show_nat CODE_UNIMPLEMENTED) (http_response_new (ts_empty_body T))))"

definition SPS_SERVICE_NAME :: str where
  "SPS_SERVICE_NAME = lit ''protos.ChaincodeSupport''"

subsection \<open>The clients\<close>

text \<open>What tonic offers a client: \<open>ready\<close>, with the text of its error, a status of code unknown, and a
  streaming call, given the \<open>GrpcMethod\<close> put among the request's extensions and the path. \<close>

record ('g, 'q, 'm, 's) tonic_client =
  tc_ready :: "'g \<Rightarrow> str + unit"
  tc_unknown :: "str \<Rightarrow> 's"
  tc_streaming :: "'g \<Rightarrow> 'q \<Rightarrow> str \<times> str \<Rightarrow> str \<Rightarrow> 's + 'm"

definition chaincode_client_connect :: "('g, 'q, 'm, 's) tonic_client \<Rightarrow> 'g \<Rightarrow> 'q \<Rightarrow> 's + 'm" where
  "chaincode_client_connect T inner req =
     res_bind (res_map_err (\<lambda>e. tc_unknown T (lit ''Service was not ready: '' @ e)) (tc_ready T inner)) (\<lambda>_.
       tc_streaming T inner req (lit ''protos.Chaincode'', lit ''Connect'') (lit ''/protos.Chaincode/Connect''))"

definition support_client_register :: "('g, 'q, 'm, 's) tonic_client \<Rightarrow> 'g \<Rightarrow> 'q \<Rightarrow> 's + 'm" where
  "support_client_register T inner req =
     res_bind (res_map_err (\<lambda>e. tc_unknown T (lit ''Service was not ready: '' @ e)) (tc_ready T inner)) (\<lambda>_.
       tc_streaming T inner req (lit ''protos.ChaincodeSupport'', lit ''Register'') (lit ''/protos.ChaincodeSupport/Register''))"

subsection \<open>Where a request goes\<close>

definition unimplemented :: "('c, 'e, 'b, 'q, 'r) tonic_server \<Rightarrow> 'b http_response" where
  "unimplemented T = \<lparr>hr_status = 200, hr_headers = [(lit ''grpc-status'', lit ''12''),
     (lit ''content-type'', lit ''application/grpc'')], hr_body = ts_empty_body T\<rparr>"

lemma unimplemented_response:
  "header_insert (lit ''content-type'') (lit ''application/grpc'')
     (header_insert (lit ''grpc-status'') (show_nat CODE_UNIMPLEMENTED) (http_response_new (ts_empty_body T))) = unimplemented T"
proof -
  have "show_nat CODE_UNIMPLEMENTED = lit ''12''"
    by (simp add: CODE_UNIMPLEMENTED_def show_nat.simps digit_chr_def lit_Cons scalar_value_def flip: code_point_inject)
  then show ?thesis by (simp add: header_insert_def http_response_new_def unimplemented_def)
qed

locale grpc_route =
  fixes call :: "('c, 'e, 'b, 'q, 'r) tonic_server \<Rightarrow> 's \<Rightarrow> 'b http_request \<Rightarrow> 'b http_response"
    and inner :: "'s \<Rightarrow> 'q \<Rightarrow> 'r" and accepted :: "'s \<Rightarrow> 'c" and sent :: "'s \<Rightarrow> 'c"
    and decoding :: "'s \<Rightarrow> nat option" and encoding :: "'s \<Rightarrow> nat option"
    and new :: "('c, 'e, 'b, 'q, 'r) tonic_server \<Rightarrow> ('q \<Rightarrow> 'r) \<Rightarrow> 's"
    and limit_decoding :: "nat \<Rightarrow> 's \<Rightarrow> 's" and limit_encoding :: "nat \<Rightarrow> 's \<Rightarrow> 's" and route :: str
  assumes routed: "rq_path req = route \<Longrightarrow>
      call T s req = ts_streaming T (accepted s) (sent s) (decoding s) (encoding s) (inner s) req"
    and refused: "rq_path req \<noteq> route \<Longrightarrow> call T s req = unimplemented T"
    and new_sel: "inner (new T m) = m" "accepted (new T m) = ts_no_encodings T" "sent (new T m) = ts_no_encodings T"
    and decoding_sel: "inner (limit_decoding n s) = inner s" "accepted (limit_decoding n s) = accepted s"
      "sent (limit_decoding n s) = sent s" "decoding (limit_decoding n s) = Some n"
    and encoding_sel: "inner (limit_encoding n s) = inner s" "accepted (limit_encoding n s) = accepted s"
      "sent (limit_encoding n s) = sent s" "decoding (limit_encoding n s) = decoding s" "encoding (limit_encoding n s) = Some n"
begin

text \<open>A service with both limits set: its route runs the method under them, any other path does not reach it.\<close>

lemma limited_call:
  "call T (limit_encoding m (limit_decoding n (new T f))) req =
     (if rq_path req = route then ts_streaming T (ts_no_encodings T) (ts_no_encodings T) (Some n) (Some m) f req
      else unimplemented T)"
  by (cases "rq_path req = route") (simp_all add: routed refused new_sel decoding_sel encoding_sel)

lemma refused_has_no_effect: "rq_path req \<noteq> route \<Longrightarrow> call T s req = call T s' req"
  by (simp add: refused)

end

interpretation chaincode_route: grpc_route ccs_call ccs_inner ccs_accept_compression_encodings ccs_send_compression_encodings
  ccs_max_decoding_message_size ccs_max_encoding_message_size chaincode_server_new ccs_limit_decoding ccs_limit_encoding
  "lit ''/protos.Chaincode/Connect''"
  by unfold_locales (simp_all add: ccs_call_def unimplemented_response chaincode_server_new_def ccs_limit_decoding_def ccs_limit_encoding_def)

interpretation support_route: grpc_route sps_call sps_inner sps_accept_compression_encodings sps_send_compression_encodings
  sps_max_decoding_message_size sps_max_encoding_message_size support_server_new sps_limit_decoding sps_limit_encoding
  "lit ''/protos.ChaincodeSupport/Register''"
  by unfold_locales (simp_all add: sps_call_def unimplemented_response support_server_new_def sps_limit_decoding_def sps_limit_encoding_def)

subsection \<open>The shim's service\<close>

text \<open>The service \<open>serve_with_listener\<close> builds around \<open>ChaincodeService::connect\<close>, with the configured size as both limits.\<close>

definition grpc_service :: "('c, 'e, 'b, 'q, 'r) tonic_server \<Rightarrow> 'a server \<Rightarrow> ('q \<Rightarrow> 'r) \<Rightarrow> ('c, 'q, 'r) chaincode_server" where
  "grpc_service T server connect = ccs_limit_encoding (sv_max_message_size server)
     (ccs_limit_decoding (sv_max_message_size server) (chaincode_server_new T connect))"

lemma service_names:
  "lit ''/'' @ CCS_SERVICE_NAME @ lit ''/Connect'' = lit ''/protos.Chaincode/Connect''"
  "lit ''/'' @ SPS_SERVICE_NAME @ lit ''/Register'' = lit ''/protos.ChaincodeSupport/Register''"
  by (simp_all add: CCS_SERVICE_NAME_def SPS_SERVICE_NAME_def flip: lit_append)

lemma grpc_service_call:
  "ccs_call T (grpc_service T server connect) req =
     (if rq_path req = lit ''/protos.Chaincode/Connect''
      then ts_streaming T (ts_no_encodings T) (ts_no_encodings T) (Some (sv_max_message_size server)) (Some (sv_max_message_size server)) connect req
      else unimplemented T)"
  unfolding grpc_service_def by (rule chaincode_route.limited_call)

text \<open>A client over a transport that posts its streaming calls to the service at the path it names: the generated client of
  the service reaches \<open>connect\<close>, the one of the peer's older service is told that there is no such method.\<close>

lemma generated_clients_reach_service:
  assumes "tc_ready C g = Inr ()"
    and "\<And>q names path. tc_streaming C g q names path = respond (ccs_call T (grpc_service T server connect) \<lparr>rq_path = path, rq_body = body q\<rparr>)"
  shows "chaincode_client_connect C g q = respond (ts_streaming T (ts_no_encodings T) (ts_no_encodings T)
      (Some (sv_max_message_size server)) (Some (sv_max_message_size server)) connect
      \<lparr>rq_path = lit ''/protos.Chaincode/Connect'', rq_body = body q\<rparr>)"
    and "support_client_register C g q = respond (unimplemented T)"
  by (simp_all add: chaincode_client_connect_def support_client_register_def assms grpc_service_call)

lemma client_not_ready:
  "tc_ready C g = Inl e \<Longrightarrow> chaincode_client_connect C g q = Inl (tc_unknown C (lit ''Service was not ready: '' @ e))"
  by (simp add: chaincode_client_connect_def)

end
