(* ===== verification/Macro_Syntax.thy ===== *)
theory Macro_Syntax imports Rust_Str
begin

section \<open>The syntax trees the macros read\<close>

text \<open>
  The macros of \<open>fabric-shim-macros\<close> work on what the crate \<open>syn\<close> has parsed. These are the parts of
  its trees that they look at: types, attributes and their arguments, structs with their
  fields, and impl blocks with their methods. An identifier is the text \<open>to_string\<close> gives
  (with \<open>r#\<close> for a raw one), a path its identifiers. The case conversions (crate \<open>heck\<close> and the
  Unicode tables of the standard library) are parameters.
\<close>

subsection \<open>Types\<close>

datatype ty =
    TyPath "segment list"
  | TyTuple "ty list"
  | TyOther
and segment = Segment str path_args
and path_args =
    NoArgs
  | AngleBracketed "generic_arg list"
  | Parenthesized
and generic_arg =
    GenericType ty
  | GenericOther

fun seg_ident :: "segment \<Rightarrow> str" where
  "seg_ident (Segment i a) = i"

fun seg_args :: "segment \<Rightarrow> path_args" where
  "seg_args (Segment i a) = a"

subsection \<open>Attributes\<close>

datatype expr =
    ExprStr str
  | ExprOther

text \<open>\<open>Meta\<close>: a path, \<open>path = expr\<close>, or \<open>path(..)\<close>. The argument list of an attribute is the metas up to
  the first syntax error, with that error.\<close>

datatype meta =
    MetaPath "str list"
  | MetaNameValue "str list" expr
  | MetaList "str list"

type_synonym tokens = "meta list \<times> str option"

datatype attribute =
    AttrPath "str list"
  | AttrNameValue "str list" expr
  | AttrList "str list" tokens

fun attr_path :: "attribute \<Rightarrow> str list" where
  "attr_path (AttrPath p) = p"
| "attr_path (AttrNameValue p e) = p"
| "attr_path (AttrList p ts) = p"

definition is_ident :: "str list \<Rightarrow> str \<Rightarrow> bool" where
  "is_ident path name \<longleftrightarrow> path = [name]"

text \<open>\<open>Punctuated::parse_terminated\<close>.\<close>

definition parse_terminated :: "tokens \<Rightarrow> str + meta list" where
  "parse_terminated ts = (case snd ts of None \<Rightarrow> Inr (fst ts) | Some e \<Rightarrow> Inl e)"

subsection \<open>Structs and impl blocks\<close>

record struct_field =
  sf_attrs :: "attribute list"
  sf_ident :: str
  sf_ty :: ty

datatype fields = FieldsNamed "struct_field list" | FieldsUnnamed | FieldsUnit

datatype data = DataStruct fields | DataEnum | DataUnion

record derive_input =
  di_attrs :: "attribute list"
  di_ident :: str
  di_generic :: bool
  di_data :: data

datatype pat = PatIdent str | PatOther

datatype fn_arg = Receiver | Typed pat ty

datatype return_type = ReturnDefault | ReturnType ty

record impl_fn =
  me_attrs :: "attribute list"
  me_ident :: str
  me_async :: bool
  me_inputs :: "fn_arg list"
  me_output :: return_type

datatype impl_item = ImplFn impl_fn | ImplOther

record item_impl =
  ii_generic :: bool
  ii_self_ty :: ty
  ii_items :: "impl_item list"

subsection \<open>Case conversions\<close>

record casing =
  cs_lower_camel :: "str \<Rightarrow> str"
  cs_upper_camel :: "str \<Rightarrow> str"
  cs_shouty_snake :: "str \<Rightarrow> str"
  cs_kebab :: "str \<Rightarrow> str"
  cs_uppercase :: "str \<Rightarrow> str"
  cs_lowercase :: "str \<Rightarrow> str"

end
