(* ===== verification/Btree_Map.thy ===== *)
theory Btree_Map imports Rust_Num "HOL-Library.Product_Lexorder"
begin

section \<open>Ordered maps\<close>

text \<open>
  Rust's \<open>BTreeMap\<close> is used for the contract metadata and by the test peer's ledger. The
  locale \<open>ordered_map\<close> is its interface: what \<open>get\<close> returns after the updates, and
  that iteration is sorted and agrees with \<open>get\<close>. The model keeps the entries as a list sorted by key
  and interprets the locale on it.
\<close>

locale ordered_map =
  fixes empty :: "'m"
    and get :: "'m \<Rightarrow> 'k::linorder \<Rightarrow> 'v option"
    and insert :: "'k \<Rightarrow> 'v \<Rightarrow> 'm \<Rightarrow> 'm"
    and remove :: "'k \<Rightarrow> 'm \<Rightarrow> 'm"
    and entries :: "'m \<Rightarrow> ('k \<times> 'v) list"
    and ok :: "'m \<Rightarrow> bool"
  assumes get_empty: "get empty k = None"
    and get_insert: "get (insert k v m) k' = (if k' = k then Some v else get m k')"
    and get_remove: "get (remove k m) k' = (if k' = k then None else get m k')"
    and entries_get: "ok m \<Longrightarrow> (k, v) \<in> set (entries m) \<longleftrightarrow> get m k = Some v"
    and entries_sorted: "ok m \<Longrightarrow> sorted_wrt (<) (map fst (entries m))"
    and ok_empty: "ok empty"
    and ok_insert: "ok m \<Longrightarrow> ok (insert k v m)"
    and ok_remove: "ok m \<Longrightarrow> ok (remove k m)"
begin

lemma distinct_keys: "ok m \<Longrightarrow> distinct (map fst (entries m))"
  using entries_sorted strict_sorted_iff by blast

lemma entries_map_of: "ok m \<Longrightarrow> map_of (entries m) k = get m k"
proof -
  assume m: "ok m"
  then have "map_of (entries m) k = Some v \<longleftrightarrow> get m k = Some v" for v
    using distinct_keys [OF m] entries_get [OF m] by (metis map_of_eq_Some_iff)
  then show ?thesis by (metis not_None_eq)
qed

text \<open>A map is determined by what \<open>get\<close> returns, up to its entries.\<close>

lemma entries_eqI:
  assumes "ok m" "ok m'" "\<And>k. get m k = get m' k"
  shows "entries m = entries m'"
proof (rule map_sorted_distinct_set_unique [where f = fst])
  have same: "set (entries m) = set (entries m')" using assms entries_get by (auto simp: set_eq_iff)
  then show "set (entries m) = set (entries m')" .
  show "inj_on fst (set (entries m) \<union> set (entries m'))"
    using same distinct_keys [OF assms(1)] by (simp add: distinct_map)
  show "sorted (map fst (entries m))" "sorted (map fst (entries m'))"
    using entries_sorted assms(1,2) strict_sorted_imp_sorted by blast+
qed (use assms distinct_keys in blast)+

lemma insert_overwrites: "ok m \<Longrightarrow> entries (insert k v (insert k w m)) = entries (insert k v m)"
  by (rule entries_eqI) (simp_all add: ok_insert get_insert)

lemma insert_commutes:
  "ok m \<Longrightarrow> k \<noteq> k' \<Longrightarrow> entries (insert k v (insert k' w m)) = entries (insert k' w (insert k v m))"
  by (rule entries_eqI) (auto simp: ok_insert get_insert)

end

subsection \<open>Sorted association lists\<close>

type_synonym ('k, 'v) btree = "('k \<times> 'v) list"

fun bt_insert :: "'k::linorder \<Rightarrow> 'v \<Rightarrow> ('k, 'v) btree \<Rightarrow> ('k, 'v) btree" where
  "bt_insert k v [] = [(k, v)]"
| "bt_insert k v ((k', v') # m) =
     (if k < k' then (k, v) # (k', v') # m
      else if k = k' then (k, v) # m
      else (k', v') # bt_insert k v m)"

definition bt_remove :: "'k \<Rightarrow> ('k, 'v) btree \<Rightarrow> ('k, 'v) btree" where
  "bt_remove k m = filter (\<lambda>kv. fst kv \<noteq> k) m"

definition bt_ok :: "('k::linorder, 'v) btree \<Rightarrow> bool" where
  "bt_ok m \<longleftrightarrow> sorted_wrt (<) (map fst m)"

lemma bt_get_insert: "map_of (bt_insert k v m) k' = (if k' = k then Some v else map_of m k')"
  by (induction m) auto

lemma bt_insert_keys: "set (map fst (bt_insert k v m)) = insert k (set (map fst m))"
  by (induction m rule: bt_insert.induct) auto

lemma bt_ok_insert: "bt_ok m \<Longrightarrow> bt_ok (bt_insert k v m)"
proof (induction m rule: bt_insert.induct)
  case (2 k v k' v' m)
  show ?case
  proof (cases "k < k' \<or> k = k'")
    case True
    with 2 show ?thesis by (auto simp: bt_ok_def)
  next
    case False
    then have "k' < x" if "x \<in> set (map fst (bt_insert k v m))" for x
      using that 2(2) unfolding bt_insert_keys by (auto simp: bt_ok_def)
    with False 2 show ?thesis by (auto simp: bt_ok_def)
  qed
qed (simp add: bt_ok_def)

lemma bt_get_remove: "map_of (bt_remove k m) k' = (if k' = k then None else map_of m k')"
  by (induction m) (auto simp: bt_remove_def)

interpretation bt: ordered_map "[]" map_of bt_insert bt_remove "\<lambda>m. m" bt_ok
proof unfold_locales
  fix m :: "('a::linorder, 'b) btree" and k v
  assume ok: "bt_ok m"
  then show "sorted_wrt (<) (map fst m)" by (simp add: bt_ok_def)
  then have "distinct (map fst m)" using strict_sorted_iff by blast
  then show "(k, v) \<in> set m \<longleftrightarrow> map_of m k = Some v" by simp
  show "bt_ok (bt_remove k m)"
    using ok unfolding bt_ok_def bt_remove_def by (simp add: sorted_wrt_map sorted_wrt_filter)
qed (simp_all add: bt_get_insert bt_get_remove bt_ok_insert bt_ok_def [of "[]"])

end
