(* ===== verification/Metadata.thy ===== *)
theory Metadata imports Btree_Map
begin

section \<open>Contract metadata\<close>

text \<open>
  \<open>fabric-shim/src/metadata.rs\<close>: the metadata document and its builders. \<open>json\<close> is
  \<open>serde_json::Value\<close> (objects are ordered maps; the contract layer never builds a number).
  Turning a document into JSON text is serde's, a parameter of the handler.
\<close>

datatype json =
    JNull
  | JBool bool
  | JNumber int
  | JString str
  | JArray "json list"
  | JObject "(str \<times> json) list"

text \<open>\<open>json!({..})\<close> inserts the entries one after the other.\<close>

definition json_object :: "(str \<times> json) list \<Rightarrow> json" where
  "json_object kvs = JObject (fold (\<lambda>(k, v). bt_insert k v) kvs [])"

definition json_str :: "string \<Rightarrow> json" where
  "json_str s = JString (lit s)"

definition CONTRACT_SCHEMA_URL :: str where
  "CONTRACT_SCHEMA_URL = lit ''https://hyperledger.github.io/fabric-chaincode-node/main/api/contract-schema.json''"

record info =
  inf_title :: str
  inf_version :: str
  inf_description :: "str option"

record parameter =
  par_name :: str
  par_schema :: json
  par_description :: "str option"

record transaction =
  mt_name :: str
  mt_tag :: "str list"
  mt_parameters :: "parameter list"
  mt_returns :: "json option"

record contract =
  ct_name :: str
  ct_info :: info
  ct_transactions :: "transaction list"
  ct_default :: bool

record components =
  comp_schemas :: "(str, json) btree"

record metadata =
  md_schema :: str
  md_info :: info
  md_contracts :: "(str, contract) btree"
  md_components :: components

definition components_is_empty :: "components \<Rightarrow> bool" where
  "components_is_empty c \<longleftrightarrow> comp_schemas c = []"

definition metadata_new :: "str \<Rightarrow> str \<Rightarrow> metadata" where
  "metadata_new title version =
     \<lparr>md_schema = CONTRACT_SCHEMA_URL,
      md_info = \<lparr>inf_title = title, inf_version = version, inf_description = None\<rparr>,
      md_contracts = [], md_components = \<lparr>comp_schemas = []\<rparr>\<rparr>"

definition metadata_contract :: "contract \<Rightarrow> metadata \<Rightarrow> metadata" where
  "metadata_contract c md = md\<lparr>md_contracts := bt_insert (ct_name c) c (md_contracts md)\<rparr>"

definition metadata_component :: "str \<Rightarrow> json \<Rightarrow> metadata \<Rightarrow> metadata" where
  "metadata_component name schema md =
     md\<lparr>md_components := (md_components md)\<lparr>comp_schemas := bt_insert name schema (comp_schemas (md_components md))\<rparr>\<rparr>"

definition contract_new :: "str \<Rightarrow> contract" where
  "contract_new name =
     \<lparr>ct_name = name, ct_info = \<lparr>inf_title = name, inf_version = lit ''latest'', inf_description = None\<rparr>,
      ct_transactions = [], ct_default = True\<rparr>"

definition contract_transaction :: "transaction \<Rightarrow> contract \<Rightarrow> contract" where
  "contract_transaction tx c = c\<lparr>ct_transactions := ct_transactions c @ [tx]\<rparr>"

definition transaction_submit :: "str \<Rightarrow> transaction" where
  "transaction_submit name = \<lparr>mt_name = name, mt_tag = [lit ''submit''], mt_parameters = [], mt_returns = None\<rparr>"

definition transaction_evaluate :: "str \<Rightarrow> transaction" where
  "transaction_evaluate name = \<lparr>mt_name = name, mt_tag = [lit ''evaluate''], mt_parameters = [], mt_returns = None\<rparr>"

definition transaction_parameter :: "str \<Rightarrow> json \<Rightarrow> transaction \<Rightarrow> transaction" where
  "transaction_parameter name schema tx =
     tx\<lparr>mt_parameters := mt_parameters tx @ [\<lparr>par_name = name, par_schema = schema, par_description = None\<rparr>]\<rparr>"

definition transaction_returns :: "json \<Rightarrow> transaction \<Rightarrow> transaction" where
  "transaction_returns schema tx = tx\<lparr>mt_returns := Some schema\<rparr>"

subsection \<open>What the builders build\<close>

lemma fold_transactions:
  "ct_transactions (fold contract_transaction txs c) = ct_transactions c @ txs"
  "ct_name (fold contract_transaction txs c) = ct_name c"
  by (induction txs arbitrary: c) (simp_all add: contract_transaction_def)

lemma fold_parameters:
  "fold (\<lambda>(n, s). transaction_parameter n s) ps tx =
     tx\<lparr>mt_parameters := mt_parameters tx @ map (\<lambda>(n, s). \<lparr>par_name = n, par_schema = s, par_description = None\<rparr>) ps\<rparr>"
  by (induction ps arbitrary: tx) (auto simp: transaction_parameter_def)

lemma metadata_contract_sel [simp]:
  "md_components (metadata_contract c md) = md_components md"
  "md_info (metadata_contract c md) = md_info md"
  "map_of (md_contracts (metadata_contract c md)) (ct_name c) = Some c"
  by (simp_all add: metadata_contract_def bt.get_insert)

lemma fold_components_sel:
  "md_info (fold (\<lambda>(n, s). metadata_component n s) cs md) = md_info md"
  "md_contracts (fold (\<lambda>(n, s). metadata_component n s) cs md) = md_contracts md"
  by (induction cs arbitrary: md) (auto simp: metadata_component_def)

text \<open>Registering the entries of an ordered map one by one rebuilds the map.\<close>

lemma bt_insert_last:
  "(\<forall>x\<in>set (map fst m). x < k) \<Longrightarrow> bt_insert k v m = m @ [(k, v)]"
proof (induction m)
  case (Cons kv m)
  then have "bt_insert k v m = m @ [(k, v)]" and "fst kv < k" by simp_all
  moreover from \<open>fst kv < k\<close> have "\<not> k < fst kv" "k \<noteq> fst kv" by auto
  ultimately show ?case by (cases kv) simp
qed simp

lemma fold_bt_insert_sorted:
  "bt_ok (m @ cs) \<Longrightarrow> fold (\<lambda>(k, v). bt_insert k v) cs m = m @ cs"
proof (induction cs arbitrary: m)
  case (Cons kv cs)
  obtain k v where kv: "kv = (k, v)" by fastforce
  with Cons.prems have "\<forall>x\<in>set (map fst m). x < k" by (auto simp: bt_ok_def sorted_wrt_append)
  then have "bt_insert k v m = m @ [kv]" using bt_insert_last [of m k v] kv by simp
  with Cons.IH [of "m @ [kv]"] Cons.prems show ?case by (simp add: kv)
qed simp

lemma fold_components:
  "comp_schemas (md_components (fold (\<lambda>(n, s). metadata_component n s) cs md))
     = fold (\<lambda>(k, v). bt_insert k v) cs (comp_schemas (md_components md))"
  by (induction cs arbitrary: md) (auto simp: metadata_component_def)

end
