(* ===== verification/Contract_Types.thy ===== *)
theory Contract_Types imports Metadata
begin

section \<open>Argument and return types of contracts\<close>

text \<open>
  \<open>fabric-shim/src/contract.rs\<close> and the impls that \<open>derive(DataType)\<close> generates: the
  schema of a type, the component schemas it registers, how a raw argument becomes a value and
  how a value becomes a payload. A Rust type with a \<open>ContractSchema\<close> impl is a \<open>rty\<close>; a derived
  struct is named by its path and described by its \<open>data_type\<close>. Serde's JSON and the standard
  library's floating point text are parameters.
\<close>

datatype float_ty = F32 | F64

datatype rty =
    RString
  | RBool
  | RInt int_ty
  | RFloat float_ty
  | RUnit
  | RVec rty
  | RData str

text \<open>What the derive macro records of a struct: its identifier, and each field's JSON name, type (without
  \<open>Option\<close>) and whether it was optional.\<close>

record field =
  fd_name :: str
  fd_type :: rty
  fd_optional :: bool

record data_type =
  dt_name :: str
  dt_fields :: "field list"

type_synonym decls = "(str \<times> data_type) list"

subsection \<open>Schemas\<close>

definition ref_path :: "str \<Rightarrow> str" where
  "ref_path name = lit ''#/components/schemas/'' @ name"

definition type_schema :: "string \<Rightarrow> json" where
  "type_schema t = json_object [(lit ''type'', json_str t)]"

definition string_schema :: json where "string_schema = type_schema ''string''"

definition bool_schema :: json where "bool_schema = type_schema ''boolean''"

definition numeric_schema :: "string \<Rightarrow> json" where "numeric_schema json_type = type_schema json_type"

definition unit_schema :: json where "unit_schema = JNull"

definition vec_schema :: "json \<Rightarrow> json" where
  "vec_schema items = json_object [(lit ''type'', json_str ''array''), (lit ''items'', items)]"

definition data_schema :: "data_type \<Rightarrow> json" where
  "data_schema dt = json_object [(lit ''$ref'', JString (ref_path (dt_name dt)))]"

lemmas schema_defs [simp] = string_schema_def bool_schema_def numeric_schema_def unit_schema_def vec_schema_def data_schema_def

fun schema :: "decls \<Rightarrow> rty \<Rightarrow> json" where
  "schema D RString = string_schema"
| "schema D RBool = bool_schema"
| "schema D (RInt t) = numeric_schema ''integer''"
| "schema D (RFloat t) = numeric_schema ''number''"
| "schema D RUnit = unit_schema"
| "schema D (RVec t) = vec_schema (schema D t)"
| "schema D (RData p) = (case map_of D p of Some dt \<Rightarrow> data_schema dt)"

definition required_fields :: "data_type \<Rightarrow> str list" where
  "required_fields dt = map fd_name (filter (\<lambda>f. \<not> fd_optional f) (dt_fields dt))"

definition struct_schema :: "decls \<Rightarrow> data_type \<Rightarrow> json" where
  "struct_schema D dt =
     (let props = fold (\<lambda>f. bt_insert (fd_name f) (schema D (fd_type f))) (dt_fields dt) [] in
      json_object [(lit ''type'', json_str ''object''),
        (lit ''required'', JArray (map JString (required_fields dt))),
        (lit ''properties'', JObject props)])"

subsection \<open>Components\<close>

text \<open>\<open>components\<close> registers the schemas of the structs a type refers to. The recursion follows the
  structs' fields and stops at a name already registered; \<open>None\<close> would be a recursion that never ends.\<close>

fun fold_opt :: "('a \<Rightarrow> 'b \<Rightarrow> 'b option) \<Rightarrow> 'a list \<Rightarrow> 'b \<Rightarrow> 'b option" where
  "fold_opt f [] b = Some b"
| "fold_opt f (x # xs) b = Option.bind (f x b) (fold_opt f xs)"

lemma fold_opt_mono [partial_function_mono]:
  assumes "\<And>x b. mono_option (\<lambda>r. F r x b)"
  shows "mono_option (\<lambda>r. fold_opt (F r) xs b)"
proof (induction xs arbitrary: b)
  case Nil
  show ?case by (simp add: option.const_mono)
next
  case (Cons x xs)
  then show ?case unfolding fold_opt.simps by (intro bind_mono assms)
qed

partial_function (option) components_of :: "decls \<Rightarrow> rty \<Rightarrow> (str, json) btree \<Rightarrow> (str, json) btree option" where
  "components_of D t out = (case t of
     RVec t' \<Rightarrow> components_of D t' out
   | RData p \<Rightarrow> (case map_of D p of Some dt \<Rightarrow>
         if map_of out (dt_name dt) \<noteq> None then Some out
         else fold_opt (\<lambda>f. components_of D (fd_type f)) (dt_fields dt)
                (bt_insert (dt_name dt) (struct_schema D dt) out))
   | _ \<Rightarrow> Some out)"

lemma components_of_simps [simp]:
  "components_of D RString out = Some out"
  "components_of D RBool out = Some out"
  "components_of D (RInt i) out = Some out"
  "components_of D (RFloat ft) out = Some out"
  "components_of D RUnit out = Some out"
  "components_of D (RVec t) out = components_of D t out"
  by (subst components_of.simps, simp)+

lemma components_of_data:
  assumes "map_of D p = Some dt"
  shows "components_of D (RData p) out =
    (if map_of out (dt_name dt) \<noteq> None then Some out
     else fold_opt (\<lambda>f. components_of D (fd_type f)) (dt_fields dt)
            (bt_insert (dt_name dt) (struct_schema D dt) out))"
  using assms by (subst components_of.simps) simp

subsection \<open>Values, arguments and payloads\<close>

text \<open>A value; floats, vectors and structs are the opaque values of the parameters.\<close>

datatype 'd val =
    VString str
  | VBool bool
  | VInt int
  | VUnit
  | VData 'd

record 'd rust_lib =
  rl_float_parse :: "float_ty \<Rightarrow> str \<Rightarrow> str + 'd"
  rl_float_show :: "float_ty \<Rightarrow> 'd \<Rightarrow> str"
  rl_from_slice :: "rty \<Rightarrow> bytes \<Rightarrow> str + 'd"
  rl_to_vec :: "rty \<Rightarrow> 'd \<Rightarrow> str + bytes"

text \<open>The types with a \<open>ContractArg\<close> impl: all but \<open>()\<close>.\<close>

fun is_arg :: "rty \<Rightarrow> bool" where
  "is_arg RUnit = False"
| "is_arg _ = True"

definition utf8_text :: "bytes \<Rightarrow> str + str" where
  "utf8_text raw = res_map_err utf8_error_display (from_utf8 raw)"

definition string_from_arg :: "bytes \<Rightarrow> str + 'd val" where
  "string_from_arg raw = res_map VString (utf8_text raw)"

definition bool_from_arg :: "bytes \<Rightarrow> str + 'd val" where
  "bool_from_arg raw = res_bind (utf8_text raw) (\<lambda>s.
     res_map VBool (ok_or_else (lit ''expected '' @ [uchr_of 34] @ lit ''true'' @ [uchr_of 34] @ lit '' or ''
       @ [uchr_of 34] @ lit ''false'' @ [uchr_of 34]) (parse_bool (trim s))))"

definition int_from_arg :: "int_ty \<Rightarrow> bytes \<Rightarrow> str + 'd val" where
  "int_from_arg t raw = res_bind (utf8_text raw) (\<lambda>s.
     res_map VInt (res_map_err int_error_display (parse_int t (trim s))))"

definition float_from_arg :: "'d rust_lib \<Rightarrow> float_ty \<Rightarrow> bytes \<Rightarrow> str + 'd val" where
  "float_from_arg L t raw = res_bind (utf8_text raw) (\<lambda>s. res_map VData (rl_float_parse L t (trim s)))"

definition vec_from_arg :: "'d rust_lib \<Rightarrow> rty \<Rightarrow> bytes \<Rightarrow> str + 'd val" where
  "vec_from_arg L t raw =
     res_map VData (res_map_err (\<lambda>e. lit ''invalid JSON array: '' @ e) (rl_from_slice L (RVec t) raw))"

definition data_from_arg :: "'d rust_lib \<Rightarrow> str \<Rightarrow> data_type \<Rightarrow> bytes \<Rightarrow> str + 'd val" where
  "data_from_arg L p dt raw =
     res_map VData (res_map_err (\<lambda>e. lit ''invalid JSON for '' @ dt_name dt @ lit '': '' @ e) (rl_from_slice L (RData p) raw))"

lemmas from_arg_defs [simp] = string_from_arg_def bool_from_arg_def int_from_arg_def float_from_arg_def vec_from_arg_def
  data_from_arg_def

fun from_arg :: "'d rust_lib \<Rightarrow> decls \<Rightarrow> rty \<Rightarrow> bytes \<Rightarrow> str + 'd val" where
  "from_arg L D RString raw = string_from_arg raw"
| "from_arg L D RBool raw = bool_from_arg raw"
| "from_arg L D (RInt t) raw = int_from_arg t raw"
| "from_arg L D (RFloat t) raw = float_from_arg L t raw"
| "from_arg L D (RVec t) raw = vec_from_arg L t raw"
| "from_arg L D (RData p) raw = (case map_of D p of Some dt \<Rightarrow> data_from_arg L p dt raw)"

definition string_payload :: "str \<Rightarrow> str + bytes" where "string_payload s = Inr (str_bytes s)"

definition bool_payload :: "bool \<Rightarrow> str + bytes" where "bool_payload b = Inr (str_bytes (show_bool b))"

definition int_payload :: "int \<Rightarrow> str + bytes" where "int_payload i = Inr (str_bytes (show_int i))"

definition unit_payload :: "str + bytes" where "unit_payload = Inr []"

definition vec_payload :: "'d rust_lib \<Rightarrow> rty \<Rightarrow> 'd \<Rightarrow> str + bytes" where
  "vec_payload L t d = rl_to_vec L (RVec t) d"

definition data_payload :: "'d rust_lib \<Rightarrow> str \<Rightarrow> data_type \<Rightarrow> 'd \<Rightarrow> str + bytes" where
  "data_payload L p dt d =
     res_map_err (\<lambda>e. lit ''failed to serialize '' @ dt_name dt @ lit '': '' @ e) (rl_to_vec L (RData p) d)"

lemmas payload_defs [simp] = string_payload_def bool_payload_def int_payload_def unit_payload_def vec_payload_def
  data_payload_def

fun into_payload :: "'d rust_lib \<Rightarrow> decls \<Rightarrow> rty \<Rightarrow> 'd val \<Rightarrow> str + bytes" where
  "into_payload L D RString (VString s) = string_payload s"
| "into_payload L D RBool (VBool b) = bool_payload b"
| "into_payload L D (RInt t) (VInt i) = int_payload i"
| "into_payload L D (RFloat t) (VData d) = Inr (str_bytes (rl_float_show L t d))"
| "into_payload L D RUnit VUnit = unit_payload"
| "into_payload L D (RVec t) (VData d) = vec_payload L t d"
| "into_payload L D (RData p) (VData d) = (case map_of D p of Some dt \<Rightarrow> data_payload L p dt d)"

text \<open>The values of a type.\<close>

fun has_type :: "'d val \<Rightarrow> rty \<Rightarrow> bool" where
  "has_type (VString s) RString = True"
| "has_type (VBool b) RBool = True"
| "has_type (VInt i) (RInt t) = (int_ty_min t \<le> i \<and> i \<le> int_ty_max t)"
| "has_type VUnit RUnit = True"
| "has_type (VData d) (RFloat t) = True"
| "has_type (VData d) (RVec t) = True"
| "has_type (VData d) (RData p) = True"
| "has_type _ _ = False"

subsection \<open>The references of a schema\<close>

fun json_refs :: "json \<Rightarrow> str list" where
  "json_refs (JArray js) = concat (map json_refs js)"
| "json_refs (JObject kvs) = concat (map (\<lambda>(k, j). case j of
       JString s \<Rightarrow> if k = lit ''$ref'' then [s] else []
     | _ \<Rightarrow> json_refs j) kvs)"
| "json_refs _ = []"

lemma set_bt_insert: "set (bt_insert k v m) \<subseteq> insert (k, v) (set m)"
  by (induction m rule: bt_insert.induct) auto

lemma fold_bt_insert_set:
  "set (fold (\<lambda>f. bt_insert (key f) (val f)) fs m) \<subseteq> (\<lambda>f. (key f, val f)) ` set fs \<union> set m"
proof (induction fs arbitrary: m)
  case (Cons f fs)
  have "set (fold (\<lambda>f. bt_insert (key f) (val f)) (f # fs) m)
      \<subseteq> (\<lambda>f. (key f, val f)) ` set fs \<union> set (bt_insert (key f) (val f) m)"
    using Cons.IH [of "bt_insert (key f) (val f) m"] by simp
  with set_bt_insert [of "key f" "val f" m] show ?case by auto
qed simp

lemma json_refs_entries: "set (json_refs (JObject kvs)) = (\<Union>kv\<in>set kvs. set (json_refs (JObject [kv])))"
  by (induction kvs) auto

lemma fold_bt_insert_pairs:
  "set (fold (\<lambda>(k, v). bt_insert k v) kvs m) \<subseteq> set kvs \<union> set m"
  using fold_bt_insert_set [of fst snd kvs m] by (simp add: case_prod_unfold)

lemma json_refs_object:
  "set (json_refs (json_object kvs)) \<subseteq> (\<Union>kv\<in>set kvs. set (json_refs (JObject [kv])))"
  unfolding json_object_def json_refs_entries [of "fold _ _ _"]
  using fold_bt_insert_pairs [of kvs "[]"] by (intro UN_mono) auto

lemma json_refs_type_schema [simp]: "json_refs (type_schema t) = []"
  by (simp add: type_schema_def json_object_def json_str_def lit_inject)

text \<open>The structs a type names, and the types whose structs are all declared.\<close>

fun data_of :: "rty \<Rightarrow> str list" where
  "data_of (RVec t) = data_of t"
| "data_of (RData p) = [p]"
| "data_of _ = []"

definition declared :: "decls \<Rightarrow> rty \<Rightarrow> bool" where
  "declared D t \<longleftrightarrow> set (data_of t) \<subseteq> dom (map_of D)"

definition decls_ok :: "decls \<Rightarrow> bool" where
  "decls_ok D \<longleftrightarrow> (\<forall>dt\<in>ran (map_of D). \<forall>f\<in>set (dt_fields dt). declared D (fd_type f))"

definition registers :: "(str, json) btree \<Rightarrow> json \<Rightarrow> bool" where
  "registers out j \<longleftrightarrow> set (json_refs j) \<subseteq> ref_path ` dom (map_of out)"

lemma registers_mono: "registers out j \<Longrightarrow> map_of out \<subseteq>\<^sub>m map_of out' \<Longrightarrow> registers out' j"
  using map_le_implies_dom_le unfolding registers_def by blast

lemma registers_object:
  "(\<And>k j. (k, j) \<in> set kvs \<Longrightarrow> registers out (JObject [(k, j)])) \<Longrightarrow> registers out (json_object kvs)"
  unfolding registers_def
proof (rule order_trans [OF json_refs_object], rule UN_least)
  fix kv assume "\<And>k j. (k, j) \<in> set kvs \<Longrightarrow> set (json_refs (JObject [(k, j)])) \<subseteq> ref_path ` dom (map_of out)"
    and "kv \<in> set kvs"
  then show "set (json_refs (JObject [kv])) \<subseteq> ref_path ` dom (map_of out)" by (cases kv) blast
qed

lemma registers_entry:
  "registers out j \<Longrightarrow> (\<And>s. j \<noteq> JString s) \<Longrightarrow> registers out (JObject [(k, j)])"
  by (cases j) (auto simp: registers_def)

lemma registers_string: "k \<noteq> lit ''$ref'' \<Longrightarrow> registers out (JObject [(k, JString s)])"
  by (simp add: registers_def)

lemma schema_no_string [simp]: "declared D t \<Longrightarrow> schema D t \<noteq> JString s"
  by (cases t) (auto simp: declared_def type_schema_def json_object_def split: option.splits)

lemma type_schema_registers [simp]: "registers out (type_schema t)"
  by (simp add: registers_def)

lemma registers_vec:
  assumes "declared D t" and "registers out (schema D t)"
  shows "registers out (schema D (RVec t))"
  unfolding schema.simps vec_schema_def
  using assms by (intro registers_object) (auto simp: json_str_def intro: registers_string registers_entry)

lemma registers_data:
  assumes "map_of D p = Some dt"
  shows "registers out (schema D (RData p)) \<longleftrightarrow> dt_name dt \<in> dom (map_of out)"
  using assms by (auto simp: registers_def json_object_def ref_path_def)

lemma registers_struct:
  assumes "\<And>f. f \<in> set (dt_fields dt) \<Longrightarrow> declared D (fd_type f) \<and> registers out (schema D (fd_type f))"
  shows "registers out (struct_schema D dt)"
proof -
  let ?props = "fold (\<lambda>f. bt_insert (fd_name f) (schema D (fd_type f))) (dt_fields dt) []"
  have "registers out (JObject [kv])" if kv: "kv \<in> set ?props" for kv
  proof -
    obtain f where f: "f \<in> set (dt_fields dt)" "kv = (fd_name f, schema D (fd_type f))"
      using kv fold_bt_insert_set [of fd_name "\<lambda>f. schema D (fd_type f)" "dt_fields dt" "[]"] by auto
    show ?thesis unfolding f(2) by (rule registers_entry) (use assms [OF f(1)] in auto)
  qed
  then have props: "registers out (JObject ?props)"
    unfolding registers_def json_refs_entries [of ?props] by blast
  have "registers out (JObject [(k, j)])"
    if "(k, j) \<in> {(lit ''type'', json_str ''object''),
        (lit ''required'', JArray (map JString (required_fields dt))), (lit ''properties'', JObject ?props)}" for k j
    using that props
    by (auto simp: json_str_def intro: registers_string registers_entry) (auto simp: registers_def o_def)
  then show ?thesis unfolding struct_schema_def Let_def by (intro registers_object) auto
qed

subsection \<open>Registering components ends and leaves no reference open\<close>

text \<open>Every entry is the schema of a declared struct, under that struct's name.\<close>

definition well_registered :: "decls \<Rightarrow> (str, json) btree \<Rightarrow> bool" where
  "well_registered D out \<longleftrightarrow> bt_ok out \<and> (\<forall>n j. map_of out n = Some j \<longrightarrow>
     (\<exists>dt\<in>ran (map_of D). n = dt_name dt \<and> j = struct_schema D dt))"

text \<open>\<open>out'\<close> extends \<open>out\<close>, and what was added refers to registered names only.\<close>

definition extends :: "(str, json) btree \<Rightarrow> (str, json) btree \<Rightarrow> bool" where
  "extends out out' \<longleftrightarrow> map_of out \<subseteq>\<^sub>m map_of out'
     \<and> (\<forall>n j. map_of out' n = Some j \<longrightarrow> map_of out n = None \<longrightarrow> registers out' j)"

lemma extends_refl [simp]: "extends out out"
  by (simp add: extends_def)

lemma extends_trans:
  assumes "extends o1 o2" and "extends o2 o3"
  shows "extends o1 o3"
proof -
  have "map_of o1 \<subseteq>\<^sub>m map_of o3" using assms unfolding extends_def by (blast intro: map_le_trans)
  moreover have "registers o3 j" if "map_of o3 n = Some j" "map_of o1 n = None" for n j
  proof (cases "map_of o2 n")
    case None
    with that assms(2) show ?thesis by (simp add: extends_def)
  next
    case (Some j')
    with assms(2) have "map_of o3 n = Some j'" unfolding extends_def map_le_def by (metis domI)
    with that(1) have j': "j' = j" by simp
    from Some that(2) assms(1) have "registers o2 j'" by (simp add: extends_def)
    with assms(2) j' show ?thesis unfolding extends_def by (blast intro: registers_mono)
  qed
  ultimately show ?thesis by (simp add: extends_def)
qed

definition unregistered :: "decls \<Rightarrow> (str, json) btree \<Rightarrow> str set" where
  "unregistered D out = dt_name ` ran (map_of D) - dom (map_of out)"

lemma finite_unregistered: "finite (unregistered D out)"
  by (simp add: unregistered_def finite_ran finite_dom_map_of)

lemma unregistered_mono: "map_of out \<subseteq>\<^sub>m map_of out' \<Longrightarrow> unregistered D out' \<subseteq> unregistered D out"
  using map_le_implies_dom_le unfolding unregistered_def by blast

text \<open>What registering a type achieves.\<close>

definition registration :: "decls \<Rightarrow> rty \<Rightarrow> (str, json) btree \<Rightarrow> bool" where
  "registration D t out \<longleftrightarrow> (\<exists>out'. components_of D t out = Some out' \<and> well_registered D out'
     \<and> extends out out' \<and> registers out' (schema D t))"

lemma register_list:
  assumes "\<And>x out'. x \<in> set xs \<Longrightarrow> well_registered D out' \<Longrightarrow> map_of out \<subseteq>\<^sub>m map_of out' \<Longrightarrow>
      registration D (g x) out'"
    and "well_registered D out"
  shows "\<exists>out'. fold_opt (\<lambda>x. components_of D (g x)) xs out = Some out' \<and> well_registered D out'
     \<and> extends out out' \<and> (\<forall>x\<in>set xs. registers out' (schema D (g x)))"
  using assms
proof (induction xs arbitrary: out)
  case (Cons x xs)
  from Cons.prems(1) [of x out] Cons.prems(2) obtain o1 where
    o1: "components_of D (g x) out = Some o1" "well_registered D o1" "extends out o1"
      "registers o1 (schema D (g x))" by (auto simp: registration_def)
  have "registration D (g x') out'"
    if "x' \<in> set xs" "well_registered D out'" "map_of o1 \<subseteq>\<^sub>m map_of out'" for x' out'
    using Cons.prems(1) [of x' out'] that o1(3) by (auto simp: extends_def intro: map_le_trans)
  from Cons.IH [OF this o1(2)] obtain o2 where
    o2: "fold_opt (\<lambda>x. components_of D (g x)) xs o1 = Some o2" "well_registered D o2" "extends o1 o2"
      "\<forall>x\<in>set xs. registers o2 (schema D (g x))" by blast
  moreover have "registers o2 (schema D (g x))"
    using o1(4) o2(3) registers_mono unfolding extends_def by blast
  ultimately show ?case using o1 extends_trans [OF o1(3) o2(3)] by auto
qed simp

lemma well_registered_insert:
  assumes "well_registered D out" and "map_of D p = Some dt"
  shows "well_registered D (bt_insert (dt_name dt) (struct_schema D dt) out)"
  using assms by (auto simp: well_registered_def bt_get_insert bt_ok_insert intro: ranI)

lemma register_type:
  assumes "decls_ok D" and "declared D t" and "well_registered D out"
  shows "registration D t out"
  using assms(2,3)
proof (induction "(card (unregistered D out), size t)" arbitrary: t out rule: less_induct)
  case less
  note IH = less.hyps
  show ?case
  proof (cases t)
    case (RVec t')
    with less.prems have "registration D t' out" by (intro IH) (simp_all add: declared_def less_prod_def)
    moreover have "declared D t'" using RVec less.prems(1) by (simp add: declared_def)
    ultimately show ?thesis using RVec registers_vec
      by (auto simp: registration_def simp del: schema.simps schema_defs)
  next
    case (RData p)
    with less.prems obtain dt where dt: "map_of D p = Some dt" by (auto simp: declared_def)
    show ?thesis
    proof (cases "map_of out (dt_name dt)")
      case (Some j)
      then have "registers out (schema D (RData p))" by (simp only: registers_data [OF dt] domIff) simp
      with RData dt less.prems Some show ?thesis
        by (auto simp: registration_def components_of_data simp del: schema.simps schema_defs)
    next
      case None
      let ?o1 = "bt_insert (dt_name dt) (struct_schema D dt) out"
      have wr: "well_registered D ?o1" using less.prems(2) dt by (rule well_registered_insert)
      have le: "map_of out \<subseteq>\<^sub>m map_of ?o1" using None by (auto simp: map_le_def bt_get_insert)
      have "dt_name dt \<in> unregistered D out" "dt_name dt \<notin> unregistered D ?o1"
        using None dt by (auto simp: unregistered_def bt_get_insert intro: ranI)
      with unregistered_mono [OF le, of D] have smaller: "unregistered D ?o1 \<subset> unregistered D out" by blast
      have "registration D (fd_type f) out'"
        if "f \<in> set (dt_fields dt)" "well_registered D out'" "map_of ?o1 \<subseteq>\<^sub>m map_of out'" for f out'
      proof (rule IH)
        have "unregistered D out' \<subset> unregistered D out" using smaller unregistered_mono [OF that(3), of D] by blast
        then have "card (unregistered D out') < card (unregistered D out)"
          by (rule psubset_card_mono [OF finite_unregistered])
        then show "(card (unregistered D out'), size (fd_type f)) < (card (unregistered D out), size t)"
          by (simp add: less_prod_def)
        show "declared D (fd_type f)" using assms(1) that(1) dt by (auto simp: decls_ok_def intro: ranI)
      qed (rule that(2))
      from register_list [where g = fd_type, OF this wr] obtain o2 where
        o2: "fold_opt (\<lambda>f. components_of D (fd_type f)) (dt_fields dt) ?o1 = Some o2" "well_registered D o2"
          "extends ?o1 o2" "\<forall>f\<in>set (dt_fields dt). registers o2 (schema D (fd_type f))" by blast
      have dom2: "map_of o2 (dt_name dt) = Some (struct_schema D dt)"
        using o2(3) bt_get_insert [of "dt_name dt" "struct_schema D dt" out "dt_name dt"]
        unfolding extends_def map_le_def by (metis domI)
      have "registers o2 (struct_schema D dt)"
        using o2(4) assms(1) dt by (intro registers_struct) (auto simp: decls_ok_def intro: ranI)
      moreover from this have "registers o2 j" if "map_of o2 n = Some j" "map_of out n = None" for n j
        using that o2(3) dom2 unfolding extends_def bt_get_insert by (cases "n = dt_name dt") auto
      then have "extends out o2"
        using o2(3) map_le_trans [OF le] unfolding extends_def by blast
      moreover have "registers o2 (schema D (RData p))"
        using dom2 by (simp only: registers_data [OF dt] domIff) simp
      ultimately show ?thesis using o2 None dt RData
        by (auto simp: registration_def components_of_data simp del: schema.simps schema_defs)
    qed
  qed (use less.prems in \<open>auto simp: registration_def registers_def\<close>)
qed

lemma well_registered_empty [simp]: "well_registered D []"
  by (simp add: well_registered_def bt_ok_def)

subsection \<open>Arguments and payloads\<close>

lemma utf8_text_str_bytes [simp]: "utf8_text (str_bytes s) = Inr s"
  by (simp add: utf8_text_def)

lemma trim_show_bool [simp]: "trim (show_bool b) = show_bool b"
  by (rule trim_id) (auto simp: show_bool_def lit_Cons is_whitespace_def split: if_splits)

lemma parse_show_bool [simp]: "parse_bool (show_bool b) = Some b"
  by (simp add: parse_bool_def show_bool_def)

lemma from_arg_int_in_range: "from_arg L D (RInt t) raw = Inr v \<Longrightarrow> has_type v (RInt t)"
  by (auto simp: res_bind_Inr_iff res_map_Inr_iff dest!: parse_int_range)

text \<open>A parsed argument is a value of its type.\<close>

lemma from_arg_has_type: "is_arg t \<Longrightarrow> declared D t \<Longrightarrow> from_arg L D t raw = Inr v \<Longrightarrow> has_type v t"
  by (cases t) (auto simp: res_bind_Inr_iff res_map_Inr_iff declared_def dest: parse_int_range split: option.splits)

text \<open>Printing a string, boolean or integer and parsing it again.\<close>

lemma primitive_payload:
  assumes "has_type v t" and "t \<in> {RString, RBool} \<union> range RInt"
  shows "\<exists>payload. into_payload L D t v = Inr payload \<and> from_arg L D t payload = Inr v"
  using assms by (cases "(v, t)" rule: has_type.cases) (auto simp: parse_int_show_int)

lemma primitive_round_trip:
  assumes "has_type v t" and "t \<in> {RString, RBool} \<union> range RInt" and "into_payload L D t v = Inr raw"
  shows "from_arg L D t raw = Inr v"
  using primitive_payload [OF assms(1,2), of L D] assms(3) by auto

subsection \<open>Properties\<close>

text \<open>C28. Registering the component schemas of a type always ends, also for structs that refer to
  themselves or to each other, and leaves no reference open: every \<open>$ref\<close> in the type's
  schema or in a registered schema names a registered component, which is the schema of a
  declared struct of that name.\<close>

theorem components_are_closed:
  assumes "decls_ok D" and "declared D t"
  shows "\<exists>out. components_of D t [] = Some out
    \<and> (\<forall>j\<in>insert (schema D t) (snd ` set out). \<forall>s\<in>set (json_refs j).
         \<exists>dt\<in>ran (map_of D). s = ref_path (dt_name dt) \<and> (\<exists>dt'\<in>ran (map_of D).
           dt_name dt' = dt_name dt \<and> map_of out (dt_name dt) = Some (struct_schema D dt')))"
proof -
  from register_type [OF assms well_registered_empty] obtain out where
    out: "components_of D t [] = Some out" "well_registered D out" "extends [] out" "registers out (schema D t)"
    by (auto simp: registration_def)
  have ok: "\<exists>dt\<in>ran (map_of D). s = ref_path (dt_name dt) \<and> (\<exists>dt'\<in>ran (map_of D).
           dt_name dt' = dt_name dt \<and> map_of out (dt_name dt) = Some (struct_schema D dt'))"
    if "registers out j" "s \<in> set (json_refs j)" for j s
    using that out(2) unfolding registers_def well_registered_def by (fastforce simp: domIff)
  have "registers out j" if "(n, j) \<in> set out" for n j
    using that out(2,3) by (simp add: extends_def well_registered_def bt.entries_get)
  with out(4) have "registers out j" if "j \<in> insert (schema D t) (snd ` set out)" for j
    using that by (elim insertE imageE) auto
  with ok out(1) show ?thesis by meson
qed

text \<open>A person has friends, and a pet whose owner is a person.\<close>

definition ex_decls :: decls where
  "ex_decls = [(lit ''Person'', \<lparr>dt_name = lit ''Person'', dt_fields =
       [\<lparr>fd_name = lit ''friends'', fd_type = RVec (RData (lit ''Person'')), fd_optional = False\<rparr>,
        \<lparr>fd_name = lit ''pet'', fd_type = RData (lit ''Pet''), fd_optional = True\<rparr>]\<rparr>),
     (lit ''Pet'', \<lparr>dt_name = lit ''Pet'', dt_fields =
       [\<lparr>fd_name = lit ''owner'', fd_type = RData (lit ''Person''), fd_optional = False\<rparr>]\<rparr>)]"

lemma ex_decls_ok: "decls_ok ex_decls" "declared ex_decls (RVec (RData (lit ''Person'')))"
  by (auto simp: decls_ok_def declared_def ex_decls_def ran_def split: if_splits)

theorem components_are_closed_witness:
  "\<exists>out. components_of ex_decls (RVec (RData (lit ''Person''))) [] = Some out"
  using components_are_closed [OF ex_decls_ok] by blast



text \<open>C30. Integer arguments are parsed exactly: an argument of an integer type is accepted if and only if it is the
  UTF-8 text of a decimal numeral, with any white space around it, whose value is within the type's bounds, and
  the value passed on is that of the numeral. The number \<open>i\<close> written out gives an overflow error when it does not fit
  (an invalid digit for a negative number where the type is unsigned); it never wraps around.\<close>

theorem integer_arguments_exact:
  "(\<forall>raw w. from_arg L D (RInt t) raw = Inr w \<longleftrightarrow> (\<exists>s i. raw = str_bytes s \<and> decimal t (trim s) i
        \<and> int_ty_min t \<le> i \<and> i \<le> int_ty_max t \<and> w = VInt i))
   \<and> (\<forall>i ws ws'. (\<forall>c\<in>set ws \<union> set ws'. is_whitespace c) \<longrightarrow>
        from_arg L D (RInt t) (str_bytes (ws @ show_int i @ ws')) =
          (if int_ty_max t < i then Inl (int_error_display IntPosOverflow)
           else if int_ty_min t \<le> i then Inr (VInt i)
           else Inl (int_error_display (if int_ty_signed t then IntNegOverflow else IntInvalidDigit))))"
proof (intro conjI allI impI)
  fix raw w
  show "from_arg L D (RInt t) raw = Inr w \<longleftrightarrow> (\<exists>s i. raw = str_bytes s \<and> decimal t (trim s) i
        \<and> int_ty_min t \<le> i \<and> i \<le> int_ty_max t \<and> w = VInt i)"
    by (auto simp: utf8_text_def res_bind_Inr_iff res_map_Inr_iff res_map_err_Inr_iff from_utf8_iff parse_int_iff)
next
  fix i ws ws'
  assume "\<forall>c\<in>set ws \<union> set ws'. is_whitespace c"
  then have "trim (ws @ show_int i @ ws') = show_int i" by (intro trim_padded_int) blast
  then show "from_arg L D (RInt t) (str_bytes (ws @ show_int i @ ws')) =
      (if int_ty_max t < i then Inl (int_error_display IntPosOverflow)
       else if int_ty_min t \<le> i then Inr (VInt i)
       else Inl (int_error_display (if int_ty_signed t then IntNegOverflow else IntInvalidDigit)))"
    by (simp add: parse_int_show_int_iff del: str_bytes_append int_ty_signed.simps)
qed

theorem integer_arguments_exact_witness:
  "from_arg (undefined :: unit rust_lib) [] (RInt U8) (str_bytes (lit '' '' @ show_int 255 @ [])) = Inr (VInt 255)
   \<and> from_arg (undefined :: unit rust_lib) [] (RInt U8) (str_bytes (lit '' '' @ show_int 256 @ []))
       = Inl (int_error_display IntPosOverflow)
   \<and> from_arg (undefined :: unit rust_lib) [] (RInt I8) (str_bytes (uc (CHR ''-'') # map digit_chr [1, 2, 8])) = Inr (VInt (- 128))"
proof -
  note exact = integer_arguments_exact [where L = "undefined :: unit rust_lib" and D = "[]"]
  have ws: "\<forall>c\<in>set (lit '' '') \<union> set []. is_whitespace c"
    by (simp add: lit_Cons is_whitespace_def)
  have "trim (uc (CHR ''-'') # map digit_chr [1, 2, 8]) = uc (CHR ''-'') # map digit_chr [1, 2, 8]"
    by (rule trim_id) (auto simp: is_whitespace_def)
  then have "decimal I8 (trim (uc (CHR ''-'') # map digit_chr [1, 2, 8])) (- 128)"
    by (auto simp: decimal_def intro!: exI [of _ "[1, 2, 8]"])
  then have "from_arg (undefined :: unit rust_lib) [] (RInt I8) (str_bytes (uc (CHR ''-'') # map digit_chr [1, 2, 8])) = Inr (VInt (- 128))"
    unfolding conjunct1 [OF exact, rule_format] by (intro exI conjI) (simp_all add: int_ty_min_def int_ty_max_def)
  with conjunct2 [OF exact, rule_format, of "lit '' ''" "[]" U8 255] conjunct2 [OF exact, rule_format, of "lit '' ''" "[]" U8 256] ws
  show ?thesis
    by (simp add: int_ty_max_def int_ty_min_def del: from_arg.simps str_bytes_append)
qed

end
