(* ===== verification/Data_Type.thy ===== *)
theory Data_Type imports Macro_Syntax Contract_Types
begin

section \<open>The derive macro for data types\<close>

text \<open>
  \<open>derive_data_type\<close> of \<open>fabric-shim-macros/src/lib.rs\<close>: from a struct's definition to the
  \<open>data_type\<close> whose schema, components and conversions theory \<open>Contract_Types\<close> describes. Which
  impl a field's type selects is the compiler's name resolution, the parameter \<open>rt\<close>.
\<close>

definition unwrap_option :: "ty \<Rightarrow> ty \<times> bool" where
  "unwrap_option t = (case t of
     TyPath segs \<Rightarrow>
       if segs \<noteq> [] \<and> seg_ident (last segs) = lit ''Option'' then
         (case seg_args (last segs) of
            AngleBracketed (GenericType inner # _) \<Rightarrow> (inner, True)
          | _ \<Rightarrow> (t, False))
       else (t, False)
   | _ \<Rightarrow> (t, False))"

text \<open>The closure given to \<open>parse_nested_meta\<close>, over the metas of one attribute: \<open>found\<close> is its variable. An
  error stops the walk; so does a meta whose parenthesized arguments the closure leaves unread.\<close>

fun nested_value :: "str \<Rightarrow> meta list \<Rightarrow> str option \<Rightarrow> str option" where
  "nested_value key [] found = found"
| "nested_value key (MetaNameValue p e # ms) found =
     (if is_ident p key then
        (case e of ExprStr s \<Rightarrow> nested_value key ms (Some s) | ExprOther \<Rightarrow> found)
      else nested_value key ms found)"
| "nested_value key (MetaPath p # ms) found = (if is_ident p key then found else nested_value key ms found)"
| "nested_value key (MetaList p # ms) found = found"

fun serde_string_value :: "attribute list \<Rightarrow> str \<Rightarrow> str option" where
  "serde_string_value [] key = None"
| "serde_string_value (a # as) key =
     (if \<not> is_ident (attr_path a) (lit ''serde'') then serde_string_value as key
      else
        let found = (case a of AttrList _ ts \<Rightarrow> nested_value key (fst ts) None | _ \<Rightarrow> None) in
        if found \<noteq> None then found else serde_string_value as key)"

definition serde_rename :: "attribute list \<Rightarrow> str option" where
  "serde_rename attrs = serde_string_value attrs (lit ''rename'')"

definition serde_rename_all :: "attribute list \<Rightarrow> str option" where
  "serde_rename_all attrs = serde_string_value attrs (lit ''rename_all'')"

definition apply_rename_all :: "casing \<Rightarrow> str \<Rightarrow> str option \<Rightarrow> str" where
  "apply_rename_all C field rule =
     (if rule = Some (lit ''camelCase'') then cs_lower_camel C field
      else if rule = Some (lit ''PascalCase'') then cs_upper_camel C field
      else if rule = Some (lit ''UPPERCASE'') then cs_uppercase C field
      else if rule = Some (lit ''lowercase'') then cs_lowercase C field
      else if rule = Some (lit ''SCREAMING_SNAKE_CASE'') then cs_shouty_snake C field
      else if rule = Some (lit ''kebab-case'') then cs_kebab C field
      else field)"

definition json_name :: "casing \<Rightarrow> str option \<Rightarrow> struct_field \<Rightarrow> str" where
  "json_name C rename_all f = (case serde_rename (sf_attrs f) of
     Some n \<Rightarrow> n
   | None \<Rightarrow> apply_rename_all C (sf_ident f) rename_all)"

definition derive_field :: "casing \<Rightarrow> (ty \<Rightarrow> rty) \<Rightarrow> str option \<Rightarrow> struct_field \<Rightarrow> field" where
  "derive_field C rt rename_all f =
     (let (t, optional) = unwrap_option (sf_ty f) in
      \<lparr>fd_name = json_name C rename_all f, fd_type = rt t, fd_optional = optional\<rparr>)"

text \<open>The expansion, or the text of the compile error.\<close>

definition derive_data_type :: "casing \<Rightarrow> (ty \<Rightarrow> rty) \<Rightarrow> derive_input \<Rightarrow> str + data_type" where
  "derive_data_type C rt input = (case di_data input of
     DataStruct fs \<Rightarrow> (case fs of
         FieldsNamed named \<Rightarrow>
           if di_generic input then Inl (lit ''DataType structs cannot be generic'')
           else Inr \<lparr>dt_name = di_ident input,
                     dt_fields = map (derive_field C rt (serde_rename_all (di_attrs input))) named\<rparr>
       | _ \<Rightarrow> Inl (lit ''DataType requires named fields''))
   | _ \<Rightarrow> Inl (lit ''DataType supports only structs''))"

subsection \<open>The schema of a derived struct\<close>

text \<open>Reading a member of a JSON object.\<close>

fun json_get :: "json \<Rightarrow> str \<Rightarrow> json option" where
  "json_get (JObject kvs) k = map_of kvs k"
| "json_get _ k = None"

lemma json_get_object: "json_get (json_object kvs) k = map_of (rev kvs) k"
proof -
  have "map_of (fold (\<lambda>(k, v). bt_insert k v) kvs m) k = (case map_of (rev kvs) k of None \<Rightarrow> map_of m k | Some v \<Rightarrow> Some v)" for m
  proof (induction kvs arbitrary: m)
    case (Cons kv kvs)
    then show ?case by (cases kv) (auto simp: bt_get_insert map_add_def split: option.splits)
  qed simp
  then show ?thesis by (simp add: json_object_def split: option.split)
qed

lemma map_of_fold_fields:
  assumes "distinct (map key fs)"
  shows "map_of (fold (\<lambda>f. bt_insert (key f) (val f)) fs m) k = Some v \<longleftrightarrow>
    (\<exists>f\<in>set fs. k = key f \<and> v = val f) \<or> k \<notin> key ` set fs \<and> map_of m k = Some v"
  using assms
proof (induction fs arbitrary: m)
  case (Cons f fs)
  then show ?case by (cases "k = key f") (auto simp: bt_get_insert)
qed simp

lemma struct_schema_get:
  "json_get (struct_schema D dt) (lit ''required'') = Some (JArray (map JString (required_fields dt)))"
  "json_get (struct_schema D dt) (lit ''properties'')
     = Some (JObject (fold (\<lambda>f. bt_insert (fd_name f) (schema D (fd_type f))) (dt_fields dt) []))"
  "json_get (struct_schema D dt) (lit ''type'') = Some (json_str ''object'')"
  by (simp_all add: struct_schema_def Let_def json_get_object)

subsection \<open>Properties\<close>

text \<open>C31. The schema of a derived struct describes its fields: the properties are the fields under their JSON
  names (when these are distinct), each with the schema of its type without \<open>Option\<close>, and
  the required names are those of the fields that are not optional, in order; only structs with
  named fields and no generic parameters are accepted.\<close>

theorem derived_schema_describes_fields:
  assumes "derive_data_type C rt input = Inr dt" and "distinct (map fd_name (dt_fields dt))"
  shows "\<exists>named. di_data input = DataStruct (FieldsNamed named) \<and> \<not> di_generic input
    \<and> (let rename_all = serde_rename_all (di_attrs input) in
       json_get (struct_schema D dt) (lit ''required'') = Some (JArray (map (\<lambda>f. JString (json_name C rename_all f))
           (filter (\<lambda>f. \<not> snd (unwrap_option (sf_ty f))) named)))
     \<and> (\<exists>props. json_get (struct_schema D dt) (lit ''properties'') = Some (JObject props)
         \<and> (\<forall>k j. map_of props k = Some j \<longleftrightarrow>
              (\<exists>f\<in>set named. k = json_name C rename_all f \<and> j = schema D (rt (fst (unwrap_option (sf_ty f))))))))"
proof -
  from assms(1) obtain named where named: "di_data input = DataStruct (FieldsNamed named)" "\<not> di_generic input"
      and dt: "dt_fields dt = map (derive_field C rt (serde_rename_all (di_attrs input))) named"
    by (auto simp: derive_data_type_def split: data.splits fields.splits if_splits)
  let ?ra = "serde_rename_all (di_attrs input)"
  have sel: "fd_name (derive_field C rt ?ra f) = json_name C ?ra f"
      "fd_type (derive_field C rt ?ra f) = rt (fst (unwrap_option (sf_ty f)))"
      "fd_optional (derive_field C rt ?ra f) = snd (unwrap_option (sf_ty f))" for f
    by (simp_all add: derive_field_def case_prod_unfold Let_def)
  have req: "map JString (required_fields dt) = map (\<lambda>f. JString (json_name C ?ra f))
           (filter (\<lambda>f. \<not> snd (unwrap_option (sf_ty f))) named)"
    unfolding required_fields_def dt by (induction named) (simp_all add: sel)
  let ?props = "fold (\<lambda>f. bt_insert (fd_name f) (schema D (fd_type f))) (dt_fields dt) []"
  have "map_of ?props k = Some j \<longleftrightarrow> (\<exists>f\<in>set (dt_fields dt). k = fd_name f \<and> j = schema D (fd_type f))" for k j
    using map_of_fold_fields [OF assms(2), of "\<lambda>f. schema D (fd_type f)" "[]"] by simp
  then have "map_of ?props k = Some j \<longleftrightarrow>
      (\<exists>f\<in>set named. k = json_name C ?ra f \<and> j = schema D (rt (fst (unwrap_option (sf_ty f)))))" for k j
    by (simp add: dt sel)
  with named req show ?thesis by (auto simp: struct_schema_get Let_def)
qed

text \<open>Example structs: the asset of the sample chaincode, and one with an optional and a skipped field.\<close>

definition path_ty :: "string \<Rightarrow> ty" where
  "path_ty s = TyPath [Segment (lit s) NoArgs]"

definition serde_attr :: "meta list \<Rightarrow> attribute" where
  "serde_attr ms = AttrList [lit ''serde''] (ms, None)"

definition rename_to :: "string \<Rightarrow> attribute" where
  "rename_to s = serde_attr [MetaNameValue [lit ''rename''] (ExprStr (lit s))]"

definition plain_casing :: casing where
  "plain_casing = \<lparr>cs_lower_camel = id, cs_upper_camel = id, cs_shouty_snake = id, cs_kebab = id,
     cs_uppercase = id, cs_lowercase = id\<rparr>"

text \<open>Name resolution for the standard types.\<close>

fun ex_rt :: "ty \<Rightarrow> rty" where
  "ex_rt (TyPath [Segment i (AngleBracketed [GenericType t])]) = RVec (ex_rt t)"
| "ex_rt (TyPath [Segment i a]) =
     (if i = lit ''String'' then RString else if i = lit ''bool'' then RBool
      else if i = lit ''u32'' then RInt U32 else if i = lit ''u64'' then RInt U64 else RData i)"
| "ex_rt _ = RUnit"

definition asset_struct :: derive_input where
  "asset_struct = \<lparr>di_attrs = [], di_ident = lit ''Asset'', di_generic = False, di_data = DataStruct (FieldsNamed
     [\<lparr>sf_attrs = [rename_to ''ID''], sf_ident = lit ''id'', sf_ty = path_ty ''String''\<rparr>,
      \<lparr>sf_attrs = [rename_to ''color''], sf_ident = lit ''color'', sf_ty = path_ty ''String''\<rparr>,
      \<lparr>sf_attrs = [rename_to ''size''], sf_ident = lit ''size'', sf_ty = path_ty ''u32''\<rparr>,
      \<lparr>sf_attrs = [rename_to ''owner''], sf_ident = lit ''owner'', sf_ty = path_ty ''String''\<rparr>,
      \<lparr>sf_attrs = [rename_to ''appraisedValue''], sf_ident = lit ''appraised_value'', sf_ty = path_ty ''u64''\<rparr>])\<rparr>"

lemma derive_asset:
  "derive_data_type plain_casing ex_rt asset_struct = Inr \<lparr>dt_name = lit ''Asset'', dt_fields =
     [\<lparr>fd_name = lit ''ID'', fd_type = RString, fd_optional = False\<rparr>,
      \<lparr>fd_name = lit ''color'', fd_type = RString, fd_optional = False\<rparr>,
      \<lparr>fd_name = lit ''size'', fd_type = RInt U32, fd_optional = False\<rparr>,
      \<lparr>fd_name = lit ''owner'', fd_type = RString, fd_optional = False\<rparr>,
      \<lparr>fd_name = lit ''appraisedValue'', fd_type = RInt U64, fd_optional = False\<rparr>]\<rparr>"
  by (simp add: derive_data_type_def asset_struct_def derive_field_def json_name_def serde_rename_def rename_to_def
      serde_attr_def is_ident_def unwrap_option_def path_ty_def)

theorem derived_schema_describes_fields_witness:
  "\<exists>dt props. derive_data_type plain_casing ex_rt asset_struct = Inr dt
     \<and> json_get (struct_schema [] dt) (lit ''properties'') = Some (JObject props)
     \<and> map_of props (lit ''appraisedValue'') = Some (schema [] (RInt U64))"
proof -
  let ?dt = "\<lparr>dt_name = lit ''Asset'', dt_fields =
     [\<lparr>fd_name = lit ''ID'', fd_type = RString, fd_optional = False\<rparr>,
      \<lparr>fd_name = lit ''color'', fd_type = RString, fd_optional = False\<rparr>,
      \<lparr>fd_name = lit ''size'', fd_type = RInt U32, fd_optional = False\<rparr>,
      \<lparr>fd_name = lit ''owner'', fd_type = RString, fd_optional = False\<rparr>,
      \<lparr>fd_name = lit ''appraisedValue'', fd_type = RInt U64, fd_optional = False\<rparr>]\<rparr>"
  have "distinct (map fd_name (dt_fields ?dt))" by simp
  from derived_schema_describes_fields [OF derive_asset this, of "[]"] obtain named props where
    named: "di_data asset_struct = DataStruct (FieldsNamed named)"
    and props: "json_get (struct_schema [] ?dt) (lit ''properties'') = Some (JObject props)"
      "\<forall>k j. map_of props k = Some j \<longleftrightarrow> (\<exists>f\<in>set named. k = json_name plain_casing (serde_rename_all (di_attrs asset_struct)) f
          \<and> j = schema [] (ex_rt (fst (unwrap_option (sf_ty f)))))" by (auto simp: Let_def)
  let ?f = "\<lparr>sf_attrs = [rename_to ''appraisedValue''], sf_ident = lit ''appraised_value'', sf_ty = path_ty ''u64''\<rparr>"
  have "?f \<in> set named" using named by (auto simp: asset_struct_def)
  moreover have "json_name plain_casing (serde_rename_all (di_attrs asset_struct)) ?f = lit ''appraisedValue''"
      "schema [] (ex_rt (fst (unwrap_option (sf_ty ?f)))) = schema [] (RInt U64)"
    by (simp_all add: json_name_def serde_rename_def rename_to_def serde_attr_def is_ident_def unwrap_option_def path_ty_def)
  ultimately have "map_of props (lit ''appraisedValue'') = Some (schema [] (RInt U64))"
    unfolding props(2) [rule_format] by (intro bexI [of _ ?f]) simp_all
  with derive_asset props(1) show ?thesis by blast
qed

text \<open>Of serde's attributes the derive macro reads only \<open>rename = ".."\<close> and \<open>rename_all = ".."\<close>: a field that serde
  skips is still a required property of the schema, an argument in parentheses hides what
  follows it in the same attribute, and a naming rule outside the six listed ones leaves the
  names as they are.\<close>

lemma derive_ignores_other_serde_attributes:
  "required_fields \<lparr>dt_name = n, dt_fields = [derive_field C rt None
       \<lparr>sf_attrs = [AttrList [lit ''serde''] ([MetaPath [lit ''skip'']], None)], sf_ident = f, sf_ty = path_ty ''String''\<rparr>]\<rparr> = [f]
   \<and> json_name C None \<lparr>sf_attrs = [AttrList [lit ''serde''] ([MetaList [lit ''bound''],
       MetaNameValue [lit ''rename''] (ExprStr s)], None)], sf_ident = f, sf_ty = t\<rparr> = f
   \<and> apply_rename_all C f (Some (lit ''SCREAMING-KEBAB-CASE'')) = f"
  by (simp add: required_fields_def derive_field_def json_name_def serde_rename_def is_ident_def unwrap_option_def
      path_ty_def apply_rename_all_def)

end
