(* ===== verification/Contract_Macro.thy ===== *)
theory Contract_Macro imports Data_Type Handler
begin

section \<open>The contract macro\<close>

text \<open>
  \<open>#[contract]\<close> of \<open>fabric-shim-macros/src/lib.rs\<close>: reading the attribute and the impl block
  (\<open>contract_macro\<close>, an expansion or the compile errors), and what the generated
  \<open>Chaincode\<close> impl does (\<open>gen_invoke\<close>, \<open>gen_metadata\<close>). The bodies of the methods are the parameter
  \<open>call\<close>, a program for each method, stub and argument values; its error is the text of the
  user's error.
\<close>

subsection \<open>The attribute's options\<close>

record contract_args =
  ca_name :: "str option"
  ca_version :: "str option"
  ca_title :: "str option"

definition get_ident :: "str list \<Rightarrow> str" where
  "get_ident path = (case path of [i] \<Rightarrow> i | _ \<Rightarrow> [])"

fun contract_option :: "meta \<Rightarrow> contract_args \<Rightarrow> str + contract_args" where
  "contract_option (MetaNameValue path e) out = (case e of
     ExprOther \<Rightarrow> Inl (lit ''expected string literal'')
   | ExprStr s \<Rightarrow>
       let key = get_ident path in
       if key = lit ''name'' then Inr (out\<lparr>ca_name := Some s\<rparr>)
       else if key = lit ''version'' then Inr (out\<lparr>ca_version := Some s\<rparr>)
       else if key = lit ''title'' then Inr (out\<lparr>ca_title := Some s\<rparr>)
       else Inl (lit ''unknown contract option `'' @ key @ lit ''` (expected name, version, title)''))"
| "contract_option _ out =
     Inl (lit ''expected key = '' @ [uchr_of 34] @ lit ''value'' @ [uchr_of 34] @ lit '' (name, version, title)'')"

fun contract_options :: "meta list \<Rightarrow> contract_args \<Rightarrow> str + contract_args" where
  "contract_options [] out = Inr out"
| "contract_options (m # ms) out = res_bind (contract_option m out) (contract_options ms)"

definition parse_contract_args :: "tokens \<Rightarrow> str + contract_args" where
  "parse_contract_args attr =
     (let out = \<lparr>ca_name = None, ca_version = None, ca_title = None\<rparr> in
      if attr = ([], None) then Inr out
      else res_bind (parse_terminated attr) (\<lambda>metas. contract_options metas out))"

subsection \<open>Transaction methods\<close>

record tx_method =
  tm_wire_name :: str
  tm_tag :: str
  tm_ident :: str
  tm_async :: bool
  tm_params :: "(str \<times> ty) list"
  tm_ok_ty :: "ty option"

fun first_type :: "generic_arg list \<Rightarrow> ty option" where
  "first_type [] = None"
| "first_type (GenericType t # as) = Some t"
| "first_type (GenericOther # as) = first_type as"

definition extract_result_ok :: "ty \<Rightarrow> ty option" where
  "extract_result_ok t = (case t of
     TyPath segs \<Rightarrow>
       if segs = [] \<or> seg_ident (last segs) \<noteq> lit ''Result'' then None
       else (case seg_args (last segs) of
           AngleBracketed args \<Rightarrow> first_type args
         | _ \<Rightarrow> None)
   | _ \<Rightarrow> None)"

text \<open>The options in \<open>#[transaction(..)]\<close>: the tag, the name, and the errors found.\<close>

fun transaction_options :: "meta list \<Rightarrow> str \<Rightarrow> str option \<Rightarrow> str list \<Rightarrow> str \<times> str option \<times> str list" where
  "transaction_options [] tag wire_name errors = (tag, wire_name, errors)"
| "transaction_options (m # ms) tag wire_name errors =
     (if m = MetaPath [lit ''evaluate''] then transaction_options ms (lit ''evaluate'') wire_name errors
      else if m = MetaPath [lit ''submit''] then transaction_options ms (lit ''submit'') wire_name errors
      else (case m of
          MetaNameValue p e \<Rightarrow>
            if is_ident p (lit ''name'') then
              (case e of
                 ExprStr s \<Rightarrow> transaction_options ms tag (Some s) errors
               | ExprOther \<Rightarrow> transaction_options ms tag wire_name (errors @ [lit ''expected string literal'']))
            else transaction_options ms tag wire_name
                   (errors @ [lit ''expected `submit`, `evaluate`, or `name = '' @ [uchr_of 34] @ lit ''...'' @ [uchr_of 34] @ lit ''`''])
        | _ \<Rightarrow> transaction_options ms tag wire_name
                 (errors @ [lit ''expected `submit`, `evaluate`, or `name = '' @ [uchr_of 34] @ lit ''...'' @ [uchr_of 34] @ lit ''`''])))"

text \<open>The parameters after the receiver and the context: names with types, and the errors.\<close>

fun method_params :: "fn_arg list \<Rightarrow> (str \<times> ty) list \<times> str list" where
  "method_params [] = ([], [])"
| "method_params (Receiver # as) = method_params as"
| "method_params (Typed (PatIdent i) t # as) = (case method_params as of (ps, es) \<Rightarrow> ((i, t) # ps, es))"
| "method_params (Typed PatOther t # as) = (case method_params as of (ps, es) \<Rightarrow>
     (ps, lit ''#[transaction] parameters must be simple identifiers'' # es))"

definition result_error :: str where
  "result_error = lit ''#[transaction] methods must return Result<T, E> (E: Display)''"

definition method_ok_ty :: "return_type \<Rightarrow> str + ty option" where
  "method_ok_ty output = (case output of
     ReturnDefault \<Rightarrow> Inl result_error
   | ReturnType t \<Rightarrow> (case extract_result_ok t of
         None \<Rightarrow> Inl result_error
       | Some ok \<Rightarrow> Inr (if ok = TyTuple [] then None else Some ok)))"

text \<open>One turn of the loop over the items for a method with the attribute \<open>tx_attr\<close>.\<close>

definition transaction_method :: "casing \<Rightarrow> attribute \<Rightarrow> impl_fn \<Rightarrow> str list \<times> tx_method option" where
  "transaction_method C tx_attr m =
     (case (case tx_attr of
              AttrList _ ts \<Rightarrow> res_map (\<lambda>ms. transaction_options ms (lit ''submit'') None []) (parse_terminated ts)
            | _ \<Rightarrow> Inr (lit ''submit'', None, [])) of
        Inl e \<Rightarrow> ([e], None)
      | Inr (tag, wire_name, errors) \<Rightarrow>
          (case me_inputs m of
             Receiver # inputs \<Rightarrow>
               (case inputs of
                  [] \<Rightarrow> (errors @ [lit ''#[transaction] methods must take a context as their first argument, e.g. `ctx: &ChaincodeStub`''], None)
                | _ # rest \<Rightarrow>
                    (case method_params rest of (params, bad) \<Rightarrow>
                       if bad \<noteq> [] then (errors @ bad, None)
                       else (case method_ok_ty (me_output m) of
                           Inl e \<Rightarrow> (errors @ [e], None)
                         | Inr ok_ty \<Rightarrow> (errors, Some
                             \<lparr>tm_wire_name = (case wire_name of Some n \<Rightarrow> n | None \<Rightarrow> cs_upper_camel C (me_ident m)),
                              tm_tag = tag, tm_ident = me_ident m, tm_async = me_async m,
                              tm_params = params, tm_ok_ty = ok_ty\<rparr>))))
           | _ \<Rightarrow> (errors @ [lit ''#[transaction] methods must take &self''], None)))"

definition is_transaction_attr :: "attribute \<Rightarrow> bool" where
  "is_transaction_attr a \<longleftrightarrow> is_ident (attr_path a) (lit ''transaction'')"

text \<open>The loop: the errors, the transactions, and the items with the attribute removed.\<close>

fun contract_items :: "casing \<Rightarrow> impl_item list \<Rightarrow> str list \<times> tx_method list \<times> impl_item list" where
  "contract_items C [] = ([], [], [])"
| "contract_items C (ImplOther # is) = (case contract_items C is of (es, txs, is') \<Rightarrow> (es, txs, ImplOther # is'))"
| "contract_items C (ImplFn m # is) = (case contract_items C is of (es, txs, is') \<Rightarrow>
     (case find is_transaction_attr (me_attrs m) of
        None \<Rightarrow> (es, txs, ImplFn m # is')
      | Some tx_attr \<Rightarrow>
          let (errors, tx) = transaction_method C tx_attr m in
          (errors @ es, (case tx of None \<Rightarrow> txs | Some t \<Rightarrow> t # txs),
           ImplFn (m\<lparr>me_attrs := remove1 tx_attr (me_attrs m)\<rparr>) # is')))"

subsection \<open>The expansion\<close>

record expansion =
  ex_input :: item_impl
  ex_contract_name :: str
  ex_title :: str
  ex_version :: "str option"
  ex_txs :: "tx_method list"

text \<open>The macro: compile errors, or the expansion. \<open>item\<close> is the result of parsing the item as an impl block.\<close>

definition contract_macro :: "casing \<Rightarrow> tokens \<Rightarrow> str + item_impl \<Rightarrow> str list + expansion" where
  "contract_macro C attr item =
     (case parse_contract_args attr of
        Inl e \<Rightarrow> Inl [e]
      | Inr args \<Rightarrow> (case item of
          Inl e \<Rightarrow> Inl [e]
        | Inr input \<Rightarrow>
            if ii_generic input then Inl [lit ''#[contract] impls cannot be generic'']
            else (case ii_self_ty input of
              TyPath segs \<Rightarrow>
                let type_name = seg_ident (last segs);
                    (errors, txs, items) = contract_items C (ii_items input) in
                if errors \<noteq> [] then Inl errors
                else
                  let contract_name = or_else (ca_name args) type_name in
                  Inr \<lparr>ex_input = input\<lparr>ii_items := items\<rparr>, ex_contract_name = contract_name,
                       ex_title = or_else (ca_title args) contract_name, ex_version = ca_version args,
                       ex_txs = txs\<rparr>
            | _ \<Rightarrow> Inl [lit ''#[contract] requires a named type''])))"

subsection \<open>The generated metadata\<close>

definition param_name :: "casing \<Rightarrow> str \<Rightarrow> str" where
  "param_name C ident = cs_lower_camel C ident"

definition component_types :: "tx_method list \<Rightarrow> ty list" where
  "component_types txs = concat (map (\<lambda>tx. map snd (tm_params tx) @ (case tm_ok_ty tx of None \<Rightarrow> [] | Some t \<Rightarrow> [t])) txs)"

definition tx_builder :: "casing \<Rightarrow> (ty \<Rightarrow> rty) \<Rightarrow> decls \<Rightarrow> tx_method \<Rightarrow> transaction" where
  "tx_builder C rt D tx =
     (let t0 = (if tm_tag tx = lit ''evaluate'' then transaction_evaluate (tm_wire_name tx)
                else transaction_submit (tm_wire_name tx));
          t1 = fold (\<lambda>(i, t). transaction_parameter (param_name C i) (schema D (rt t))) (tm_params tx) t0 in
      case tm_ok_ty tx of None \<Rightarrow> t1 | Some t \<Rightarrow> transaction_returns (schema D (rt t)) t1)"

definition gen_metadata :: "casing \<Rightarrow> (ty \<Rightarrow> rty) \<Rightarrow> decls \<Rightarrow> str \<Rightarrow> expansion \<Rightarrow> metadata option" where
  "gen_metadata C rt D cargo_version ex =
     Option.bind (fold_opt (\<lambda>t. components_of D (rt t)) (component_types (ex_txs ex)) []) (\<lambda>components.
       let contract = fold (\<lambda>tx c. contract_transaction (tx_builder C rt D tx) c) (ex_txs ex) (contract_new (ex_contract_name ex));
           md = metadata_new (ex_title ex) (or_else (ex_version ex) cargo_version) in
       Some (metadata_contract contract (fold (\<lambda>(name, s). metadata_component name s) components md)))"

subsection \<open>The generated invoke\<close>

text \<open>\<open>rsplit(':').next()\<close>: what follows the last colon.\<close>

definition after_last_colon :: "str \<Rightarrow> str" where
  "after_last_colon s = rev (takeWhile (\<lambda>c. c \<noteq> uc (CHR '':'')) (rev s))"

type_synonym 'd methods = "str \<Rightarrow> stub \<Rightarrow> 'd val list \<Rightarrow> (str + 'd val) io"

fun parse_params :: "'d rust_lib \<Rightarrow> casing \<Rightarrow> (ty \<Rightarrow> rty) \<Rightarrow> decls \<Rightarrow> (str \<times> ty) list \<Rightarrow> bytes list \<Rightarrow> str + 'd val list" where
  "parse_params L C rt D ((i, t) # ps) (raw # raws) =
     res_bind (res_map_err (\<lambda>e. lit ''invalid argument `'' @ param_name C i @ lit ''`: '' @ e) (from_arg L D (rt t) raw))
       (\<lambda>v. res_map (\<lambda>vs. v # vs) (parse_params L C rt D ps raws))"
| "parse_params L C rt D _ _ = Inr []"

definition ok_rty :: "(ty \<Rightarrow> rty) \<Rightarrow> tx_method \<Rightarrow> rty" where
  "ok_rty rt tx = (case tm_ok_ty tx of None \<Rightarrow> RUnit | Some t \<Rightarrow> rt t)"

definition method_response :: "'d rust_lib \<Rightarrow> decls \<Rightarrow> rty \<Rightarrow> str + 'd val \<Rightarrow> response" where
  "method_response L D t r = (case r of
     Inr v \<Rightarrow> (case into_payload L D t v of Inr payload \<Rightarrow> success payload | Inl e \<Rightarrow> response_error e)
   | Inl e \<Rightarrow> response_error e)"

text \<open>One arm of the generated match.\<close>

definition invoke_arm :: "'d rust_lib \<Rightarrow> casing \<Rightarrow> (ty \<Rightarrow> rty) \<Rightarrow> decls \<Rightarrow> 'd methods \<Rightarrow> tx_method \<Rightarrow> stub \<Rightarrow> response io" where
  "invoke_arm L C rt D call tx stub =
     (let args = get_args stub; n = length (tm_params tx) in
      if length args \<noteq> n + 1 then
        Ret (response_error (tm_wire_name tx @ lit '' expects '' @ show_nat n @ lit '' argument(s), got ''
               @ show_nat (length args - 1)))
      else (case parse_params L C rt D (tm_params tx) (tl args) of
          Inl e \<Rightarrow> Ret (response_error e)
        | Inr vs \<Rightarrow> io_bind (call (tm_ident tx) stub vs) (\<lambda>r. Ret (method_response L D (ok_rty rt tx) r))))"

definition gen_invoke :: "'d rust_lib \<Rightarrow> casing \<Rightarrow> (ty \<Rightarrow> rty) \<Rightarrow> decls \<Rightarrow> 'd methods \<Rightarrow> expansion \<Rightarrow> stub \<Rightarrow> response io" where
  "gen_invoke L C rt D call ex stub =
     (case get_args stub of
        [] \<Rightarrow> Ret (response_error (lit ''no function specified''))
      | a # _ \<Rightarrow>
          let function = after_last_colon (from_utf8_lossy a) in
          (case find (\<lambda>tx. tm_wire_name tx = function) (ex_txs ex) of
             Some tx \<Rightarrow> invoke_arm L C rt D call tx stub
           | None \<Rightarrow> Ret (response_error (lit ''unknown function '' @ function))))"

text \<open>The chaincode the expansion defines; \<open>init\<close> is the default of the trait. \<open>to_json\<close> is
  \<open>serde_json::to_vec\<close> on the metadata.\<close>

definition contract_chaincode :: "(metadata \<Rightarrow> str + bytes) \<Rightarrow> 'd rust_lib \<Rightarrow> casing \<Rightarrow> (ty \<Rightarrow> rty) \<Rightarrow> decls \<Rightarrow> 'd methods \<Rightarrow>
    str \<Rightarrow> expansion \<Rightarrow> chaincode option" where
  "contract_chaincode to_json L C rt D call cargo_version ex =
     map_option (\<lambda>md. \<lparr>cc_metadata = Some (to_json md), cc_init = gen_invoke L C rt D call ex,
        cc_invoke = gen_invoke L C rt D call ex\<rparr>) (gen_metadata C rt D cargo_version ex)"

subsection \<open>What the macro accepts\<close>

definition methods_of :: "impl_item list \<Rightarrow> impl_fn list" where
  "methods_of items = concat (map (\<lambda>i. case i of ImplFn m \<Rightarrow> [m] | ImplOther \<Rightarrow> []) items)"

definition transactional :: "impl_fn \<Rightarrow> bool" where
  "transactional m \<longleftrightarrow> (\<exists>a\<in>set (me_attrs m). is_transaction_attr a)"

text \<open>The tag and the name a list of options asks for: the last ones given.\<close>

definition tag_of :: "meta \<Rightarrow> str list" where
  "tag_of m = (if m = MetaPath [lit ''evaluate''] then [lit ''evaluate'']
     else if m = MetaPath [lit ''submit''] then [lit ''submit''] else [])"

definition name_of :: "meta \<Rightarrow> str option list" where
  "name_of m = (case m of
       MetaNameValue p (ExprStr s) \<Rightarrow> if is_ident p (lit ''name'') then [Some s] else []
     | _ \<Rightarrow> [])"

definition option_tag :: "meta list \<Rightarrow> str" where
  "option_tag ms = last (lit ''submit'' # concat (map tag_of ms))"

definition option_name :: "meta list \<Rightarrow> str option" where
  "option_name ms = last (None # concat (map name_of ms))"

fun attr_options :: "attribute \<Rightarrow> meta list" where
  "attr_options (AttrList p ts) = fst ts"
| "attr_options _ = []"

text \<open>A transaction and the method it stands for.\<close>

definition stands_for :: "casing \<Rightarrow> impl_fn \<Rightarrow> tx_method \<Rightarrow> bool" where
  "stands_for C m tx \<longleftrightarrow> tm_ident tx = me_ident m \<and> tm_async tx = me_async m
     \<and> (\<exists>a. find is_transaction_attr (me_attrs m) = Some a \<and> tm_tag tx = option_tag (attr_options a)
          \<and> tm_wire_name tx = or_else (option_name (attr_options a)) (cs_upper_camel C (me_ident m)))
     \<and> (\<exists>ctx rest. me_inputs m = Receiver # ctx # rest \<and> method_params rest = (tm_params tx, []))
     \<and> (\<exists>t. me_output m = ReturnType t \<and> extract_result_ok t = Some (or_else (tm_ok_ty tx) (TyTuple [])))"

lemma last_Cons_append: "last (x # xs @ ys) = last (last (x # xs) # ys)"
  by (induction xs arbitrary: x) auto

lemma transaction_options_turn:
  "\<exists>errors'. transaction_options (m # ms) tag name errors
     = transaction_options ms (last (tag # tag_of m)) (last (name # name_of m)) errors'"
proof (cases m)
  case (MetaNameValue p e)
  then show ?thesis by (cases e) (auto simp: tag_of_def name_of_def)
qed (auto simp: tag_of_def name_of_def)

lemma transaction_options_spec:
  "transaction_options ms tag name errors = (tag', name', errors') \<Longrightarrow>
     tag' = last (tag # concat (map tag_of ms)) \<and> name' = last (name # concat (map name_of ms))"
proof (induction ms arbitrary: tag name errors)
  case (Cons m ms)
  obtain es where "transaction_options (m # ms) tag name errors
      = transaction_options ms (last (tag # tag_of m)) (last (name # name_of m)) es"
    using transaction_options_turn by blast
  then have "transaction_options ms (last (tag # tag_of m)) (last (name # name_of m)) es = (tag', name', errors')"
    using Cons.prems by (rule trans [OF sym])
  from Cons.IH [OF this] show ?case
    unfolding list.map concat.simps last_Cons_append .
qed simp

lemma transaction_attr_result:
  "(case a of
      AttrList _ ts \<Rightarrow> res_map (\<lambda>ms. transaction_options ms (lit ''submit'') None []) (parse_terminated ts)
    | _ \<Rightarrow> Inr (lit ''submit'', None, [])) = Inr (tag, name, errors) \<Longrightarrow>
     tag = option_tag (attr_options a) \<and> name = option_name (attr_options a)"
  unfolding option_tag_def option_name_def
  by (cases a) (auto simp: parse_terminated_def last_ConsL simp del: last.simps dest: transaction_options_spec split: option.splits)

lemma method_ok_ty_Inr:
  "method_ok_ty r = Inr ok \<Longrightarrow> \<exists>t. r = ReturnType t \<and> extract_result_ok t = Some (or_else ok (TyTuple []))"
  unfolding method_ok_ty_def or_else_def
  by (cases r) (auto split: option.splits if_splits intro: sym)

lemma transaction_method_ok:
  assumes "transaction_method C a m = ([], tx)" and "find is_transaction_attr (me_attrs m) = Some a"
  shows "\<exists>t. tx = Some t \<and> stands_for C m t"
  using assms
  by (auto simp: transaction_method_def stands_for_def or_else_def dest!: method_ok_ty_Inr transaction_attr_result
      split: sum.splits prod.splits list.splits fn_arg.splits if_splits option.splits)

lemma contract_items_ok:
  assumes "contract_items C items = ([], txs, items')"
  shows "list_all2 (stands_for C) (filter transactional (methods_of items)) txs"
  using assms
proof (induction C items arbitrary: txs items' rule: contract_items.induct)
  case (3 C m "is")
  obtain es0 txs0 is0 where rest: "contract_items C is = (es0, txs0, is0)" by (cases "contract_items C is") auto
  show ?case
  proof (cases "find is_transaction_attr (me_attrs m)")
    case None
    then have "\<not> transactional m" by (simp add: transactional_def find_None_iff)
    with 3 rest None show ?thesis by (auto simp: methods_of_def)
  next
    case (Some a)
    obtain errors tx where tm: "transaction_method C a m = (errors, tx)" by fastforce
    from Some have "transactional m" by (auto simp: transactional_def find_Some_iff)
    moreover from 3(2) rest Some tm have "errors = []" "es0 = []" by auto
    moreover from this transaction_method_ok [OF _ Some, of C tx] tm obtain t where "tx = Some t" "stands_for C m t" by auto
    ultimately show ?thesis using 3 rest Some tm by (auto simp: methods_of_def)
  qed
qed (auto simp: methods_of_def split: prod.splits)

subsection \<open>Routing\<close>

lemma takeWhile_before: "x \<notin> set s \<Longrightarrow> takeWhile (\<lambda>c. c \<noteq> x) (s @ x # t) = s \<and> takeWhile (\<lambda>c. c \<noteq> x) s = s"
  by (induction s) auto

lemma after_last_colon_plain: "uc (CHR '':'') \<notin> set s \<Longrightarrow> after_last_colon s = s"
  by (metis after_last_colon_def rev_rev_ident set_rev takeWhile_before)

lemma after_last_colon_namespaced:
  "uc (CHR '':'') \<notin> set s \<Longrightarrow> after_last_colon (ns @ uc (CHR '':'') # s) = s"
  using takeWhile_before [of "uc (CHR '':'')" "rev s"] by (simp add: after_last_colon_def)

lemma parse_params_values:
  assumes "list_all2 (\<lambda>(i, t) v. has_type v (rt t) \<and> rt t \<in> {RString, RBool} \<union> range RInt) ps vs"
    and "list_all2 (\<lambda>((i, t), v) raw. into_payload L D (rt t) v = Inr raw) (zip ps vs) raws"
  shows "parse_params L C rt D ps raws = Inr vs"
  using assms
proof (induction ps arbitrary: vs raws)
  case (Cons it ps)
  obtain i t where it: "it = (i, t)" by fastforce
  from Cons.prems it obtain v vs' raw raws' where
    split: "vs = v # vs'" "raws = raw # raws'" and v: "has_type v (rt t)" "rt t \<in> {RString, RBool} \<union> range RInt"
      "into_payload L D (rt t) v = Inr raw"
    and rest: "list_all2 (\<lambda>(i, t) v. has_type v (rt t) \<and> rt t \<in> {RString, RBool} \<union> range RInt) ps vs'"
      "list_all2 (\<lambda>((i, t), v) raw. into_payload L D (rt t) v = Inr raw) (zip ps vs') raws'"
    by (auto simp: list_all2_Cons1)
  from v have "from_arg L D (rt t) raw = Inr v"
    using primitive_round_trip by blast
  with Cons.IH [OF rest] split it show ?case by simp
qed auto

lemma fold_typed_parameters:
  "fold (\<lambda>(i, t). transaction_parameter (f i) (g t)) ps tx =
     tx\<lparr>mt_parameters := mt_parameters tx
        @ map (\<lambda>(i, t). \<lparr>par_name = f i, par_schema = g t, par_description = None\<rparr>) ps\<rparr>"
  by (induction ps arbitrary: tx) (auto simp: transaction_parameter_def)

lemma tx_builder_sel:
  "mt_name (tx_builder C rt D tx) = tm_wire_name tx"
  "mt_tag (tx_builder C rt D tx) = (if tm_tag tx = lit ''evaluate'' then [lit ''evaluate''] else [lit ''submit''])"
  "map (\<lambda>p. (par_name p, par_schema p)) (mt_parameters (tx_builder C rt D tx))
     = map (\<lambda>(i, t). (param_name C i, schema D (rt t))) (tm_params tx)"
  "mt_returns (tx_builder C rt D tx) = map_option (\<lambda>t. schema D (rt t)) (tm_ok_ty tx)"
  unfolding tx_builder_def Let_def fold_typed_parameters
  by (auto simp: transaction_evaluate_def transaction_submit_def transaction_returns_def split: option.split)

lemma fold_tx_builders:
  "fold (\<lambda>tx c. contract_transaction (g tx) c) txs c = fold contract_transaction (map g txs) c"
  by (simp add: fold_map o_def)

text \<open>The first argument that cannot be parsed makes the call fail, naming its parameter.\<close>

lemma parse_params_Inl:
  assumes "parse_params L C rt D ps raws = Inl e" and "length raws = length ps"
  shows "\<exists>i<length ps. (\<exists>e'. from_arg L D (rt (snd (ps ! i))) (raws ! i) = Inl e'
        \<and> e = lit ''invalid argument `'' @ param_name C (fst (ps ! i)) @ lit ''`: '' @ e')
     \<and> (\<forall>j<i. is_ok (from_arg L D (rt (snd (ps ! j))) (raws ! j)))"
  using assms
proof (induction ps arbitrary: raws)
  case (Cons it ps)
  obtain i t where it: "it = (i, t)" by fastforce
  from Cons.prems obtain raw raws' where raws: "raws = raw # raws'" by (cases raws) auto
  show ?case
  proof (cases "from_arg L D (rt t) raw")
    case (Inl e')
    with Cons.prems it raws show ?thesis by (intro exI [of _ 0]) simp
  next
    case (Inr v)
    with Cons.prems it raws have "parse_params L C rt D ps raws' = Inl e" by simp
    from Cons.IH [OF this] Cons.prems raws obtain k where k: "k < length ps"
      "\<exists>e'. from_arg L D (rt (snd (ps ! k))) (raws' ! k) = Inl e'
        \<and> e = lit ''invalid argument `'' @ param_name C (fst (ps ! k)) @ lit ''`: '' @ e'"
      "\<forall>j<k. is_ok (from_arg L D (rt (snd (ps ! j))) (raws' ! j))" by auto
    then show ?thesis using Inr it raws by (intro exI [of _ "Suc k"]) (auto simp: less_Suc_eq_0_disj)
  qed
qed simp

lemma parse_params_typed:
  assumes "parse_params L C rt D ps raws = Inr vs" and "length raws = length ps"
    and "\<And>i t. (i, t) \<in> set ps \<Longrightarrow> is_arg (rt t) \<and> declared D (rt t)"
  shows "list_all2 (\<lambda>(i, t) v. has_type v (rt t)) ps vs"
  using assms
proof (induction ps arbitrary: raws vs)
  case (Cons it ps)
  obtain i t where it: "it = (i, t)" by fastforce
  from Cons.prems obtain raw raws' where raws: "raws = raw # raws'" by (cases raws) auto
  with Cons.prems it obtain v vs' where vs: "vs = v # vs'" "from_arg L D (rt t) raw = Inr v" "parse_params L C rt D ps raws' = Inr vs'"
    by (auto simp: res_bind_Inr_iff res_map_Inr_iff res_map_err_Inr_iff)
  from Cons.IH [OF vs(3)] Cons.prems raws have "list_all2 (\<lambda>(i, t) v. has_type v (rt t)) ps vs'" by auto
  with Cons.prems(3) [of i t] from_arg_has_type [OF _ _ vs(2)] vs(1) it show ?case by simp
qed simp

lemma after_last_colon_no_colon: "uc (CHR '':'') \<notin> set (after_last_colon s)"
  by (auto simp: after_last_colon_def dest: set_takeWhileD)

lemma invoke_routed:
  assumes "find (\<lambda>tx. tm_wire_name tx = f) (ex_txs ex) = Some tx" and "uc (CHR '':'') \<notin> set f"
    and "get_args stub = str_bytes (ns @ f) # raws" and "ns = [] \<or> (\<exists>s. ns = s @ [uc (CHR '':'')])"
    and "list_all2 (\<lambda>(i, t) v. has_type v (rt t) \<and> rt t \<in> {RString, RBool} \<union> range RInt) (tm_params tx) vs"
    and "list_all2 (\<lambda>((i, t), v) raw. into_payload L D (rt t) v = Inr raw) (zip (tm_params tx) vs) raws"
  shows "gen_invoke L C rt D call ex stub = io_bind (call (tm_ident tx) stub vs) (\<lambda>r. Ret (case r of
      Inr v \<Rightarrow> (case into_payload L D (ok_rty rt tx) v of Inr payload \<Rightarrow> success payload | Inl e \<Rightarrow> response_error e)
    | Inl e \<Rightarrow> response_error e))"
proof -
  have f: "after_last_colon (ns @ f) = f"
    using assms(2,4) after_last_colon_plain after_last_colon_namespaced by auto
  have len: "length raws = length (tm_params tx)"
    using list_all2_lengthD [OF assms(5)] list_all2_lengthD [OF assms(6)] by simp
  show ?thesis
    using assms(1,3) len parse_params_values [OF assms(5,6)]
    by (simp add: gen_invoke_def Let_def f invoke_arm_def method_response_def del: str_bytes_append)
qed

text \<open>Dispatch: the first transaction under the name, if any.\<close>

lemma gen_invoke_call:
  "get_args stub = a # raws \<Longrightarrow> gen_invoke L C rt D call ex stub =
     (case find (\<lambda>tx. tm_wire_name tx = after_last_colon (from_utf8_lossy a)) (ex_txs ex) of
        Some tx \<Rightarrow> invoke_arm L C rt D call tx stub
      | None \<Rightarrow> Ret (response_error (lit ''unknown function '' @ after_last_colon (from_utf8_lossy a))))"
  by (simp add: gen_invoke_def Let_def)

lemma invoke_arm_call:
  "get_args stub = a # raws \<Longrightarrow> invoke_arm L C rt D call tx stub =
     (if length raws \<noteq> length (tm_params tx) then
        Ret (response_error (tm_wire_name tx @ lit '' expects '' @ show_nat (length (tm_params tx))
          @ lit '' argument(s), got '' @ show_nat (length raws)))
      else (case parse_params L C rt D (tm_params tx) raws of
          Inl e \<Rightarrow> Ret (response_error e)
        | Inr vs \<Rightarrow> io_bind (call (tm_ident tx) stub vs) (\<lambda>r. Ret (method_response L D (ok_rty rt tx) r))))"
  by (simp add: invoke_arm_def Let_def)

lemma find_first:
  "n < length xs \<Longrightarrow> (\<forall>m<n. f (xs ! m) \<noteq> f (xs ! n)) \<Longrightarrow> find (\<lambda>x. f x = f (xs ! n)) xs = Some (xs ! n)"
  by (auto simp: find_Some_iff)

lemma name_of_call:
  "uc (CHR '':'') \<notin> set f \<Longrightarrow> ns = [] \<or> (\<exists>s. ns = s @ [uc (CHR '':'')]) \<Longrightarrow>
     after_last_colon (from_utf8_lossy (str_bytes (ns @ f))) = f"
  using after_last_colon_plain after_last_colon_namespaced by (auto simp del: str_bytes_append)

lemma listed_transaction_runs:
  assumes "n < length (ex_txs ex)" and "uc (CHR '':'') \<notin> set (tm_wire_name (ex_txs ex ! n))"
    and "\<forall>m<n. tm_wire_name (ex_txs ex ! m) \<noteq> tm_wire_name (ex_txs ex ! n)"
    and "get_args stub = str_bytes (ns @ tm_wire_name (ex_txs ex ! n)) # raws" and "ns = [] \<or> (\<exists>s. ns = s @ [uc (CHR '':'')])"
  shows "gen_invoke L C rt D call ex stub = invoke_arm L C rt D call (ex_txs ex ! n) stub"
  using find_first [of n "ex_txs ex" tm_wire_name, OF assms(1,3)] name_of_call [OF assms(2,5)] assms(4)
  by (simp add: gen_invoke_call del: str_bytes_append)

text \<open>The metadata always exists: registering the components of the transactions ends.\<close>

lemma transactions_registered:
  assumes "decls_ok D" and "\<And>t. t \<in> set (component_types txs) \<Longrightarrow> declared D (rt t)"
  shows "\<exists>out. fold_opt (\<lambda>t. components_of D (rt t)) (component_types txs) [] = Some out
    \<and> well_registered D out \<and> extends [] out \<and> (\<forall>t\<in>set (component_types txs). registers out (schema D (rt t)))"
  using register_type [OF assms(1)] assms(2)
  by (intro register_list [where g = rt, OF _ well_registered_empty]) blast

lemma contract_chaincode_exists:
  assumes "decls_ok D" and "\<And>t. t \<in> set (component_types (ex_txs ex)) \<Longrightarrow> declared D (rt t)"
  shows "\<exists>cc. contract_chaincode to_json L C rt D call v ex = Some cc"
  using transactions_registered [where rt = rt and txs = "ex_txs ex", OF assms] by (auto simp: contract_chaincode_def gen_metadata_def Let_def)

lemma metadata_routes:
  assumes "decls_ok D" and "\<And>t. t \<in> set (component_types (ex_txs ex)) \<Longrightarrow> declared D (rt t)"
  shows "\<exists>md c. gen_metadata C rt D v ex = Some md \<and> map_of (md_contracts md) (ex_contract_name ex) = Some c
    \<and> map mt_name (ct_transactions c) = map tm_wire_name (ex_txs ex)
    \<and> map mt_tag (ct_transactions c)
        = map (\<lambda>tx. if tm_tag tx = lit ''evaluate'' then [lit ''evaluate''] else [lit ''submit'']) (ex_txs ex)
    \<and> map (\<lambda>t. map (\<lambda>p. (par_name p, par_schema p)) (mt_parameters t)) (ct_transactions c)
        = map (\<lambda>tx. map (\<lambda>(i, t). (param_name C i, schema D (rt t))) (tm_params tx)) (ex_txs ex)
    \<and> map mt_returns (ct_transactions c) = map (\<lambda>tx. map_option (\<lambda>t. schema D (rt t)) (tm_ok_ty tx)) (ex_txs ex)
    \<and> (\<forall>t\<in>set (component_types (ex_txs ex)). registers (comp_schemas (md_components md)) (schema D (rt t)))
    \<and> (\<forall>j\<in>snd ` set (comp_schemas (md_components md)). registers (comp_schemas (md_components md)) j)
    \<and> ct_transactions c = map (tx_builder C rt D) (ex_txs ex)"
proof -
  obtain out where out: "fold_opt (\<lambda>t. components_of D (rt t)) (component_types (ex_txs ex)) [] = Some out"
      "well_registered D out" "extends [] out" "\<forall>t\<in>set (component_types (ex_txs ex)). registers out (schema D (rt t))"
    using transactions_registered [where rt = rt and txs = "ex_txs ex", OF assms] by blast
  let ?c = "fold (\<lambda>tx c. contract_transaction (tx_builder C rt D tx) c) (ex_txs ex) (contract_new (ex_contract_name ex))"
  have c: "ct_transactions ?c = map (tx_builder C rt D) (ex_txs ex)" "ct_name ?c = ex_contract_name ex"
    unfolding fold_tx_builders [of "tx_builder C rt D"] by (simp_all add: fold_transactions contract_new_def)
  let ?md = "metadata_contract ?c (fold (\<lambda>(n, s). metadata_component n s) out
      (metadata_new (ex_title ex) (or_else (ex_version ex) v)))"
  have "gen_metadata C rt D v ex = Some ?md" using out(1) by (simp add: gen_metadata_def Let_def)
  moreover have "map_of (md_contracts ?md) (ex_contract_name ex) = Some ?c"
    using metadata_contract_sel(3) [of ?c] c(2) by simp
  moreover have "bt_ok out" using out(2) by (simp add: well_registered_def)
  then have "comp_schemas (md_components ?md) = out"
    using fold_bt_insert_sorted [of "[]" out] by (simp add: fold_components metadata_new_def)
  ultimately obtain md where md: "gen_metadata C rt D v ex = Some md"
      "map_of (md_contracts md) (ex_contract_name ex) = Some ?c" "comp_schemas (md_components md) = out" by blast
  have "registers out j" if "(n, j) \<in> set out" for n j
    using that out(2,3) by (simp add: extends_def well_registered_def bt.entries_get)
  then have all: "\<forall>j\<in>snd ` set out. registers out j" by auto
  show ?thesis
    by (rule exI [of _ md], rule exI [of _ ?c]) (use md(1,2) out(4) all in \<open>simp add: md(3) c o_def tx_builder_sel\<close>)
qed

text \<open>The types of a transaction's parameters and result; their schemas are the ones its metadata holds.\<close>

definition tx_types :: "tx_method \<Rightarrow> ty list" where
  "tx_types tx = map snd (tm_params tx) @ (case tm_ok_ty tx of None \<Rightarrow> [] | Some t \<Rightarrow> [t])"

definition tx_schemas :: "transaction \<Rightarrow> json list" where
  "tx_schemas t = map par_schema (mt_parameters t) @ (case mt_returns t of None \<Rightarrow> [] | Some j \<Rightarrow> [j])"

lemma component_types_concat: "component_types txs = concat (map tx_types txs)"
  by (simp add: component_types_def tx_types_def [abs_def])

lemma tx_builder_schemas: "tx_schemas (tx_builder C rt D tx) = map (\<lambda>t. schema D (rt t)) (tx_types tx)"
proof -
  have "map par_schema (mt_parameters (tx_builder C rt D tx)) = map (\<lambda>(i, t). schema D (rt t)) (tm_params tx)"
    using arg_cong [OF tx_builder_sel(3) [of C rt D tx], of "map snd"] by (simp add: o_def case_prod_unfold)
  then show ?thesis
    by (simp add: tx_schemas_def tx_types_def tx_builder_sel(4) o_def case_prod_unfold split: option.split)
qed

subsection \<open>Properties\<close>

text \<open>C20. The macro accepts an impl block only if every method marked \<open>#[transaction]\<close> takes \<open>&self\<close>, a context and
  parameters that are plain identifiers and returns a \<open>Result\<close>; its transactions are then
  exactly the marked methods, in order, with their parameters, the type in the \<open>Result\<close>, and the last tag and name
  the attribute gives (or \<open>submit\<close> and the method's name in upper camel case); the contract's name, title and
  version default to the type's name, the contract's name and the crate's version.\<close>

theorem macro_transactions_are_the_methods:
  assumes "contract_macro C attr (Inr input) = Inr ex"
  shows "list_all2 (stands_for C) (filter transactional (methods_of (ii_items input))) (ex_txs ex)
    \<and> (\<exists>args segs. parse_contract_args attr = Inr args \<and> ii_self_ty input = TyPath segs
         \<and> ex_contract_name ex = or_else (ca_name args) (seg_ident (last segs))
         \<and> ex_title ex = or_else (ca_title args) (ex_contract_name ex) \<and> ex_version ex = ca_version args)"
  using assms contract_items_ok
  by (auto simp: contract_macro_def Let_def split: sum.splits ty.splits if_splits prod.splits)

text \<open>C16. The generated metadata describes the routes: its contract has one transaction for each method, in
  order, with the tag, the parameters' names and schemas and the schema of the result, and every reference of
  these schemas, and of the registered components, names a registered component. A call under a listed name without a
  colon, with or without a namespace in front, is routed to the method it lists (the first one, where a name is listed
  twice): it takes exactly the listed number of arguments, parsed as the types of the listed
  schemas, and runs the method on them; a call under a name that is not listed is refused.\<close>

theorem metadata_describes_routes:
  assumes "decls_ok D"
    and "\<And>tx t. tx \<in> set (ex_txs ex) \<Longrightarrow> t \<in> set (tx_types tx) \<Longrightarrow> declared D (rt t)"
  shows "\<exists>md c. gen_metadata C rt D v ex = Some md \<and> map_of (md_contracts md) (ex_contract_name ex) = Some c
    \<and> map mt_name (ct_transactions c) = map tm_wire_name (ex_txs ex)
    \<and> map mt_tag (ct_transactions c)
        = map (\<lambda>tx. if tm_tag tx = lit ''evaluate'' then [lit ''evaluate''] else [lit ''submit'']) (ex_txs ex)
    \<and> map (\<lambda>t. map (\<lambda>p. (par_name p, par_schema p)) (mt_parameters t)) (ct_transactions c)
        = map (\<lambda>tx. map (\<lambda>(i, t). (param_name C i, schema D (rt t))) (tm_params tx)) (ex_txs ex)
    \<and> map mt_returns (ct_transactions c) = map (\<lambda>tx. map_option (\<lambda>t. schema D (rt t)) (tm_ok_ty tx)) (ex_txs ex)
    \<and> (\<forall>t\<in>set (ct_transactions c). \<forall>j\<in>set (tx_schemas t). registers (comp_schemas (md_components md)) j)
    \<and> (\<forall>j\<in>snd ` set (comp_schemas (md_components md)). registers (comp_schemas (md_components md)) j)
    \<and> (\<forall>n ns raws stub. n < length (ct_transactions c)
         \<longrightarrow> uc (CHR '':'') \<notin> set (mt_name (ct_transactions c ! n))
         \<longrightarrow> (\<forall>m<n. mt_name (ct_transactions c ! m) \<noteq> mt_name (ct_transactions c ! n))
         \<longrightarrow> get_args stub = str_bytes (ns @ mt_name (ct_transactions c ! n)) # raws
         \<longrightarrow> ns = [] \<or> (\<exists>s. ns = s @ [uc (CHR '':'')])
         \<longrightarrow> (let tx = ex_txs ex ! n in
             if length raws = length (mt_parameters (ct_transactions c ! n)) then
               gen_invoke L C rt D call ex stub = (case parse_params L C rt D (tm_params tx) raws of
                   Inl e \<Rightarrow> Ret (response_error e)
                 | Inr vs \<Rightarrow> io_bind (call (tm_ident tx) stub vs) (\<lambda>r. Ret (method_response L D (ok_rty rt tx) r)))
             else (\<exists>e. gen_invoke L C rt D call ex stub = Ret (response_error e))))
    \<and> (\<forall>a raws stub. get_args stub = a # raws
         \<longrightarrow> after_last_colon (from_utf8_lossy a) \<notin> mt_name ` set (ct_transactions c)
         \<longrightarrow> gen_invoke L C rt D call ex stub
               = Ret (response_error (lit ''unknown function '' @ after_last_colon (from_utf8_lossy a))))"
proof -
  have "\<And>t. t \<in> set (component_types (ex_txs ex)) \<Longrightarrow> declared D (rt t)"
    using assms(2) by (auto simp: component_types_concat)
  from metadata_routes [where C = C and rt = rt and v = v and ex = ex, OF assms(1) this] obtain md c where
    m: "gen_metadata C rt D v ex = Some md" "map_of (md_contracts md) (ex_contract_name ex) = Some c"
      "\<forall>t\<in>set (component_types (ex_txs ex)). registers (comp_schemas (md_components md)) (schema D (rt t))"
      "\<forall>j\<in>snd ` set (comp_schemas (md_components md)). registers (comp_schemas (md_components md)) j"
    and c: "ct_transactions c = map (tx_builder C rt D) (ex_txs ex)" by blast
  have "\<forall>t\<in>set (ct_transactions c). \<forall>j\<in>set (tx_schemas t). registers (comp_schemas (md_components md)) j"
    using m(3) by (auto simp: c tx_builder_schemas component_types_concat)
  moreover have "length (mt_parameters (tx_builder C rt D tx)) = length (tm_params tx)" for tx
    using arg_cong [OF tx_builder_sel(3) [of C rt D tx], of length] by simp
  moreover have "find (\<lambda>tx. tm_wire_name tx = f) (ex_txs ex) = None"
    if "f \<notin> mt_name ` tx_builder C rt D ` set (ex_txs ex)" for f
    using that by (auto simp: find_None_iff image_iff tx_builder_sel)
  ultimately show ?thesis
    by (intro exI [of _ md] exI [of _ c])
      (use m(1,2,4) in \<open>auto simp: c o_def tx_builder_sel Let_def listed_transaction_runs invoke_arm_call
          gen_invoke_call simp del: str_bytes_append\<close>)
qed

text \<open>C13. A call by name runs the method: with the right number of arguments, each the text of a value of its
  parameter's type (string, boolean or integer), the generated code runs the routed method with
  exactly these values, whether or not the name has a namespace in front, and answers with
  its result.\<close>

theorem contract_call_runs_method:
  assumes "find (\<lambda>tx. tm_wire_name tx = f) (ex_txs ex) = Some tx" and "uc (CHR '':'') \<notin> set f"
    and "get_args stub = str_bytes (ns @ f) # raws" and "ns = [] \<or> (\<exists>s. ns = s @ [uc (CHR '':'')])"
    and "list_all2 (\<lambda>(i, t) v. has_type v (rt t) \<and> rt t \<in> {RString, RBool} \<union> range RInt) (tm_params tx) vs"
    and "list_all2 (\<lambda>((i, t), v) raw. into_payload L D (rt t) v = Inr raw) (zip (tm_params tx) vs) raws"
  shows "gen_invoke L C rt D call ex stub = io_bind (call (tm_ident tx) stub vs) (\<lambda>r. Ret (case r of
      Inr v \<Rightarrow> (case into_payload L D (ok_rty rt tx) v of Inr payload \<Rightarrow> success payload | Inl e \<Rightarrow> response_error e)
    | Inl e \<Rightarrow> response_error e))"
  using assms by (rule invoke_routed)

text \<open>C14. A wrong call never reaches the contract's code: a call without arguments, an unknown function, a wrong number
  of arguments and an argument that cannot be parsed are answered with an error response at once, without a
  ledger request; the text names the function, the expected and actual counts, or the first
  bad parameter.\<close>

theorem wrong_calls_run_nothing:
  "case get_args stub of
     [] \<Rightarrow> gen_invoke L C rt D call ex stub = Ret (response_error (lit ''no function specified''))
   | a # raws \<Rightarrow> let f = after_last_colon (from_utf8_lossy a) in
       (f \<notin> tm_wire_name ` set (ex_txs ex) \<longrightarrow>
          gen_invoke L C rt D call ex stub = Ret (response_error (lit ''unknown function '' @ f)))
     \<and> (\<forall>tx. find (\<lambda>tx. tm_wire_name tx = f) (ex_txs ex) = Some tx \<longrightarrow>
          (length raws \<noteq> length (tm_params tx) \<longrightarrow> gen_invoke L C rt D call ex stub = Ret (response_error
              (f @ lit '' expects '' @ show_nat (length (tm_params tx)) @ lit '' argument(s), got '' @ show_nat (length raws))))
        \<and> (length raws = length (tm_params tx) \<and> \<not> is_ok (parse_params L C rt D (tm_params tx) raws) \<longrightarrow>
            (\<exists>i e. i < length raws \<and> from_arg L D (rt (snd (tm_params tx ! i))) (raws ! i) = Inl e
             \<and> (\<forall>j<i. is_ok (from_arg L D (rt (snd (tm_params tx ! j))) (raws ! j)))
             \<and> gen_invoke L C rt D call ex stub = Ret (response_error
                 (lit ''invalid argument `'' @ param_name C (fst (tm_params tx ! i)) @ lit ''`: '' @ e)))))"
proof (cases "get_args stub")
  case (Cons a raws)
  define f where "f = after_last_colon (from_utf8_lossy a)"
  note call = gen_invoke_call [OF Cons, folded f_def] and arm = invoke_arm_call [OF Cons]
  have "gen_invoke L C rt D call ex stub = Ret (response_error (lit ''unknown function '' @ f))"
    if "f \<notin> tm_wire_name ` set (ex_txs ex)"
  proof -
    have "find (\<lambda>tx. tm_wire_name tx = f) (ex_txs ex) = None" using that by (auto simp: find_None_iff)
    then show ?thesis by (simp add: call)
  qed
  moreover have "\<exists>i e. i < length raws \<and> from_arg L D (rt (snd (tm_params tx ! i))) (raws ! i) = Inl e
      \<and> (\<forall>j<i. is_ok (from_arg L D (rt (snd (tm_params tx ! j))) (raws ! j)))
      \<and> gen_invoke L C rt D call ex stub = Ret (response_error
          (lit ''invalid argument `'' @ param_name C (fst (tm_params tx ! i)) @ lit ''`: '' @ e))"
    if tx: "find (\<lambda>tx. tm_wire_name tx = f) (ex_txs ex) = Some tx" and len: "length raws = length (tm_params tx)"
      and bad: "\<not> is_ok (parse_params L C rt D (tm_params tx) raws)" for tx
  proof -
    from bad obtain e where e: "parse_params L C rt D (tm_params tx) raws = Inl e"
      by (cases "parse_params L C rt D (tm_params tx) raws") auto
    with len tx have "gen_invoke L C rt D call ex stub = Ret (response_error e)" by (simp add: call arm)
    with parse_params_Inl [OF e] len show ?thesis by auto
  qed
  ultimately show ?thesis
    by (auto simp: Cons Let_def f_def [symmetric] call arm dest: find_Some_iff [THEN iffD1])
qed (simp add: gen_invoke_def)

text \<open>C15. The contract's methods receive values of their parameters' types: whatever bytes a call carries, it is either
  answered with an error response at once or runs exactly one of the contract's methods, on as many values
  as the method has parameters, each a value of the parameter's type (an integer within the type's
  bounds, for one), and answers with that method's result.\<close>

theorem methods_receive_typed_arguments:
  assumes "\<And>tx i t. tx \<in> set (ex_txs ex) \<Longrightarrow> (i, t) \<in> set (tm_params tx) \<Longrightarrow> is_arg (rt t) \<and> declared D (rt t)"
  shows "(\<exists>resp. gen_invoke L C rt D call ex stub = Ret resp \<and> is_error resp)
    \<or> (\<exists>tx\<in>set (ex_txs ex). \<exists>vs. list_all2 (\<lambda>(i, t) v. has_type v (rt t)) (tm_params tx) vs
        \<and> gen_invoke L C rt D call ex stub
            = io_bind (call (tm_ident tx) stub vs) (\<lambda>r. Ret (method_response L D (ok_rty rt tx) r)))"
proof (cases "get_args stub")
  case (Cons a raws)
  show ?thesis
  proof (cases "find (\<lambda>tx. tm_wire_name tx = after_last_colon (from_utf8_lossy a)) (ex_txs ex)")
    case None
    with Cons show ?thesis by (simp add: gen_invoke_def Let_def)
  next
    case (Some tx)
    then have tx: "tx \<in> set (ex_txs ex)" by (auto simp: find_Some_iff)
    have arm: "gen_invoke L C rt D call ex stub = invoke_arm L C rt D call tx stub"
      using Cons Some by (simp add: gen_invoke_def Let_def)
    show ?thesis
    proof (cases "length raws = length (tm_params tx) \<and> is_ok (parse_params L C rt D (tm_params tx) raws)")
      case True
      then obtain vs where vs: "parse_params L C rt D (tm_params tx) raws = Inr vs" by (auto simp: is_ok_iff)
      have "list_all2 (\<lambda>(i, t) v. has_type v (rt t)) (tm_params tx) vs"
        by (rule parse_params_typed [OF vs]) (use True assms [OF tx] in auto)
      with True vs Cons tx arm show ?thesis by (auto simp: invoke_arm_def Let_def)
    next
      case False
      with Cons arm show ?thesis by (cases "parse_params L C rt D (tm_params tx) raws") (auto simp: invoke_arm_def Let_def)
    qed
  qed
qed (simp add: gen_invoke_def)

text \<open>C40. A transaction whose wire name has a colon can never be called, in any contract: what is matched is the
  text after the last colon, so every call is answered as it is without the transaction; it is refused, or runs
  another transaction, whose name has no colon.\<close>

theorem colon_names_are_unreachable:
  assumes "tx \<in> set (ex_txs ex)" and "uc (CHR '':'') \<in> set (tm_wire_name tx)"
  shows "gen_invoke L C rt D call ex stub = gen_invoke L C rt D call (ex\<lparr>ex_txs := removeAll tx (ex_txs ex)\<rparr>) stub
    \<and> ((\<exists>e. gen_invoke L C rt D call ex stub = Ret (response_error e))
      \<or> (\<exists>tx'\<in>set (ex_txs ex). tx' \<noteq> tx \<and> uc (CHR '':'') \<notin> set (tm_wire_name tx')
          \<and> gen_invoke L C rt D call ex stub = invoke_arm L C rt D call tx' stub))"
proof (cases "get_args stub")
  case (Cons a raws)
  define f where "f = after_last_colon (from_utf8_lossy a)"
  have no: "uc (CHR '':'') \<notin> set f" by (simp add: f_def after_last_colon_no_colon)
  then have "find (\<lambda>tx. tm_wire_name tx = f) (removeAll tx txs) = find (\<lambda>tx. tm_wire_name tx = f) txs" for txs
    using assms(2) by (induction txs) auto
  moreover have "tx' \<in> set (ex_txs ex) \<and> tx' \<noteq> tx \<and> uc (CHR '':'') \<notin> set (tm_wire_name tx')"
    if "find (\<lambda>tx. tm_wire_name tx = f) (ex_txs ex) = Some tx'" for tx'
    using that no assms(2) by (auto simp: find_Some_iff)
  ultimately show ?thesis
    by (cases "find (\<lambda>tx. tm_wire_name tx = f) (ex_txs ex)") (auto simp: gen_invoke_call [OF Cons, folded f_def])
qed (auto simp: gen_invoke_def)

end
