(* ===== verification/Metadata_Json.thy ===== *)
theory Metadata_Json imports Contract_Macro
begin

section \<open>The metadata document as JSON\<close>

text \<open>
  What \<open>derive(Serialize, Deserialize)\<close> makes of the structs of \<open>fabric-shim/src/metadata.rs\<close> with their
  \<open>serde\<close> attributes: the tree of the JSON document a \<open>Metadata\<close> is written as, and the \<open>Metadata\<close> read
  from a tree (\<open>None\<close> if reading fails). A struct is written as an object with its
  fields in order, without those its attributes skip; it is read from an object (unknown members are
  ignored, a member given twice or a required one left out is an error) or from an array of its
  fields. The text of a tree is serde_json's.
\<close>

subsection \<open>Reading and writing the parts\<close>

text \<open>A member that is left out when there is nothing to write.\<close>

definition opt_member :: "str \<Rightarrow> ('a \<Rightarrow> json) \<Rightarrow> 'a option \<Rightarrow> (str \<times> json) list" where
  "opt_member k f m = (case m of None \<Rightarrow> [] | Some a \<Rightarrow> [(k, f a)])"

definition non_empty :: "'a list \<Rightarrow> 'a list option" where
  "non_empty xs = (if xs = [] then None else Some xs)"

text \<open>The members a struct is read from: those of an object, or the elements of an array by position.\<close>

definition struct_members :: "str list \<Rightarrow> json \<Rightarrow> (str \<times> json) list option" where
  "struct_members names j = (case j of
     JObject kvs \<Rightarrow> Some kvs
   | JArray js \<Rightarrow> if length js \<le> length names then Some (zip names js) else None
   | _ \<Rightarrow> None)"

definition member_values :: "str \<Rightarrow> (str \<times> json) list \<Rightarrow> json list" where
  "member_values k kvs = map snd (filter (\<lambda>kv. fst kv = k) kvs)"

text \<open>One field: \<open>missing\<close> is its default, if it has one.\<close>

definition read_member :: "(json \<Rightarrow> 'a option) \<Rightarrow> 'a option \<Rightarrow> str \<Rightarrow> (str \<times> json) list \<Rightarrow> 'a option" where
  "read_member read missing k kvs = (case member_values k kvs of
     [] \<Rightarrow> missing
   | [j] \<Rightarrow> read j
   | _ \<Rightarrow> None)"

fun read_string :: "json \<Rightarrow> str option" where
  "read_string (JString s) = Some s"
| "read_string _ = None"

fun read_bool :: "json \<Rightarrow> bool option" where
  "read_bool (JBool b) = Some b"
| "read_bool _ = None"

fun read_all :: "('a \<Rightarrow> 'b option) \<Rightarrow> 'a list \<Rightarrow> 'b list option" where
  "read_all f [] = Some []"
| "read_all f (x # xs) = Option.bind (f x) (\<lambda>y. map_option ((#) y) (read_all f xs))"

fun read_vec :: "(json \<Rightarrow> 'a option) \<Rightarrow> json \<Rightarrow> 'a list option" where
  "read_vec f (JArray js) = read_all f js"
| "read_vec f _ = None"

text \<open>A \<open>BTreeMap\<close>: of a key given twice the last value counts.\<close>

fun read_map :: "(json \<Rightarrow> 'a option) \<Rightarrow> json \<Rightarrow> (str, 'a) btree option" where
  "read_map f (JObject kvs) =
     map_option (\<lambda>es. fold (\<lambda>(k, v). bt_insert k v) es []) (read_all (\<lambda>(k, j). map_option (Pair k) (f j)) kvs)"
| "read_map f _ = None"

definition read_option :: "(json \<Rightarrow> 'a option) \<Rightarrow> json \<Rightarrow> 'a option option" where
  "read_option f j = (if j = JNull then Some None else map_option Some (f j))"

text \<open>A \<open>serde_json::Value\<close>, whose objects are ordered maps.\<close>

fun read_value :: "json \<Rightarrow> json" where
  "read_value (JArray js) = JArray (map read_value js)"
| "read_value (JObject kvs) = JObject (fold (\<lambda>(k, v). bt_insert k v) (map (\<lambda>(k, j). (k, read_value j)) kvs) [])"
| "read_value j = j"

definition write_map :: "('a \<Rightarrow> json) \<Rightarrow> (str, 'a) btree \<Rightarrow> json" where
  "write_map f m = JObject (map (\<lambda>(k, v). (k, f v)) m)"

subsection \<open>The structs\<close>

definition info_json :: "info \<Rightarrow> json" where
  "info_json i = JObject ([(lit ''title'', JString (inf_title i)), (lit ''version'', JString (inf_version i))]
     @ opt_member (lit ''description'') JString (inf_description i))"

definition info_of_json :: "json \<Rightarrow> info option" where
  "info_of_json j =
     Option.bind (struct_members [lit ''title'', lit ''version'', lit ''description''] j) (\<lambda>kvs.
     Option.bind (read_member read_string None (lit ''title'') kvs) (\<lambda>title.
     Option.bind (read_member read_string None (lit ''version'') kvs) (\<lambda>version.
     Option.bind (read_member (read_option read_string) (Some None) (lit ''description'') kvs) (\<lambda>description.
       Some \<lparr>inf_title = title, inf_version = version, inf_description = description\<rparr>))))"

definition parameter_json :: "parameter \<Rightarrow> json" where
  "parameter_json p = JObject ([(lit ''name'', JString (par_name p)), (lit ''schema'', par_schema p)]
     @ opt_member (lit ''description'') JString (par_description p))"

definition parameter_of_json :: "json \<Rightarrow> parameter option" where
  "parameter_of_json j =
     Option.bind (struct_members [lit ''name'', lit ''schema'', lit ''description''] j) (\<lambda>kvs.
     Option.bind (read_member read_string None (lit ''name'') kvs) (\<lambda>name.
     Option.bind (read_member (\<lambda>v. Some (read_value v)) None (lit ''schema'') kvs) (\<lambda>schema.
     Option.bind (read_member (read_option read_string) (Some None) (lit ''description'') kvs) (\<lambda>description.
       Some \<lparr>par_name = name, par_schema = schema, par_description = description\<rparr>))))"

definition transaction_json :: "transaction \<Rightarrow> json" where
  "transaction_json t = JObject ([(lit ''name'', JString (mt_name t))]
     @ opt_member (lit ''tag'') (\<lambda>ts. JArray (map JString ts)) (non_empty (mt_tag t))
     @ opt_member (lit ''parameters'') (\<lambda>ps. JArray (map parameter_json ps)) (non_empty (mt_parameters t))
     @ opt_member (lit ''returns'') (\<lambda>v. v) (mt_returns t))"

definition transaction_of_json :: "json \<Rightarrow> transaction option" where
  "transaction_of_json j =
     Option.bind (struct_members [lit ''name'', lit ''tag'', lit ''parameters'', lit ''returns''] j) (\<lambda>kvs.
     Option.bind (read_member read_string None (lit ''name'') kvs) (\<lambda>name.
     Option.bind (read_member (read_vec read_string) (Some []) (lit ''tag'') kvs) (\<lambda>tag.
     Option.bind (read_member (read_vec parameter_of_json) (Some []) (lit ''parameters'') kvs) (\<lambda>parameters.
     Option.bind (read_member (read_option (\<lambda>v. Some (read_value v))) (Some None) (lit ''returns'') kvs) (\<lambda>returns.
       Some \<lparr>mt_name = name, mt_tag = tag, mt_parameters = parameters, mt_returns = returns\<rparr>)))))"

definition contract_json :: "contract \<Rightarrow> json" where
  "contract_json c = JObject [(lit ''name'', JString (ct_name c)), (lit ''info'', info_json (ct_info c)),
     (lit ''transactions'', JArray (map transaction_json (ct_transactions c))), (lit ''default'', JBool (ct_default c))]"

definition contract_of_json :: "json \<Rightarrow> contract option" where
  "contract_of_json j =
     Option.bind (struct_members [lit ''name'', lit ''info'', lit ''transactions'', lit ''default''] j) (\<lambda>kvs.
     Option.bind (read_member read_string None (lit ''name'') kvs) (\<lambda>name.
     Option.bind (read_member info_of_json None (lit ''info'') kvs) (\<lambda>info.
     Option.bind (read_member (read_vec transaction_of_json) None (lit ''transactions'') kvs) (\<lambda>transactions.
     Option.bind (read_member read_bool (Some False) (lit ''default'') kvs) (\<lambda>default.
       Some \<lparr>ct_name = name, ct_info = info, ct_transactions = transactions, ct_default = default\<rparr>)))))"

definition components_json :: "components \<Rightarrow> json" where
  "components_json c = JObject (opt_member (lit ''schemas'') (write_map (\<lambda>v. v)) (non_empty (comp_schemas c)))"

definition components_of_json :: "json \<Rightarrow> components option" where
  "components_of_json j =
     Option.bind (struct_members [lit ''schemas''] j) (\<lambda>kvs.
     Option.bind (read_member (read_map (\<lambda>v. Some (read_value v))) (Some []) (lit ''schemas'') kvs) (\<lambda>schemas.
       Some \<lparr>comp_schemas = schemas\<rparr>))"

definition metadata_json :: "metadata \<Rightarrow> json" where
  "metadata_json md = JObject (opt_member (lit ''$schema'') JString (non_empty (md_schema md))
     @ [(lit ''info'', info_json (md_info md)), (lit ''contracts'', write_map contract_json (md_contracts md))]
     @ opt_member (lit ''components'') components_json
         (if components_is_empty (md_components md) then None else Some (md_components md)))"

definition metadata_of_json :: "json \<Rightarrow> metadata option" where
  "metadata_of_json j =
     Option.bind (struct_members [lit ''$schema'', lit ''info'', lit ''contracts'', lit ''components''] j) (\<lambda>kvs.
     Option.bind (read_member read_string (Some []) (lit ''$schema'') kvs) (\<lambda>schema.
     Option.bind (read_member info_of_json None (lit ''info'') kvs) (\<lambda>info.
     Option.bind (read_member (read_map contract_of_json) None (lit ''contracts'') kvs) (\<lambda>contracts.
     Option.bind (read_member components_of_json (Some \<lparr>comp_schemas = []\<rparr>) (lit ''components'') kvs) (\<lambda>components.
       Some \<lparr>md_schema = schema, md_info = info, md_contracts = contracts, md_components = components\<rparr>)))))"

subsection \<open>Round trips of the parts\<close>

text \<open>
  A type with its two conversions: what is written is read back as \<open>norm\<close> of it. The facts
  about \<open>Vec\<close> and \<open>BTreeMap\<close> are proved once, and used at each element type.
\<close>

locale json_type =
  fixes ok :: "'a \<Rightarrow> bool" and norm :: "'a \<Rightarrow> 'a" and put :: "'a \<Rightarrow> json" and get :: "json \<Rightarrow> 'a option"
  assumes read_write: "ok a \<Longrightarrow> get (put a) = Some (norm a)"
begin

lemma read_all_write: "list_all ok xs \<Longrightarrow> read_all get (map put xs) = Some (map norm xs)"
  by (induction xs) (simp_all add: read_write)

lemma read_vec_write: "list_all ok xs \<Longrightarrow> read_vec get (JArray (map put xs)) = Some (map norm xs)"
  by (simp add: read_all_write)

lemma read_map_write:
  assumes "bt_ok m" and "list_all (\<lambda>kv. ok (snd kv)) m"
  shows "read_map get (write_map put m) = Some (map (\<lambda>(k, v). (k, norm v)) m)"
proof -
  have "read_all (\<lambda>(k, j). map_option (Pair k) (get j)) (map (\<lambda>(k, v). (k, put v)) m) = Some (map (\<lambda>(k, v). (k, norm v)) m)"
    using assms(2) by (induction m) (auto simp: read_write)
  moreover have "bt_ok (map (\<lambda>(k, v). (k, norm v)) m)"
    using assms(1) by (simp add: bt_ok_def o_def case_prod_unfold)
  ultimately show ?thesis
    using fold_bt_insert_sorted [of "[]"] by (simp add: write_map_def)
qed

end

lemma member_values_simps [simp]:
  "member_values k [] = []"
  "member_values k (kv # kvs) = (if fst kv = k then [snd kv] else []) @ member_values k kvs"
  "member_values k (xs @ ys) = member_values k xs @ member_values k ys"
  "member_values k (opt_member k' f m) = (if k' = k then map f (case m of None \<Rightarrow> [] | Some a \<Rightarrow> [a]) else [])"
  by (auto simp: member_values_def opt_member_def split: option.split)

lemma struct_members_object [simp]: "struct_members names (JObject kvs) = Some kvs"
  by (simp add: struct_members_def)

lemma non_empty_split: "(case non_empty xs of None \<Rightarrow> a | Some ys \<Rightarrow> f ys) = (if xs = [] then a else f xs)"
  by (simp add: non_empty_def)

lemmas member_simps = read_member_def opt_member_def [where m = None] non_empty_split read_option_def

fun value_ok :: "json \<Rightarrow> bool" where
  "value_ok (JArray js) = list_all value_ok js"
| "value_ok (JObject kvs) = (bt_ok kvs \<and> list_all (\<lambda>(k, j). value_ok j) kvs)"
| "value_ok j = True"

lemma read_value_ok: "value_ok j \<Longrightarrow> read_value j = j"
proof (induction j rule: value_ok.induct)
  case (1 js)
  then show ?case by (auto simp: list_all_iff intro: map_idI)
next
  case (2 kvs)
  then have "map (\<lambda>(k, j). (k, read_value j)) kvs = kvs" by (fastforce simp: list_all_iff intro: map_idI)
  with 2 show ?case using fold_bt_insert_sorted [of "[]" kvs] by simp
qed simp_all

interpretation text_json: json_type "\<lambda>s. True" "\<lambda>s. s" JString read_string
  by unfold_locales simp

interpretation value_json: json_type value_ok "\<lambda>v. v" "\<lambda>v. v" "\<lambda>v. Some (read_value v)"
  by unfold_locales (simp add: read_value_ok)

interpretation info_json: json_type "\<lambda>i. True" "\<lambda>i. i" info_json info_of_json
  by unfold_locales (simp add: info_json_def info_of_json_def member_simps split: option.split)

definition parameter_ok :: "parameter \<Rightarrow> bool" where
  "parameter_ok p \<longleftrightarrow> value_ok (par_schema p)"

interpretation parameter_json: json_type parameter_ok "\<lambda>p. p" parameter_json parameter_of_json
  by unfold_locales (simp add: parameter_json_def parameter_of_json_def member_simps parameter_ok_def read_value_ok split: option.split)

subsection \<open>Round trips of the structs\<close>

text \<open>The only loss: a result whose schema is \<open>null\<close> is read back as no result.\<close>

definition forget_null :: "transaction \<Rightarrow> transaction" where
  "forget_null t = (if mt_returns t = Some JNull then t\<lparr>mt_returns := None\<rparr> else t)"

definition transaction_ok :: "transaction \<Rightarrow> bool" where
  "transaction_ok t \<longleftrightarrow> list_all parameter_ok (mt_parameters t) \<and> list_all value_ok (case mt_returns t of None \<Rightarrow> [] | Some j \<Rightarrow> [j])"

interpretation transaction_json: json_type transaction_ok forget_null transaction_json transaction_of_json
proof unfold_locales
  fix t assume "transaction_ok t"
  then show "transaction_of_json (transaction_json t) = Some (forget_null t)"
    using text_json.read_all_write [of "mt_tag t"] parameter_json.read_all_write [of "mt_parameters t"]
    by (cases "mt_returns t") (auto simp: transaction_json_def transaction_of_json_def member_simps transaction_ok_def
        forget_null_def read_value_ok list_all_iff non_empty_def)
qed

definition contract_ok :: "contract \<Rightarrow> bool" where
  "contract_ok c \<longleftrightarrow> list_all transaction_ok (ct_transactions c)"

definition forget_nulls :: "contract \<Rightarrow> contract" where
  "forget_nulls c = c\<lparr>ct_transactions := map forget_null (ct_transactions c)\<rparr>"

interpretation contract_json: json_type contract_ok forget_nulls contract_json contract_of_json
  by unfold_locales (simp add: contract_json_def contract_of_json_def member_simps contract_ok_def forget_nulls_def
      info_json.read_write transaction_json.read_vec_write del: read_vec.simps)

definition components_ok :: "components \<Rightarrow> bool" where
  "components_ok c \<longleftrightarrow> bt_ok (comp_schemas c) \<and> list_all (\<lambda>kv. value_ok (snd kv)) (comp_schemas c)"

interpretation components_json: json_type components_ok "\<lambda>c. c" components_json components_of_json
  by unfold_locales (simp add: components_json_def components_of_json_def member_simps components_ok_def
      value_json.read_map_write non_empty_def del: read_map.simps)

text \<open>The documents the types allow: the maps and the schemas are ordered maps.\<close>

definition metadata_ok :: "metadata \<Rightarrow> bool" where
  "metadata_ok md \<longleftrightarrow> bt_ok (md_contracts md) \<and> list_all (\<lambda>kv. contract_ok (snd kv)) (md_contracts md)
     \<and> components_ok (md_components md)"

definition without_null_returns :: "metadata \<Rightarrow> metadata" where
  "without_null_returns md = md\<lparr>md_contracts := map (\<lambda>(n, c). (n, forget_nulls c)) (md_contracts md)\<rparr>"

interpretation metadata_json: json_type metadata_ok without_null_returns metadata_json metadata_of_json
proof unfold_locales
  fix md assume "metadata_ok md"
  then have "read_map contract_of_json (write_map contract_json (md_contracts md))
      = Some (map (\<lambda>(n, c). (n, forget_nulls c)) (md_contracts md))"
    and "components_of_json (components_json (md_components md)) = Some (md_components md)"
    by (simp_all add: metadata_ok_def contract_json.read_map_write components_json.read_write)
  moreover have "md_components md = \<lparr>comp_schemas = []\<rparr>" if "components_is_empty (md_components md)"
    using that by (simp add: components_is_empty_def)
  ultimately show "metadata_of_json (metadata_json md) = Some (without_null_returns md)"
    by (auto simp: metadata_json_def metadata_of_json_def member_simps info_json.read_write without_null_returns_def non_empty_def)
qed

subsection \<open>The generated metadata\<close>

lemma bt_ok_inserts: "bt_ok m \<Longrightarrow> bt_ok (fold (\<lambda>x. bt_insert (f x) (g x)) xs m)"
  by (induction xs arbitrary: m) (simp_all add: bt.ok_insert)

lemma value_ok_inserts:
  "(\<And>x. x \<in> set xs \<Longrightarrow> value_ok (g x)) \<Longrightarrow> value_ok (JObject (fold (\<lambda>x. bt_insert (f x) (g x)) xs []))"
  using bt_ok_inserts [OF bt.ok_empty, of f g xs] fold_bt_insert_set [of f g xs "[]"] by (auto simp: list_all_iff)

lemma value_ok_object: "(\<And>k j. (k, j) \<in> set kvs \<Longrightarrow> value_ok j) \<Longrightarrow> value_ok (json_object kvs)"
  unfolding json_object_def case_prod_unfold by (rule value_ok_inserts) auto

lemma value_ok_schema: "declared D t \<Longrightarrow> value_ok (schema D t)"
proof (induction t)
  case (RVec t)
  then have "value_ok (schema D t)" by (simp add: declared_def)
  then show ?case by (auto simp: json_str_def intro!: value_ok_object)
next
  case (RData p)
  then show ?case by (auto simp: declared_def intro!: value_ok_object)
qed (auto simp: type_schema_def json_str_def intro!: value_ok_object)

lemma value_ok_struct:
  assumes "\<And>f. f \<in> set (dt_fields dt) \<Longrightarrow> declared D (fd_type f)"
  shows "value_ok (struct_schema D dt)"
proof -
  have "value_ok (JObject (fold (\<lambda>f. bt_insert (fd_name f) (schema D (fd_type f))) (dt_fields dt) []))"
    by (rule value_ok_inserts) (use assms value_ok_schema in blast)
  then show ?thesis
    unfolding struct_schema_def Let_def by (intro value_ok_object) (auto simp: json_str_def list_all_iff)
qed

lemma schema_null_iff: "declared D t \<Longrightarrow> schema D t = JNull \<longleftrightarrow> t = RUnit"
  by (cases t) (auto simp: declared_def type_schema_def json_object_def)

lemma forget_null_id: "mt_returns t \<noteq> Some JNull \<Longrightarrow> forget_null t = t"
  by (simp add: forget_null_def)

text \<open>The generated document holds one contract, with the transactions the builders make.\<close>

lemma gen_metadata_sel:
  assumes "gen_metadata C rt D v ex = Some md"
  shows "\<exists>c. md_contracts md = [(ex_contract_name ex, c)] \<and> ct_transactions c = map (tx_builder C rt D) (ex_txs ex)"
proof -
  let ?c = "fold (\<lambda>tx c. contract_transaction (tx_builder C rt D tx) c) (ex_txs ex) (contract_new (ex_contract_name ex))"
  have c: "ct_transactions ?c = map (tx_builder C rt D) (ex_txs ex)" "ct_name ?c = ex_contract_name ex"
    unfolding fold_tx_builders [of "tx_builder C rt D"] by (simp_all add: fold_transactions contract_new_def)
  from assms obtain out where "md = metadata_contract ?c (fold (\<lambda>(n, s). metadata_component n s) out
      (metadata_new (ex_title ex) (or_else (ex_version ex) v)))"
    by (auto simp: gen_metadata_def Let_def bind_eq_Some_conv)
  then have "md_contracts md = [(ex_contract_name ex, ?c)]"
    using c(2) by (simp add: metadata_contract_def fold_components_sel metadata_new_def)
  with c(1) show ?thesis by blast
qed

lemma tx_builder_ok:
  assumes "\<And>t. t \<in> set (tx_types tx) \<Longrightarrow> declared D (rt t)"
  shows "transaction_ok (tx_builder C rt D tx)"
proof -
  have "\<forall>j\<in>set (tx_schemas (tx_builder C rt D tx)). value_ok j"
    unfolding tx_builder_schemas using assms value_ok_schema by auto
  then show ?thesis by (auto simp: transaction_ok_def parameter_ok_def tx_schemas_def list_all_iff)
qed

text \<open>The components it holds are the registered ones.\<close>

lemma gen_metadata_registers:
  assumes "gen_metadata C rt D v ex = Some md" and "decls_ok D"
    and "\<And>tx t. tx \<in> set (ex_txs ex) \<Longrightarrow> t \<in> set (tx_types tx) \<Longrightarrow> declared D (rt t)"
  defines "cs \<equiv> comp_schemas (md_components md)"
  shows "well_registered D cs" and "\<forall>j\<in>snd ` set cs. registers cs j"
    and "tx \<in> set (ex_txs ex) \<Longrightarrow> t \<in> set (tx_types tx) \<Longrightarrow> registers cs (schema D (rt t))"
proof -
  have "\<And>t. t \<in> set (component_types (ex_txs ex)) \<Longrightarrow> declared D (rt t)"
    using assms(3) by (auto simp: component_types_concat)
  then obtain out where out: "fold_opt (\<lambda>t. components_of D (rt t)) (component_types (ex_txs ex)) [] = Some out"
      "well_registered D out" "extends [] out" "\<forall>t\<in>set (component_types (ex_txs ex)). registers out (schema D (rt t))"
    using transactions_registered [where rt = rt and txs = "ex_txs ex", OF assms(2)] by blast
  then have sorted: "bt_ok out" by (simp add: well_registered_def)
  have cs: "cs = out"
    using assms(1) out(1) fold_bt_insert_sorted [of "[]" out] sorted
    by (auto simp: cs_def gen_metadata_def Let_def fold_components metadata_new_def)
  with out(2) show "well_registered D cs" by simp
  show "\<forall>j\<in>snd ` set cs. registers cs j"
    using out(3) bt.entries_get [OF sorted] by (auto simp: cs extends_def)
  show "tx \<in> set (ex_txs ex) \<Longrightarrow> t \<in> set (tx_types tx) \<Longrightarrow> registers cs (schema D (rt t))"
    using out(4) by (auto simp: cs component_types_concat)
qed

lemma well_registered_ok:
  assumes "well_registered D (comp_schemas c)" and "decls_ok D"
  shows "components_ok c"
proof -
  have "value_ok j" if "(n, j) \<in> set (comp_schemas c)" for n j
  proof -
    from that assms(1) obtain dt where "dt \<in> ran (map_of D)" "j = struct_schema D dt"
      by (auto simp: well_registered_def bt.entries_get)
    with assms(2) show ?thesis by (auto simp: decls_ok_def intro: value_ok_struct)
  qed
  with assms(1) show ?thesis by (auto simp: components_ok_def well_registered_def list_all_iff)
qed

lemma gen_metadata_ok:
  assumes "gen_metadata C rt D v ex = Some md" and "decls_ok D"
    and "\<And>tx t. tx \<in> set (ex_txs ex) \<Longrightarrow> t \<in> set (tx_types tx) \<Longrightarrow> declared D (rt t)"
  shows "metadata_ok md"
proof -
  obtain c where c: "md_contracts md = [(ex_contract_name ex, c)]" "ct_transactions c = map (tx_builder C rt D) (ex_txs ex)"
    using gen_metadata_sel [OF assms(1)] by blast
  have "contract_ok c" using tx_builder_ok assms(3) by (fastforce simp: contract_ok_def c(2) list_all_iff)
  moreover have "well_registered D (comp_schemas (md_components md))" using assms by (rule gen_metadata_registers(1))
  then have "components_ok (md_components md)" using assms(2) by (rule well_registered_ok)
  ultimately show ?thesis by (simp add: metadata_ok_def c(1) bt_ok_def)
qed

lemma gen_metadata_no_null:
  assumes "gen_metadata C rt D v ex = Some md"
    and "\<And>tx t. tx \<in> set (ex_txs ex) \<Longrightarrow> tm_ok_ty tx = Some t \<Longrightarrow> declared D (rt t) \<and> rt t \<noteq> RUnit"
  shows "without_null_returns md = md"
proof -
  obtain c where c: "md_contracts md = [(ex_contract_name ex, c)]" "ct_transactions c = map (tx_builder C rt D) (ex_txs ex)"
    using gen_metadata_sel [OF assms(1)] by blast
  have "forget_null (tx_builder C rt D tx) = tx_builder C rt D tx" if "tx \<in> set (ex_txs ex)" for tx
    using assms(2) [OF that] by (intro forget_null_id) (auto simp: tx_builder_sel schema_null_iff)
  then have "map forget_null (ct_transactions c) = ct_transactions c" by (simp add: c(2))
  then have "forget_nulls c = c" by (simp add: forget_nulls_def)
  with c(1) show ?thesis by (cases md) (simp add: without_null_returns_def)
qed

subsection \<open>Property\<close>

text \<open>C19. The metadata document reads back: the JSON tree written for the metadata the macro generates (members in
  the order of the structs' fields, the empty ones left out, \<open>$schema\<close> under its own name) is read as
  that metadata again, with its default for each member left out. What may be lost is exactly the result schema
  \<open>null\<close> of a method whose result type is another name for \<open>()\<close>: it reads back as no result.\<close>

theorem generated_metadata_reads_back:
  assumes "gen_metadata C rt D v ex = Some md" and "decls_ok D"
    and "\<And>tx t. tx \<in> set (ex_txs ex) \<Longrightarrow> t \<in> set (tx_types tx) \<Longrightarrow> declared D (rt t)"
  shows "metadata_of_json (metadata_json md) = Some (without_null_returns md)
    \<and> ((\<forall>tx\<in>set (ex_txs ex). map_option rt (tm_ok_ty tx) \<noteq> Some RUnit) \<longrightarrow> metadata_of_json (metadata_json md) = Some md)"
proof -
  have "metadata_of_json (metadata_json md) = Some (without_null_returns md)"
    using gen_metadata_ok [OF assms] by (rule metadata_json.read_write)
  moreover have "without_null_returns md = md" if "\<forall>tx\<in>set (ex_txs ex). map_option rt (tm_ok_ty tx) \<noteq> Some RUnit"
    by (rule gen_metadata_no_null [OF assms(1)]) (use that assms(3) in \<open>fastforce simp: tx_types_def\<close>)
  ultimately show ?thesis by auto
qed

end
