(* ===== verification/Schema_Conformance.thy ===== *)
theory Schema_Conformance imports Metadata_Json
begin

section \<open>Values against their schemas\<close>

text \<open>
  The schemas of \<open>contract.rs\<close> and of the derive macro as JSON Schemas: an executable validator for
  the keywords they use (\<open>type\<close>, \<open>items\<close>, \<open>required\<close>, \<open>properties\<close>, and \<open>$ref\<close> into the registered
  components), and the JSON that serde's derive writes for a value of a data type, under serde's own
  names for the members: what serde does with the attributes of a struct is a parameter, with its documented
  behaviour as the hypothesis. The theorem says which values their published schema accepts.
  Floats are left out: serde writes some of them as \<open>null\<close>.
\<close>

subsection \<open>A validator\<close>

definition resolve_ref :: "(str, json) btree \<Rightarrow> str \<Rightarrow> json option" where
  "resolve_ref cs r = map_option snd (find (\<lambda>(n, j). ref_path n = r) cs)"

text \<open>The members of the schema a schema stands for.\<close>

definition schema_members :: "(str, json) btree \<Rightarrow> json \<Rightarrow> (str \<times> json) list option" where
  "schema_members cs s = (case s of
     JObject kvs \<Rightarrow> (case map_of kvs (lit ''$ref'') of
         Some (JString r) \<Rightarrow> (case resolve_ref cs r of Some (JObject kvs') \<Rightarrow> Some kvs' | _ \<Rightarrow> None)
       | _ \<Rightarrow> Some kvs)
   | _ \<Rightarrow> None)"

fun type_name :: "json \<Rightarrow> string set" where
  "type_name JNull = {''null''}"
| "type_name (JBool b) = {''boolean''}"
| "type_name (JNumber i) = {''integer'', ''number''}"
| "type_name (JString s) = {''string''}"
| "type_name (JArray js) = {''array''}"
| "type_name (JObject kvs) = {''object''}"

definition type_matches :: "(str \<times> json) list \<Rightarrow> json \<Rightarrow> bool" where
  "type_matches m v \<longleftrightarrow> (case map_of m (lit ''type'') of
     None \<Rightarrow> True
   | Some t \<Rightarrow> t \<in> json_str ` type_name v)"

definition has_required :: "(str \<times> json) list \<Rightarrow> (str \<times> json) list \<Rightarrow> bool" where
  "has_required m kvs \<longleftrightarrow> (case map_of m (lit ''required'') of
     Some (JArray ns) \<Rightarrow> list_all (\<lambda>n. n \<in> JString ` fst ` set kvs) ns
   | _ \<Rightarrow> True)"

definition property_schema :: "(str \<times> json) list \<Rightarrow> str \<Rightarrow> json option" where
  "property_schema m k = (case map_of m (lit ''properties'') of Some (JObject ps) \<Rightarrow> map_of ps k | _ \<Rightarrow> None)"

fun accepts :: "(str, json) btree \<Rightarrow> json \<Rightarrow> json \<Rightarrow> bool" where
  "accepts cs s (JArray js) = (case schema_members cs s of
     None \<Rightarrow> False
   | Some m \<Rightarrow> type_matches m (JArray js)
       \<and> (case map_of m (lit ''items'') of None \<Rightarrow> True | Some it \<Rightarrow> list_all (accepts cs it) js))"
| "accepts cs s (JObject kvs) = (case schema_members cs s of
     None \<Rightarrow> False
   | Some m \<Rightarrow> type_matches m (JObject kvs) \<and> has_required m kvs
       \<and> list_all (\<lambda>(k, j). case property_schema m k of None \<Rightarrow> True | Some p \<Rightarrow> accepts cs p j) kvs)"
| "accepts cs s v = (case schema_members cs s of None \<Rightarrow> False | Some m \<Rightarrow> type_matches m v)"

subsection \<open>Values and their JSON\<close>

text \<open>A value; a struct's fields in order, \<open>None\<close> for an optional field without a value.\<close>

datatype sval =
    SString str
  | SBool bool
  | SInt int
  | SVec "sval list"
  | SStruct "sval option list"

lemma field_size: "(f, Some v) \<in> set (zip fs ms) \<Longrightarrow> size v < Suc (size_list (size_option size) ms)"
  by (drule set_zip_rightD, drule size_list_estimation' [where f = "size_option size" and y = "Suc (size v)"]) auto

text \<open>The values of a type.\<close>

function (sequential) sval_ok :: "decls \<Rightarrow> rty \<Rightarrow> sval \<Rightarrow> bool" where
  "sval_ok D RString (SString s) = True"
| "sval_ok D RBool (SBool b) = True"
| "sval_ok D (RInt t) (SInt i) = (int_ty_min t \<le> i \<and> i \<le> int_ty_max t)"
| "sval_ok D (RVec t) (SVec vs) = list_all (sval_ok D t) vs"
| "sval_ok D (RData p) (SStruct ms) = (case map_of D p of
     None \<Rightarrow> False
   | Some dt \<Rightarrow> length ms = length (dt_fields dt) \<and> list_all (\<lambda>(f, m). case m of
         None \<Rightarrow> fd_optional f
       | Some v \<Rightarrow> sval_ok D (fd_type f) v) (zip (dt_fields dt) ms))"
| "sval_ok D t v = False"
  by pat_completeness auto
termination
  by (relation "measure (\<lambda>(D, t, v). size v)") (auto dest: field_size size_list_estimation' [where f = size] intro: le_imp_less_Suc)

text \<open>A value as a JSON tree under the names of its schema; \<open>skips p f\<close> if field \<open>f\<close> of struct \<open>p\<close> is left out when
  it is \<open>None\<close>. What serde writes, under its own names, is \<open>value_json\<close> below; this tree is what it is compared with.\<close>

type_synonym skip_rule = "str \<Rightarrow> field \<Rightarrow> bool"

function (sequential) schema_json :: "skip_rule \<Rightarrow> decls \<Rightarrow> rty \<Rightarrow> sval \<Rightarrow> json" where
  "schema_json skips D RString (SString s) = JString s"
| "schema_json skips D RBool (SBool b) = JBool b"
| "schema_json skips D (RInt t) (SInt i) = JNumber i"
| "schema_json skips D (RVec t) (SVec vs) = JArray (map (schema_json skips D t) vs)"
| "schema_json skips D (RData p) (SStruct ms) = (case map_of D p of
     None \<Rightarrow> JNull
   | Some dt \<Rightarrow> JObject (concat (map (\<lambda>(f, m). case m of
         None \<Rightarrow> if skips p f then [] else [(fd_name f, JNull)]
       | Some v \<Rightarrow> [(fd_name f, schema_json skips D (fd_type f) v)]) (zip (dt_fields dt) ms))))"
| "schema_json skips D t v = JNull"
  by pat_completeness auto
termination
  by (relation "measure (\<lambda>(skips, D, t, v). size v)") (auto dest: field_size size_list_estimation' [where f = size] intro: le_imp_less_Suc)

text \<open>No field is written as \<open>null\<close>.\<close>

function (sequential) no_nulls :: "skip_rule \<Rightarrow> decls \<Rightarrow> rty \<Rightarrow> sval \<Rightarrow> bool" where
  "no_nulls skips D (RVec t) (SVec vs) = list_all (no_nulls skips D t) vs"
| "no_nulls skips D (RData p) (SStruct ms) = (case map_of D p of
     None \<Rightarrow> True
   | Some dt \<Rightarrow> list_all (\<lambda>(f, m). case m of
         None \<Rightarrow> skips p f
       | Some v \<Rightarrow> no_nulls skips D (fd_type f) v) (zip (dt_fields dt) ms))"
| "no_nulls skips D t v = True"
  by pat_completeness auto
termination
  by (relation "measure (\<lambda>(skips, D, t, v). size v)") (auto dest: field_size size_list_estimation' [where f = size] intro: le_imp_less_Suc)

subsection \<open>What a schema accepts\<close>

text \<open>The structs' names are distinct, and so are the JSON names of each struct's fields.\<close>

definition names_ok :: "decls \<Rightarrow> bool" where
  "names_ok D \<longleftrightarrow> inj_on dt_name (ran (map_of D)) \<and> (\<forall>dt\<in>ran (map_of D). distinct (map fd_name (dt_fields dt)))"

text \<open>The components a document registers.\<close>

definition components_for :: "decls \<Rightarrow> (str, json) btree \<Rightarrow> bool" where
  "components_for D cs \<longleftrightarrow> decls_ok D \<and> names_ok D \<and> well_registered D cs \<and> (\<forall>j\<in>snd ` set cs. registers cs j)"

lemma object_members:
  "\<exists>m. json_object kvs = JObject m \<and> (\<forall>k. map_of m k = map_of (rev kvs) k)"
  using json_get_object [of kvs] by (auto simp: json_object_def)

lemma ref_path_inject [simp]: "ref_path n = ref_path n' \<longleftrightarrow> n = n'"
  by (simp add: ref_path_def)

lemma resolve_registered:
  assumes "bt_ok cs" and "map_of cs n = Some j"
  shows "resolve_ref cs (ref_path n) = Some j"
proof -
  have "find (\<lambda>(n', j). n' = n) cs = Some (n, j)"
    using assms(2) by (induction cs) (auto split: if_splits)
  then show ?thesis by (simp add: resolve_ref_def)
qed

lemma declared_vec: "declared D (RVec t) \<longleftrightarrow> declared D t"
  by (simp add: declared_def)

text \<open>The components of a struct in a document that registers its name.\<close>

lemma component_of_struct:
  assumes "components_for D cs" and "map_of D p = Some dt" and "registers cs (schema D (RData p))"
  shows "map_of cs (dt_name dt) = Some (struct_schema D dt)"
proof -
  from assms(3) obtain j where j: "map_of cs (dt_name dt) = Some j"
    unfolding registers_data [OF assms(2)] by blast
  with assms(1) obtain dt' where "dt' \<in> ran (map_of D)" "dt_name dt = dt_name dt'" "j = struct_schema D dt'"
    by (auto simp: components_for_def well_registered_def)
  moreover have "dt \<in> ran (map_of D)" using assms(2) by (rule ranI)
  ultimately show ?thesis using assms(1) j by (auto simp: components_for_def names_ok_def inj_on_def)
qed

lemma struct_members_get:
  "\<exists>m. struct_schema D dt = JObject m \<and> map_of m (lit ''type'') = Some (json_str ''object'')
     \<and> map_of m (lit ''required'') = Some (JArray (map JString (required_fields dt)))
     \<and> map_of m (lit ''properties'') = Some (JObject (fold (\<lambda>f. bt_insert (fd_name f) (schema D (fd_type f))) (dt_fields dt) []))"
  using struct_schema_get [of D dt] by (auto simp: struct_schema_def Let_def json_object_def)

lemma data_members:
  assumes "components_for D cs" and "map_of D p = Some dt" and "registers cs (schema D (RData p))"
  obtains m where "schema_members cs (schema D (RData p)) = Some m" "struct_schema D dt = JObject m"
proof -
  obtain m where m: "struct_schema D dt = JObject m" using struct_members_get by blast
  have "bt_ok cs" using assms(1) by (simp add: components_for_def well_registered_def)
  from resolve_registered [OF this component_of_struct [OF assms]]
  have "schema_members cs (schema D (RData p)) = Some m"
    using assms(2) by (simp add: schema_members_def json_object_def m)
  with m that show ?thesis by blast
qed

lemma typed_members:
  assumes "map_of (rev kvs) (lit ''$ref'') = None"
  shows "\<exists>m. schema_members cs (json_object kvs) = Some m \<and> (\<forall>k. map_of m k = map_of (rev kvs) k)"
  using object_members [of kvs] assms by (auto simp: schema_members_def)

lemma type_schema_members: "\<exists>m. schema_members cs (type_schema t) = Some m \<and> map_of m (lit ''type'') = Some (json_str t)"
  using typed_members [of "[(lit ''type'', json_str t)]" cs] by (auto simp: type_schema_def)

lemma vec_schema_members: "\<exists>m. schema_members cs (vec_schema s) = Some m \<and> map_of m (lit ''type'') = Some (json_str ''array'')
    \<and> map_of m (lit ''items'') = Some s"
  using typed_members [of "[(lit ''type'', json_str ''array''), (lit ''items'', s)]" cs] by (auto simp: vec_schema_def)

lemma json_str_inject [simp]: "json_str s = json_str t \<longleftrightarrow> s = t"
  by (simp add: json_str_def)

lemma accepts_type_schema [simp]:
  "accepts cs (type_schema t) JNull \<longleftrightarrow> t = ''null''"
  "accepts cs (type_schema t) (JBool b) \<longleftrightarrow> t = ''boolean''"
  "accepts cs (type_schema t) (JNumber i) \<longleftrightarrow> t = ''integer'' \<or> t = ''number''"
  "accepts cs (type_schema t) (JString s) \<longleftrightarrow> t = ''string''"
  using type_schema_members [of cs t] by (auto simp: type_matches_def)

lemma accepts_vec_schema:
  "accepts cs (vec_schema s) (JArray js) \<longleftrightarrow> list_all (accepts cs s) js" "\<not> accepts cs (vec_schema s) JNull"
  using vec_schema_members [of cs s] by (auto simp: type_matches_def simp del: vec_schema_def)

declare accepts.simps [simp del]

lemma map_of_fields:
  assumes "distinct (map fd_name fs)" and "f \<in> set fs"
  shows "map_of (fold (\<lambda>f. bt_insert (fd_name f) (g f)) fs []) (fd_name f) = Some (g f)"
  unfolding map_of_fold_fields [OF assms(1)] using assms(2) by auto

text \<open>A struct's schema: an object with the required members, each member accepted by its field's schema.\<close>

lemma accepts_struct:
  assumes cs: "components_for D cs" and dt: "map_of D p = Some dt" and reg: "registers cs (schema D (RData p))"
    and fields: "\<And>kv. kv \<in> set kvs \<Longrightarrow> fst kv \<in> fd_name ` set (dt_fields dt)"
  shows "accepts cs (schema D (RData p)) (JObject kvs) \<longleftrightarrow> set (required_fields dt) \<subseteq> fst ` set kvs
    \<and> (\<forall>f\<in>set (dt_fields dt). \<forall>j. (fd_name f, j) \<in> set kvs \<longrightarrow> accepts cs (schema D (fd_type f)) j)"
    "\<not> accepts cs (schema D (RData p)) JNull"
proof -
  obtain m where m: "schema_members cs (schema D (RData p)) = Some m" "struct_schema D dt = JObject m"
    using data_members [OF cs dt reg] by blast
  from cs dt have dist: "distinct (map fd_name (dt_fields dt))" by (auto simp: components_for_def names_ok_def ran_def)
  from struct_members_get [of D dt] m(2) have get: "map_of m (lit ''type'') = Some (json_str ''object'')"
    "map_of m (lit ''required'') = Some (JArray (map JString (required_fields dt)))"
    "map_of m (lit ''properties'') = Some (JObject (fold (\<lambda>f. bt_insert (fd_name f) (schema D (fd_type f))) (dt_fields dt) []))"
    by auto
  have props: "property_schema m (fd_name f) = Some (schema D (fd_type f))" if "f \<in> set (dt_fields dt)" for f
    using map_of_fields [OF dist that, of "\<lambda>f. schema D (fd_type f)"] by (simp add: property_schema_def get)
  have req: "has_required m kvs \<longleftrightarrow> set (required_fields dt) \<subseteq> fst ` set kvs"
    by (auto simp: has_required_def get list_all_iff)
  have "list_all (\<lambda>(k, j). case property_schema m k of None \<Rightarrow> True | Some p \<Rightarrow> accepts cs p j) kvs
      \<longleftrightarrow> (\<forall>f\<in>set (dt_fields dt). \<forall>j. (fd_name f, j) \<in> set kvs \<longrightarrow> accepts cs (schema D (fd_type f)) j)"
    using props fields by (fastforce simp: list_all_iff)
  then show "accepts cs (schema D (RData p)) (JObject kvs) \<longleftrightarrow> set (required_fields dt) \<subseteq> fst ` set kvs
    \<and> (\<forall>f\<in>set (dt_fields dt). \<forall>j. (fd_name f, j) \<in> set kvs \<longrightarrow> accepts cs (schema D (fd_type f)) j)"
    using m(1) req by (simp add: accepts.simps type_matches_def get del: schema.simps)
  show "\<not> accepts cs (schema D (RData p)) JNull"
    using m(1) by (simp add: accepts.simps type_matches_def get del: schema.simps)
qed

text \<open>No published schema accepts \<open>null\<close>.\<close>

lemma null_refused:
  assumes "components_for D cs" and "declared D t" and "registers cs (schema D t)"
  shows "\<not> accepts cs (schema D t) JNull"
proof (cases t)
  case (RData p)
  with assms(2) obtain dt where dt: "map_of D p = Some dt" by (auto simp: declared_def)
  from accepts_struct(2) [OF assms(1) dt, of "[]"] assms(3) RData show ?thesis by simp
next
  case (RVec t')
  then show ?thesis by (simp add: accepts_vec_schema del: vec_schema_def)
next
  case RUnit
  then show ?thesis by (simp add: accepts.simps schema_members_def)
qed simp_all

lemma registers_member:
  assumes "registers cs (JObject kvs)" and "(k, j) \<in> set kvs" and "\<And>s. j \<noteq> JString s"
  shows "registers cs j"
proof -
  have "json_refs (JObject [(k, j)]) = json_refs j" using assms(3) by (cases j) auto
  moreover have "set (json_refs (JObject [(k, j)])) \<subseteq> set (json_refs (JObject kvs))"
    using assms(2) unfolding json_refs_entries [of kvs] by blast
  ultimately show ?thesis using assms(1) by (simp add: registers_def)
qed

lemma registers_items:
  assumes "registers cs (schema D (RVec t))" and "declared D t"
  shows "registers cs (schema D t)"
proof -
  obtain m where m: "vec_schema (schema D t) = JObject m" "map_of m (lit ''items'') = Some (schema D t)"
    using object_members [of "[(lit ''type'', json_str ''array''), (lit ''items'', schema D t)]"] by (auto simp: vec_schema_def)
  from assms(1) m(1) have "registers cs (JObject m)" by (simp del: vec_schema_def)
  then show ?thesis by (rule registers_member [OF _ map_of_SomeD [OF m(2)]]) (simp add: assms(2))
qed

lemma registers_field:
  assumes cs: "components_for D cs" and dt: "map_of D p = Some dt" and reg: "registers cs (schema D (RData p))"
    and f: "f \<in> set (dt_fields dt)"
  shows "declared D (fd_type f) \<and> registers cs (schema D (fd_type f))"
proof -
  have decl: "declared D (fd_type f)" using cs dt f by (auto simp: components_for_def decls_ok_def ran_def)
  have dist: "distinct (map fd_name (dt_fields dt))" using cs dt by (auto simp: components_for_def names_ok_def ran_def)
  obtain m where m: "struct_schema D dt = JObject m"
    "map_of m (lit ''properties'') = Some (JObject (fold (\<lambda>f. bt_insert (fd_name f) (schema D (fd_type f))) (dt_fields dt) []))"
    using struct_members_get by blast
  have "registers cs (struct_schema D dt)"
    using cs map_of_SomeD [OF component_of_struct [OF cs dt reg]] by (force simp: components_for_def)
  then have "registers cs (JObject m)" by (simp add: m(1))
  then have "registers cs (JObject (fold (\<lambda>f. bt_insert (fd_name f) (schema D (fd_type f))) (dt_fields dt) []))"
    by (rule registers_member [OF _ map_of_SomeD [OF m(2)]]) simp
  then have "registers cs (schema D (fd_type f))"
    by (rule registers_member [OF _ map_of_SomeD [OF map_of_fields [OF dist f, of "\<lambda>f. schema D (fd_type f)"]]]) (simp add: decl)
  with decl show ?thesis by blast
qed

text \<open>The members of a struct's value.\<close>

definition members_json :: "skip_rule \<Rightarrow> decls \<Rightarrow> str \<Rightarrow> field list \<Rightarrow> sval option list \<Rightarrow> (str \<times> json) list" where
  "members_json skips D p fs ms = concat (map (\<lambda>(f, m). case m of
       None \<Rightarrow> if skips p f then [] else [(fd_name f, JNull)]
     | Some v \<Rightarrow> [(fd_name f, schema_json skips D (fd_type f) v)]) (zip fs ms))"

lemma member_json_in:
  "(k, j) \<in> set (case m of None \<Rightarrow> if skips p f then [] else [(fd_name f, JNull)]
     | Some v \<Rightarrow> [(fd_name f, schema_json skips D (fd_type f) v)]) \<longleftrightarrow>
   k = fd_name f \<and> (case m of None \<Rightarrow> \<not> skips p f \<and> j = JNull | Some v \<Rightarrow> j = schema_json skips D (fd_type f) v)"
  by (cases m) auto

lemma members_json_in:
  "(k, j) \<in> set (members_json skips D p fs ms) \<longleftrightarrow>
     (\<exists>(f, m)\<in>set (zip fs ms). k = fd_name f \<and>
        (case m of None \<Rightarrow> \<not> skips p f \<and> j = JNull | Some v \<Rightarrow> j = schema_json skips D (fd_type f) v))"
  unfolding members_json_def by (induction "zip fs ms" arbitrary: fs ms) (auto simp: member_json_in)

lemma same_field:
  assumes "distinct (map fd_name fs)" and "(f, m) \<in> set (zip fs ms)" and "(f', m') \<in> set (zip fs ms)" and "fd_name f = fd_name f'"
  shows "f = f' \<and> m = m'"
proof -
  from assms(2,3) obtain i i' where "i < length fs" "i < length ms" "f = fs ! i" "m = ms ! i"
    "i' < length fs" "i' < length ms" "f' = fs ! i'" "m' = ms ! i'" by (auto simp: in_set_zip)
  moreover from this assms(1,4) have "i = i'" by (auto simp: distinct_conv_nth)
  ultimately show ?thesis by simp
qed

text \<open>The value of a struct, one field after the other.\<close>

lemma accepted_struct:
  assumes cs: "components_for D cs" and dt: "map_of D p = Some dt" and reg: "registers cs (schema D (RData p))"
    and len: "length ms = length (dt_fields dt)"
    and ok: "\<And>f m. (f, m) \<in> set (zip (dt_fields dt) ms) \<Longrightarrow> m = None \<Longrightarrow> fd_optional f"
    and ih: "\<And>f v. (f, Some v) \<in> set (zip (dt_fields dt) ms) \<Longrightarrow>
      accepts cs (schema D (fd_type f)) (schema_json skips D (fd_type f) v) \<longleftrightarrow> no_nulls skips D (fd_type f) v"
  shows "accepts cs (schema D (RData p)) (JObject (members_json skips D p (dt_fields dt) ms)) \<longleftrightarrow>
    list_all (\<lambda>(f, m). case m of None \<Rightarrow> skips p f | Some v \<Rightarrow> no_nulls skips D (fd_type f) v) (zip (dt_fields dt) ms)"
proof -
  let ?kvs = "members_json skips D p (dt_fields dt) ms" and ?fs = "dt_fields dt"
  have dist: "distinct (map fd_name ?fs)" using cs dt by (auto simp: components_for_def names_ok_def ran_def)
  have null: "\<not> accepts cs (schema D (fd_type f)) JNull" if "f \<in> set ?fs" for f
    using null_refused [OF cs] registers_field [OF cs dt reg that] by blast
  have field: "f \<in> set ?fs" if "(f, m) \<in> set (zip ?fs ms)" for f m using that by (rule set_zip_leftD)
  have keys: "fst kv \<in> fd_name ` set ?fs" if "kv \<in> set ?kvs" for kv
  proof -
    obtain k j where "kv = (k, j)" by fastforce
    with that field show ?thesis by (auto simp: members_json_in)
  qed
  have req: "set (required_fields dt) \<subseteq> fst ` set ?kvs"
  proof
    fix k assume "k \<in> set (required_fields dt)"
    then obtain f where f: "f \<in> set ?fs" "\<not> fd_optional f" "k = fd_name f" by (auto simp: required_fields_def)
    then obtain m where m: "(f, m) \<in> set (zip ?fs ms)" using len by (metis in_set_impl_in_set_zip1)
    with ok f(2) obtain v where "m = Some v" by (cases m) auto
    with m f(3) have "(k, schema_json skips D (fd_type f) v) \<in> set ?kvs" unfolding members_json_in by force
    then show "k \<in> fst ` set ?kvs" by force
  qed
  have each: "(\<forall>j. (fd_name f, j) \<in> set ?kvs \<longrightarrow> accepts cs (schema D (fd_type f)) j) \<longleftrightarrow>
      (case m of None \<Rightarrow> skips p f | Some v \<Rightarrow> no_nulls skips D (fd_type f) v)" if fm: "(f, m) \<in> set (zip ?fs ms)" for f m
  proof -
    let ?Q = "\<lambda>f m j. case m of None \<Rightarrow> \<not> skips p f \<and> j = JNull | Some v \<Rightarrow> j = schema_json skips D (fd_type f) v"
    have "(fd_name f, j) \<in> set ?kvs \<longleftrightarrow> ?Q f m j" for j
    proof
      assume "(fd_name f, j) \<in> set ?kvs"
      then obtain f' m' where f': "(f', m') \<in> set (zip ?fs ms)" "fd_name f = fd_name f'" "?Q f' m' j"
        unfolding members_json_in by blast
      from same_field [OF dist fm f'(1,2)] have same: "f' = f" "m' = m" by simp_all
      from f'(3) show "?Q f m j" unfolding same .
    next
      assume "?Q f m j"
      with fm show "(fd_name f, j) \<in> set ?kvs" unfolding members_json_in by blast
    qed
    then show ?thesis using ih fm null [OF field [OF fm]] by (cases m) auto
  qed
  have "(\<forall>f\<in>set ?fs. \<forall>j. (fd_name f, j) \<in> set ?kvs \<longrightarrow> accepts cs (schema D (fd_type f)) j) \<longleftrightarrow>
      (\<forall>(f, m)\<in>set (zip ?fs ms). \<forall>j. (fd_name f, j) \<in> set ?kvs \<longrightarrow> accepts cs (schema D (fd_type f)) j)"
    using field len in_set_impl_in_set_zip1 [of ?fs ms] by fastforce
  also have "\<dots> \<longleftrightarrow> list_all (\<lambda>(f, m). case m of None \<Rightarrow> skips p f | Some v \<Rightarrow> no_nulls skips D (fd_type f) v) (zip ?fs ms)"
    unfolding list_all_iff by (rule ball_cong [OF refl]) (use each in auto)
  finally show ?thesis using accepts_struct(1) [OF cs dt reg keys] req by blast
qed

lemma accepted_iff:
  "components_for D cs \<Longrightarrow> sval_ok D t v \<Longrightarrow> declared D t \<Longrightarrow> registers cs (schema D t) \<Longrightarrow>
    accepts cs (schema D t) (schema_json skips D t v) \<longleftrightarrow> no_nulls skips D t v"
proof (induction D t v rule: sval_ok.induct)
  case (4 D t vs)
  have "declared D t" "registers cs (schema D t)" using 4 registers_items by (auto simp: declared_vec simp del: schema.simps)
  with 4 show ?case
    by (auto simp: accepts_vec_schema list_all_iff simp del: vec_schema_def)
next
  case (5 D p ms)
  from 5(3) obtain dt where dt: "map_of D p = Some dt" and len: "length ms = length (dt_fields dt)"
    and ok: "\<forall>(f, m)\<in>set (zip (dt_fields dt) ms). case m of None \<Rightarrow> fd_optional f | Some v \<Rightarrow> sval_ok D (fd_type f) v"
    by (auto simp: list_all_iff split: option.splits)
  have reg: "declared D (fd_type f) \<and> registers cs (schema D (fd_type f))" if "f \<in> set (dt_fields dt)" for f
    using registers_field [OF 5(2) dt 5(5) that] .
  have "accepts cs (schema D (fd_type f)) (schema_json skips D (fd_type f) v) \<longleftrightarrow> no_nulls skips D (fd_type f) v"
    if fm: "(f, Some v) \<in> set (zip (dt_fields dt) ms)" for f v
    using 5(1) [OF dt fm refl refl 5(2)] reg [OF set_zip_leftD [OF fm]] ok fm by fastforce
  with accepted_struct [OF 5(2) dt 5(5) len] ok show ?case
    by (fastforce simp: dt members_json_def)
qed simp_all

subsection \<open>Serde's attributes\<close>

text \<open>The arguments of the \<open>#[serde(..)]\<close> attributes, and the strings given to one of the keys.\<close>

definition serde_metas :: "attribute \<Rightarrow> meta list" where
  "serde_metas a = (case a of AttrList p ts \<Rightarrow> if p = [lit ''serde''] then fst ts else [] | _ \<Rightarrow> [])"

definition meta_settings :: "str \<Rightarrow> meta list \<Rightarrow> str list" where
  "meta_settings key ms = concat (map (\<lambda>m. case m of MetaNameValue p (ExprStr s) \<Rightarrow> if p = [key] then [s] else [] | _ \<Rightarrow> []) ms)"

definition settings :: "str \<Rightarrow> attribute list \<Rightarrow> str list" where
  "settings key attrs = concat (map (\<lambda>a. meta_settings key (serde_metas a)) attrs)"

text \<open>Only the given keys are used, each at most once (serde refuses a second one), and with a string.\<close>

definition plain_meta :: "str list \<Rightarrow> meta \<Rightarrow> bool" where
  "plain_meta keys m \<longleftrightarrow> (case m of MetaNameValue p (ExprStr s) \<Rightarrow> list_ex (\<lambda>k. p = [k]) keys | _ \<Rightarrow> False)"

definition plain_attribute :: "str list \<Rightarrow> attribute \<Rightarrow> bool" where
  "plain_attribute keys a \<longleftrightarrow> (attr_path a = [lit ''serde''] \<longrightarrow>
     (case a of AttrList p (ms, None) \<Rightarrow> list_all (plain_meta keys) ms | _ \<Rightarrow> False))"

definition plain_attrs :: "str list \<Rightarrow> attribute list \<Rightarrow> bool" where
  "plain_attrs keys attrs \<longleftrightarrow> list_all (plain_attribute keys) attrs \<and> list_all (\<lambda>k. length (settings k attrs) \<le> 1) keys"

text \<open>\<open>Option<T>\<close>, and the type of a field's value.\<close>

fun option_of :: "ty \<Rightarrow> ty option" where
  "option_of (TyPath [Segment i (AngleBracketed [GenericType t])]) = (if i = lit ''Option'' then Some t else None)"
| "option_of t = None"

definition value_ty :: "ty \<Rightarrow> ty" where
  "value_ty t = (case option_of t of Some t' \<Rightarrow> t' | None \<Rightarrow> t)"

definition plain_ty :: "ty \<Rightarrow> bool" where
  "plain_ty t \<longleftrightarrow> option_of t \<noteq> None
     \<or> (case t of TyPath segs \<Rightarrow> segs = [] \<or> seg_ident (last segs) \<noteq> lit ''Option'' | _ \<Rightarrow> True)"

definition omits_none :: "struct_field \<Rightarrow> bool" where
  "omits_none f \<longleftrightarrow> settings (lit ''skip_serializing_if'') (sf_attrs f) \<noteq> []"

text \<open>A field with no serde attributes but \<open>rename = ".."\<close> and \<open>skip_serializing_if = "Option::is_none"\<close>.\<close>

definition plain_field :: "struct_field \<Rightarrow> bool" where
  "plain_field f \<longleftrightarrow> plain_attrs [lit ''rename'', lit ''skip_serializing_if''] (sf_attrs f)
     \<and> list_all (\<lambda>s. s = lit ''Option::is_none'') (settings (lit ''skip_serializing_if'') (sf_attrs f))
     \<and> plain_ty (sf_ty f) \<and> (settings (lit ''rename'') (sf_attrs f) = [] \<longrightarrow> take 2 (sf_ident f) \<noteq> lit ''r#'')"

text \<open>
  What serde's derive writes for a field of a struct, from the attributes of the struct, the field and the JSON of
  its value (\<open>None\<close> for an optional field without a value), and serde's case rules for
  \<open>rename_all\<close>. This is the crate \<open>serde_derive\<close>, of which only what its documentation says is used: a
  plain field is one member, named by \<open>rename\<close>, else by the rule of \<open>rename_all\<close> applied to the identifier, else
  by the identifier; a \<open>None\<close> is \<open>null\<close>, or no member with \<open>skip_serializing_if = "Option::is_none"\<close>.
\<close>

record serde =
  se_member :: "attribute list \<Rightarrow> struct_field \<Rightarrow> json option \<Rightarrow> (str \<times> json) list"
  se_case :: "str \<Rightarrow> str \<Rightarrow> str"

definition member_name :: "(str \<Rightarrow> str \<Rightarrow> str) \<Rightarrow> attribute list \<Rightarrow> struct_field \<Rightarrow> str" where
  "member_name rule attrs f = (case settings (lit ''rename'') (sf_attrs f) of
     n # _ \<Rightarrow> n
   | [] \<Rightarrow> (case settings (lit ''rename_all'') attrs of r # _ \<Rightarrow> rule r (sf_ident f) | [] \<Rightarrow> sf_ident f))"

definition serde_documented :: "serde \<Rightarrow> bool" where
  "serde_documented N \<longleftrightarrow> (\<forall>attrs f m. plain_attrs [lit ''rename_all''] attrs \<and> plain_field f \<longrightarrow>
     se_member N attrs f m = (case m of
         Some j \<Rightarrow> [(member_name (se_case N) attrs f, j)]
       | None \<Rightarrow> if omits_none f then [] else [(member_name (se_case N) attrs f, JNull)]))"

text \<open>Where the name comes from a case rule, serde's rule of that name and the macro's conversion (crate \<open>heck\<close> or the
  standard library) agree on the identifier.\<close>

definition case_rules :: "casing \<Rightarrow> (str \<times> (str \<Rightarrow> str)) list" where
  "case_rules C = [(lit ''camelCase'', cs_lower_camel C), (lit ''PascalCase'', cs_upper_camel C),
     (lit ''UPPERCASE'', cs_uppercase C), (lit ''lowercase'', cs_lowercase C),
     (lit ''SCREAMING_SNAKE_CASE'', cs_shouty_snake C), (lit ''kebab-case'', cs_kebab C), (lit ''snake_case'', id)]"

definition case_agrees :: "casing \<Rightarrow> serde \<Rightarrow> attribute list \<Rightarrow> struct_field \<Rightarrow> bool" where
  "case_agrees C N attrs f \<longleftrightarrow> settings (lit ''rename'') (sf_attrs f) \<noteq> [] \<or>
     list_all (\<lambda>r. case map_of (case_rules C) r of Some g \<Rightarrow> se_case N r (sf_ident f) = g (sf_ident f) | None \<Rightarrow> False)
       (settings (lit ''rename_all'') attrs)"

definition plain_struct :: "casing \<Rightarrow> serde \<Rightarrow> derive_input \<Rightarrow> bool" where
  "plain_struct C N di \<longleftrightarrow> plain_attrs [lit ''rename_all''] (di_attrs di) \<and> (case di_data di of
     DataStruct (FieldsNamed fs) \<Rightarrow> list_all (\<lambda>f. plain_field f \<and> case_agrees C N (di_attrs di) f) fs
   | _ \<Rightarrow> False)"

subsection \<open>The macro reads the names serde writes\<close>

lemma nested_value_settings:
  "list_all (plain_meta keys) ms \<Longrightarrow> nested_value key ms found =
     (if meta_settings key ms = [] then found else Some (last (meta_settings key ms)))"
  by (induction key ms found rule: nested_value.induct)
    (auto simp: plain_meta_def meta_settings_def is_ident_def split: expr.splits)

lemma serde_string_value_settings:
  "list_all (plain_attribute keys) attrs \<Longrightarrow> length (settings key attrs) \<le> 1 \<Longrightarrow>
     serde_string_value attrs key = (case settings key attrs of [] \<Rightarrow> None | s # _ \<Rightarrow> Some s)"
proof (induction attrs)
  case (Cons a attrs)
  have split: "settings key (a # attrs) = meta_settings key (serde_metas a) @ settings key attrs"
    by (simp add: settings_def)
  show ?case
  proof (cases "attr_path a = [lit ''serde'']")
    case False
    then have "meta_settings key (serde_metas a) = []" by (cases a) (auto simp: serde_metas_def meta_settings_def)
    with False split Cons show ?thesis by (simp add: is_ident_def)
  next
    case True
    with Cons.prems obtain p ms where a: "a = AttrList p (ms, None)" "p = [lit ''serde'']" and ms: "list_all (plain_meta keys) ms"
      by (cases a) (auto simp: plain_attribute_def split: prod.splits option.splits)
    then have "serde_metas a = ms" by (simp add: serde_metas_def)
    with split Cons nested_value_settings [OF ms, of key None] a show ?thesis
      by (cases "meta_settings key ms") (auto simp: is_ident_def Let_def)
  qed
qed (simp add: settings_def)

lemma apply_rename_all_rule:
  "map_of (case_rules C) r = Some g \<Longrightarrow> apply_rename_all C s (Some r) = g s"
  by (auto simp: case_rules_def apply_rename_all_def split: if_splits)

lemma json_name_serde:
  assumes "plain_attrs [lit ''rename_all''] attrs" and "plain_field f" and "case_agrees C N attrs f"
  shows "json_name C (serde_rename_all attrs) f = member_name (se_case N) attrs f"
proof -
  have "serde_rename_all attrs = (case settings (lit ''rename_all'') attrs of [] \<Rightarrow> None | s # _ \<Rightarrow> Some s)"
    using assms(1) serde_string_value_settings unfolding serde_rename_all_def plain_attrs_def by fastforce
  moreover have "serde_rename (sf_attrs f) = (case settings (lit ''rename'') (sf_attrs f) of [] \<Rightarrow> None | s # _ \<Rightarrow> Some s)"
    using assms(2) serde_string_value_settings unfolding serde_rename_def plain_field_def plain_attrs_def by fastforce
  ultimately show ?thesis using assms(3) apply_rename_all_rule
    by (auto simp: json_name_def member_name_def case_agrees_def apply_rename_all_def [of _ _ None] split: list.splits option.splits)
qed

lemma unwrap_plain: "plain_ty t \<Longrightarrow> unwrap_option t = (value_ty t, option_of t \<noteq> None)"
  by (cases t rule: option_of.cases) (auto simp: plain_ty_def value_ty_def unwrap_option_def split: if_splits)

subsection \<open>Values of the structs and the JSON serde writes\<close>

type_synonym structs = "(str \<times> derive_input) list"

text \<open>The attributes and the fields of a struct.\<close>

definition struct_fields :: "structs \<Rightarrow> str \<Rightarrow> (attribute list \<times> struct_field list) option" where
  "struct_fields S p = (case map_of S p of
     Some di \<Rightarrow> (case di_data di of DataStruct (FieldsNamed fs) \<Rightarrow> Some (di_attrs di, fs) | _ \<Rightarrow> None)
   | None \<Rightarrow> None)"

text \<open>The values of a type; only an \<open>Option\<close> can be \<open>None\<close>.\<close>

function (sequential) value_ok :: "(ty \<Rightarrow> rty) \<Rightarrow> structs \<Rightarrow> rty \<Rightarrow> sval \<Rightarrow> bool" where
  "value_ok rt S RString (SString s) = True"
| "value_ok rt S RBool (SBool b) = True"
| "value_ok rt S (RInt t) (SInt i) = (int_ty_min t \<le> i \<and> i \<le> int_ty_max t)"
| "value_ok rt S (RVec t) (SVec vs) = list_all (value_ok rt S t) vs"
| "value_ok rt S (RData p) (SStruct ms) = (case struct_fields S p of
     None \<Rightarrow> False
   | Some (attrs, fs) \<Rightarrow> length ms = length fs \<and> list_all (\<lambda>(f, m). case m of
         None \<Rightarrow> option_of (sf_ty f) \<noteq> None
       | Some v \<Rightarrow> value_ok rt S (rt (value_ty (sf_ty f))) v) (zip fs ms))"
| "value_ok rt S t v = False"
  by pat_completeness auto
termination
  by (relation "measure (\<lambda>(rt, S, t, v). size v)") (auto dest: field_size size_list_estimation' [where f = size] intro: le_imp_less_Suc)

function (sequential) value_json :: "serde \<Rightarrow> (ty \<Rightarrow> rty) \<Rightarrow> structs \<Rightarrow> rty \<Rightarrow> sval \<Rightarrow> json" where
  "value_json N rt S t (SString s) = JString s"
| "value_json N rt S t (SBool b) = JBool b"
| "value_json N rt S t (SInt i) = JNumber i"
| "value_json N rt S (RVec t) (SVec vs) = JArray (map (value_json N rt S t) vs)"
| "value_json N rt S (RData p) (SStruct ms) = (case struct_fields S p of
     None \<Rightarrow> JNull
   | Some (attrs, fs) \<Rightarrow> JObject (concat (map (\<lambda>(f, m). case m of
         None \<Rightarrow> se_member N attrs f None
       | Some v \<Rightarrow> se_member N attrs f (Some (value_json N rt S (rt (value_ty (sf_ty f))) v))) (zip fs ms))))"
| "value_json N rt S t v = JNull"
  by pat_completeness auto
termination
  by (relation "measure (\<lambda>(N, rt, S, t, v). size v)") (auto dest: field_size size_list_estimation' [where f = size] intro: le_imp_less_Suc)

text \<open>Every field without a value, at any depth, is one that serde leaves out.\<close>

function (sequential) nulls_omitted :: "(ty \<Rightarrow> rty) \<Rightarrow> structs \<Rightarrow> rty \<Rightarrow> sval \<Rightarrow> bool" where
  "nulls_omitted rt S (RVec t) (SVec vs) = list_all (nulls_omitted rt S t) vs"
| "nulls_omitted rt S (RData p) (SStruct ms) = (case struct_fields S p of
     None \<Rightarrow> True
   | Some (attrs, fs) \<Rightarrow> list_all (\<lambda>(f, m). case m of
         None \<Rightarrow> omits_none f
       | Some v \<Rightarrow> nulls_omitted rt S (rt (value_ty (sf_ty f))) v) (zip fs ms))"
| "nulls_omitted rt S t v = True"
  by pat_completeness auto
termination
  by (relation "measure (\<lambda>(rt, S, t, v). size v)") (auto dest: field_size size_list_estimation' [where f = size] intro: le_imp_less_Suc)

text \<open>The data types the derive macro makes of the structs.\<close>

definition derived :: "casing \<Rightarrow> (ty \<Rightarrow> rty) \<Rightarrow> structs \<Rightarrow> decls \<Rightarrow> bool" where
  "derived C rt S D \<longleftrightarrow> list_all2 (\<lambda>(p, di) (q, dt). p = q \<and> derive_data_type C rt di = Inr dt) S D"

definition skips_of :: "casing \<Rightarrow> structs \<Rightarrow> skip_rule" where
  "skips_of C S p f = (case struct_fields S p of
     None \<Rightarrow> False
   | Some (attrs, fs) \<Rightarrow> list_ex (\<lambda>sf. json_name C (serde_rename_all attrs) sf = fd_name f \<and> omits_none sf) fs)"

lemma derived_struct:
  assumes "derived C rt S D" and "list_all (\<lambda>(p, di). plain_struct C N di) S" and "struct_fields S p = Some (attrs, fs)"
  shows "\<exists>dt. map_of D p = Some dt \<and> dt_fields dt = map (derive_field C rt (serde_rename_all attrs)) fs
    \<and> plain_attrs [lit ''rename_all''] attrs \<and> list_all (\<lambda>f. plain_field f \<and> case_agrees C N attrs f) fs"
  using assms unfolding derived_def
proof (induction S D rule: list_all2_induct)
  case (Cons pdi S qdt D)
  then show ?case
    by (cases pdi, cases qdt) (auto simp: struct_fields_def derive_data_type_def plain_struct_def
        split: if_splits data.splits fields.splits)
qed (simp add: struct_fields_def)

lemma derive_plain_field:
  assumes "plain_attrs [lit ''rename_all''] attrs" and "plain_field f" and "case_agrees C N attrs f"
  shows "fd_name (derive_field C rt (serde_rename_all attrs) f) = member_name (se_case N) attrs f"
    "fd_type (derive_field C rt (serde_rename_all attrs) f) = rt (value_ty (sf_ty f))"
    "fd_optional (derive_field C rt (serde_rename_all attrs) f) \<longleftrightarrow> option_of (sf_ty f) \<noteq> None"
  using json_name_serde [OF assms] assms(2) by (simp_all add: derive_field_def unwrap_plain plain_field_def)

lemma skips_of_field:
  assumes "struct_fields S p = Some (attrs, fs)" and "f \<in> set fs"
    and "distinct (map fd_name (map (derive_field C rt (serde_rename_all attrs)) fs))"
  shows "skips_of C S p (derive_field C rt (serde_rename_all attrs) f) = omits_none f"
proof -
  have name: "fd_name (derive_field C rt (serde_rename_all attrs) g) = json_name C (serde_rename_all attrs) g" for g
    by (simp add: derive_field_def case_prod_unfold Let_def)
  have "g = f" if "g \<in> set fs" "json_name C (serde_rename_all attrs) g = json_name C (serde_rename_all attrs) f" for g
    using assms(2,3) that by (auto simp: distinct_map name o_def inj_on_def)
  with assms(1,2) show ?thesis by (auto simp: skips_of_def list_ex_iff name)
qed

text \<open>For plain structs, what serde writes is the tree under the schema's names.\<close>

lemma value_as_schema:
  "derived C rt S D \<Longrightarrow> list_all (\<lambda>(p, di). plain_struct C N di) S \<Longrightarrow> names_ok D \<Longrightarrow> serde_documented N \<Longrightarrow>
    value_ok rt S t v \<Longrightarrow> sval_ok D t v \<and> value_json N rt S t v = schema_json (skips_of C S) D t v
      \<and> nulls_omitted rt S t v = no_nulls (skips_of C S) D t v"
proof (induction rt S t v rule: value_ok.induct)
  case (4 rt S t vs)
  then show ?case by (auto simp: list_all_iff)
next
  case (5 rt S p ms)
  note plain = 5(2,3)
  from 5(6) obtain attrs fs where fs: "struct_fields S p = Some (attrs, fs)" and len: "length ms = length fs"
    and ok: "\<forall>(f, m)\<in>set (zip fs ms). case m of None \<Rightarrow> option_of (sf_ty f) \<noteq> None | Some v \<Rightarrow> value_ok rt S (rt (value_ty (sf_ty f))) v"
    by (auto simp: list_all_iff split: option.splits)
  let ?g = "derive_field C rt (serde_rename_all attrs)"
  from derived_struct [OF plain fs] obtain dt where dt: "map_of D p = Some dt" "dt_fields dt = map ?g fs"
    and attrs: "plain_attrs [lit ''rename_all''] attrs" and each: "\<forall>f\<in>set fs. plain_field f \<and> case_agrees C N attrs f"
    by (auto simp: list_all_iff)
  have "distinct (map fd_name (map ?g fs))" using 5(4) dt by (auto simp: names_ok_def ran_def)
  note skip = skips_of_field [OF fs _ this]
  have ih: "sval_ok D (rt (value_ty (sf_ty f))) v
      \<and> value_json N rt S (rt (value_ty (sf_ty f))) v = schema_json (skips_of C S) D (rt (value_ty (sf_ty f))) v
      \<and> nulls_omitted rt S (rt (value_ty (sf_ty f))) v = no_nulls (skips_of C S) D (rt (value_ty (sf_ty f))) v"
    if "(f, Some v) \<in> set (zip fs ms)" for f v
    using 5(1) [OF fs refl that refl refl plain 5(4,5)] ok that by fastforce
  have field: "fd_name (?g f) = member_name (se_case N) attrs f" "fd_type (?g f) = rt (value_ty (sf_ty f))"
      "fd_optional (?g f) \<longleftrightarrow> option_of (sf_ty f) \<noteq> None" "skips_of C S p (?g f) = omits_none f"
      "se_member N attrs f m = (case m of Some j \<Rightarrow> [(member_name (se_case N) attrs f, j)]
         | None \<Rightarrow> if omits_none f then [] else [(member_name (se_case N) attrs f, JNull)])"
    if "(f, m') \<in> set (zip fs ms)" for f m m'
  proof -
    from that have f: "f \<in> set fs" by (rule set_zip_leftD)
    with each have p: "plain_field f" "case_agrees C N attrs f" by auto
    from derive_plain_field [OF attrs p] skip [OF f] 5(5) attrs p(1) show "fd_name (?g f) = member_name (se_case N) attrs f"
      "fd_type (?g f) = rt (value_ty (sf_ty f))" "fd_optional (?g f) \<longleftrightarrow> option_of (sf_ty f) \<noteq> None"
      "skips_of C S p (?g f) = omits_none f" "se_member N attrs f m = (case m of Some j \<Rightarrow> [(member_name (se_case N) attrs f, j)]
         | None \<Rightarrow> if omits_none f then [] else [(member_name (se_case N) attrs f, JNull)])"
      by (simp_all add: serde_documented_def)
  qed
  have "sval_ok D (RData p) (SStruct ms)"
    using len ok ih field by (fastforce simp: dt zip_map1 list_all_iff split: option.splits)
  moreover have "value_json N rt S (RData p) (SStruct ms) = schema_json (skips_of C S) D (RData p) (SStruct ms)"
    using ih field by (auto simp: fs dt zip_map1 case_prod_unfold o_def intro!: arg_cong [where f = concat] map_cong split: option.split)
  moreover have "nulls_omitted rt S (RData p) (SStruct ms) = no_nulls (skips_of C S) D (RData p) (SStruct ms)"
    using ih field by (fastforce simp: fs dt zip_map1 list_all_iff split: option.splits)
  ultimately show ?case by blast
qed simp_all

subsection \<open>Property\<close>

text \<open>C17. What a published schema accepts: in a contract whose structs have no serde attributes but \<open>rename\<close>,
  \<open>rename_all\<close> (with a rule on which serde and the macro agree for the identifiers it is applied to) and
  \<open>skip_serializing_if = "Option::is_none"\<close>, take any parameter or result type of a transaction and any value of
  it. The JSON that serde writes, under the names serde gives the members, is accepted by the schema that the
  derive macro and the contract macro publish in the metadata (its references looked up in the document's own components)
  exactly when every field that is \<open>None\<close>, at any depth, is one that serde leaves out.\<close>

theorem published_schemas_accept_values:
  assumes "gen_metadata C rt D v ex = Some md" and "decls_ok D" and "names_ok D"
    and "\<And>tx t. tx \<in> set (ex_txs ex) \<Longrightarrow> t \<in> set (tx_types tx) \<Longrightarrow> declared D (rt t)"
    and "derived C rt S D" and "list_all (\<lambda>(p, di). plain_struct C N di) S" and "serde_documented N"
    and "tx \<in> set (ex_txs ex)" and "t \<in> set (tx_types tx)" and "value_ok rt S (rt t) val"
  shows "accepts (comp_schemas (md_components md)) (schema D (rt t)) (value_json N rt S (rt t) val)
    \<longleftrightarrow> nulls_omitted rt S (rt t) val"
proof -
  let ?cs = "comp_schemas (md_components md)"
  from value_as_schema [OF assms(5,6,3,7,10)] have val: "sval_ok D (rt t) val"
    "value_json N rt S (rt t) val = schema_json (skips_of C S) D (rt t) val"
    "nulls_omitted rt S (rt t) val = no_nulls (skips_of C S) D (rt t) val" by simp_all
  have "well_registered D ?cs" using assms(1,2,4) by (rule gen_metadata_registers(1))
  moreover have "\<forall>j\<in>snd ` set ?cs. registers ?cs j" using assms(1,2,4) by (rule gen_metadata_registers(2))
  ultimately have cs: "components_for D ?cs" using assms(2,3) by (simp add: components_for_def)
  have reg: "registers ?cs (schema D (rt t))"
    by (rule gen_metadata_registers(3) [where C = C and v = v and ex = ex]) (use assms in blast)+
  from accepted_iff [OF cs val(1) assms(4) [OF assms(8,9)] reg] show ?thesis unfolding val .
qed

text \<open>A serde for the witness: the documented names and nothing else.\<close>

definition plain_serde :: serde where
  "plain_serde = \<lparr>se_member = (\<lambda>attrs f m. case m of
       Some j \<Rightarrow> [(member_name (\<lambda>r s. s) attrs f, j)]
     | None \<Rightarrow> if omits_none f then [] else [(member_name (\<lambda>r s. s) attrs f, JNull)]), se_case = (\<lambda>r s. s)\<rparr>"

lemma plain_serde_documented: "serde_documented plain_serde"
  by (auto simp: serde_documented_def plain_serde_def split: option.split)

lemmas plain_struct_simps = plain_struct_def plain_attrs_def plain_attribute_def plain_meta_def plain_field_def plain_ty_def
  settings_def meta_settings_def serde_metas_def case_agrees_def case_rules_def

end
