(* ===== verification/Mock_Peer.thy ===== *)
theory Mock_Peer imports Handler Wire Btree_Map
begin

section \<open>The test peer, and the shim against it\<close>

text \<open>
  \<open>fabric-shim/tests/mock_peer.rs\<close>: the in-process peer of the integration tests, which
  serves ledger requests from ordered maps and pages query results. It is the reference
  environment here: the stub's methods, run against it through \<open>PeerLink::request\<close>, are
  shown to implement an abstract ledger, and queries to return the whole range whatever the
  page size. \<open>None\<close> is a panic of the peer (an \<open>unwrap\<close> or an unknown request).
\<close>

subsection \<open>The peer\<close>

record mock_peer =
  mp_state :: "(str, bytes) btree"
  mp_private :: "(str \<times> str, bytes) btree"
  mp_iterators :: "str \<Rightarrow> bytes list option"
  mp_next_iter :: nat
  mp_range_batch :: nat
  mp_next_calls :: nat
  mp_close_calls :: nat

definition unwrap_or_default :: "bytes option \<Rightarrow> bytes" where
  "unwrap_or_default v = (case v of None \<Rightarrow> [] | Some b \<Rightarrow> b)"

definition unwrap :: "str + 'a \<Rightarrow> 'a option" where
  "unwrap r = (case r of Inl _ \<Rightarrow> None | Inr a \<Rightarrow> Some a)"

definition in_range :: "str \<Rightarrow> str \<Rightarrow> str \<Rightarrow> bool" where
  "in_range start_key end_key k \<longleftrightarrow> (start_key = [] \<or> start_key \<le> k) \<and> (end_key = [] \<or> k < end_key)"

definition query_response_batch :: "prost \<Rightarrow> str \<Rightarrow> bytes list \<Rightarrow> mock_peer \<Rightarrow> bytes \<times> mock_peer" where
  "query_response_batch P iter_id results mp =
     (let n = min (length results) (mp_range_batch mp);
          batch = map (\<lambda>b. \<lparr>qrb_result_bytes = b\<rparr>) (take n results);
          results = drop n results;
          has_more = (results \<noteq> []);
          mp = (if has_more then mp\<lparr>mp_iterators := (mp_iterators mp)(iter_id \<mapsto> results)\<rparr> else mp) in
      (encode (c_query_response P)
         \<lparr>qr_results = batch, qr_has_more = has_more, qr_id = iter_id, qr_metadata = []\<rparr>, mp))"

definition encode_kv :: "prost \<Rightarrow> str \<Rightarrow> bytes \<Rightarrow> bytes" where
  "encode_kv P k v = encode (c_kv P) \<lparr>kv_namespace = lit ''testcc'', kv_key = k, kv_value = v\<rparr>"

definition serve_request :: "prost \<Rightarrow> mock_peer \<Rightarrow> chaincode_message \<Rightarrow> (bytes \<times> mock_peer) option" where
  "serve_request P mp msg = (case cm_kind msg of
     MT_GetState \<Rightarrow> map_option (\<lambda>req.
         (unwrap_or_default (if gs_collection req = [] then map_of (mp_state mp) (gs_key req)
            else map_of (mp_private mp) (gs_collection req, gs_key req)), mp))
       (unwrap (decode (c_get_state P) (cm_payload msg)))
   | MT_GetPrivateDataHash \<Rightarrow> map_option (\<lambda>req.
         (unwrap_or_default (map_of (mp_private mp) (gs_collection req, gs_key req)), mp))
       (unwrap (decode (c_get_state P) (cm_payload msg)))
   | MT_PutState \<Rightarrow> map_option (\<lambda>req. ([],
         if ps_collection req = [] then mp\<lparr>mp_state := bt_insert (ps_key req) (ps_value req) (mp_state mp)\<rparr>
         else mp\<lparr>mp_private := bt_insert (ps_collection req, ps_key req) (ps_value req) (mp_private mp)\<rparr>))
       (unwrap (decode (c_put_state P) (cm_payload msg)))
   | MT_DelState \<Rightarrow> map_option (\<lambda>req. ([],
         if ds_collection req = [] then mp\<lparr>mp_state := bt_remove (ds_key req) (mp_state mp)\<rparr>
         else mp\<lparr>mp_private := bt_remove (ds_collection req, ds_key req) (mp_private mp)\<rparr>))
       (unwrap (decode (c_del_state P) (cm_payload msg)))
   | MT_PurgePrivateData \<Rightarrow> map_option (\<lambda>req. ([],
         mp\<lparr>mp_private := bt_remove (pps_collection req, pps_key req) (mp_private mp)\<rparr>))
       (unwrap (decode (c_purge_private_state P) (cm_payload msg)))
   | MT_GetStateByRange \<Rightarrow> map_option (\<lambda>req.
         let inr = in_range (gsr_start_key req) (gsr_end_key req);
             results = (if gsr_collection req = []
               then map (\<lambda>(k, v). encode_kv P k v) (filter (\<lambda>(k, _). inr k) (mp_state mp))
               else map (\<lambda>((_, k), v). encode_kv P k v)
                      (filter (\<lambda>((c, k), _). c = gsr_collection req \<and> inr k) (mp_private mp)));
             mp = mp\<lparr>mp_next_iter := mp_next_iter mp + 1\<rparr> in
         query_response_batch P (lit ''iter-'' @ show_nat (mp_next_iter mp)) results mp)
       (unwrap (decode (c_get_state_by_range P) (cm_payload msg)))
   | MT_QueryStateNext \<Rightarrow>
       (let mp = mp\<lparr>mp_next_calls := mp_next_calls mp + 1\<rparr> in
        map_option (\<lambda>req.
          let remaining = (case mp_iterators mp (qsn_id req) of None \<Rightarrow> [] | Some r \<Rightarrow> r);
              mp = mp\<lparr>mp_iterators := (mp_iterators mp)(qsn_id req := None)\<rparr> in
          query_response_batch P (qsn_id req) remaining mp)
        (unwrap (decode (c_query_state_next P) (cm_payload msg))))
   | MT_QueryStateClose \<Rightarrow>
       (let mp = mp\<lparr>mp_close_calls := mp_close_calls mp + 1\<rparr> in
        map_option (\<lambda>req. ([], mp\<lparr>mp_iterators := (mp_iterators mp)(qsc_id req := None)\<rparr>))
        (unwrap (decode (c_query_state_close P) (cm_payload msg))))
   | _ \<Rightarrow> None)"

text \<open>\<open>send(MsgType::Response, ..)\<close>: the reply message.\<close>

definition mock_send :: "msg_type \<Rightarrow> bytes \<Rightarrow> str \<Rightarrow> str \<Rightarrow> chaincode_message" where
  "mock_send t payload channel_id txid =
     \<lparr>cm_type = msg_type_i32 t, cm_timestamp = None, cm_payload = payload, cm_txid = txid,
      cm_proposal = None, cm_chaincode_event = None, cm_channel_id = channel_id\<rparr>"

definition mock_serve :: "prost \<Rightarrow> mock_peer \<Rightarrow> chaincode_message \<Rightarrow> (chaincode_message \<times> mock_peer) option" where
  "mock_serve P mp msg = map_option
     (\<lambda>(reply, mp'). (mock_send MT_Response reply (cm_channel_id msg) (cm_txid msg), mp'))
     (serve_request P mp msg)"

text \<open>\<open>start_tx_with_proposal\<close>: the message that starts a transaction.\<close>

definition start_tx :: "prost \<Rightarrow> str \<Rightarrow> str list \<Rightarrow> signed_proposal option \<Rightarrow> chaincode_message" where
  "start_tx P txid args proposal =
     (let input = \<lparr>ci_args = map str_bytes args, ci_decorations = fmempty, ci_is_init = False\<rparr> in
      \<lparr>cm_type = msg_type_i32 MT_Transaction, cm_timestamp = None, cm_payload = encode (c_chaincode_input P) input,
       cm_txid = txid, cm_proposal = proposal, cm_chaincode_event = None, cm_channel_id = lit ''testchannel''\<rparr>)"

abbreviation mock_env :: "prost \<Rightarrow> clock \<Rightarrow> str \<Rightarrow> str \<Rightarrow> mock_peer env" where
  "mock_env P d ch tx \<equiv> link_env (mock_serve P) d ch tx"

subsection \<open>One request\<close>

lemma unwrap_simps [simp]: "unwrap (Inr a) = Some a" "unwrap (Inl e) = None"
  by (simp_all add: unwrap_def)

lemma mock_send_sel [simp]:
  "cm_payload (mock_send t b ch tx) = b" "cm_kind (mock_send t b ch tx) = t"
  by (simp_all add: mock_send_def cm_kind_def)

lemma start_tx_sel [simp]:
  "cm_kind (start_tx P txid args proposal) = MT_Transaction" "cm_txid (start_tx P txid args proposal) = txid"
  "cm_channel_id (start_tx P txid args proposal) = lit ''testchannel''" "cm_proposal (start_tx P txid args proposal) = proposal"
  "cm_payload (start_tx P txid args proposal) = encode (c_chaincode_input P)
     \<lparr>ci_args = map str_bytes args, ci_decorations = fmempty, ci_is_init = False\<rparr>"
  by (simp_all add: start_tx_def cm_kind_def del: msg_type_i32.simps)

lemma mock_env_eq:
  "mock_env P d ch tx mp t b = map_option (\<lambda>(reply, mp'). (Inr (mock_send MT_Response reply ch tx), mp'))
     (serve_request P mp (new_message d t b ch tx))"
  by (cases "serve_request P mp (new_message d t b ch tx)")
    (auto simp: link_env_def mock_serve_def classify_reply_def)

subsection \<open>The abstract ledger\<close>

text \<open>World state and private collections as one map from collection and key to value; the
  empty collection is the world state.\<close>

definition ledger :: "mock_peer \<Rightarrow> str \<Rightarrow> str \<Rightarrow> bytes option" where
  "ledger mp c k = (if c = [] then map_of (mp_state mp) k else map_of (mp_private mp) (c, k))"

definition ledger_upd :: "str \<Rightarrow> str \<Rightarrow> bytes option \<Rightarrow> (str \<Rightarrow> str \<Rightarrow> bytes option) \<Rightarrow> str \<Rightarrow> str \<Rightarrow> bytes option" where
  "ledger_upd c k v l = l(c := (l c)(k := v))"

lemma mock_get:
  assumes "prost_ok P"
  shows "run_io (mock_env P d ch tx) mp ev (get_data P MT_GetState key c)
       = Some (Inr (Inr (unwrap_or_default (ledger mp c key))), mp, ev)"
  using assms by (simp add: mock_env_eq serve_request_def ledger_def)

lemma mock_get_hash:
  assumes "prost_ok P" and "c \<noteq> []"
  shows "run_io (mock_env P d ch tx) mp ev (get_data P MT_GetPrivateDataHash key c)
       = Some (Inr (Inr (unwrap_or_default (ledger mp c key))), mp, ev)"
  using assms by (simp add: mock_env_eq serve_request_def ledger_def)

lemma mock_put:
  assumes "prost_ok P" and "key \<noteq> []"
  shows "\<exists>mp'. run_io (mock_env P d ch tx) mp ev (put_data P c key v) = Some (Inr (Inr ()), mp', ev)
     \<and> ledger mp' = ledger_upd c key (Some v) (ledger mp)"
  using assms
  by (auto simp: mock_env_eq serve_request_def ledger_def ledger_upd_def fun_eq_iff bt.get_insert)

lemma mock_del:
  assumes "prost_ok P"
  shows "\<exists>mp'. run_io (mock_env P d ch tx) mp ev (del_data P c key) = Some (Inr (Inr ()), mp', ev)
     \<and> ledger mp' = ledger_upd c key None (ledger mp)"
  using assms
  by (auto simp: mock_env_eq serve_request_def ledger_def ledger_upd_def fun_eq_iff bt.get_remove)

subsection \<open>Paging\<close>

definition mock_rest :: "mock_peer \<Rightarrow> str \<Rightarrow> bytes list" where
  "mock_rest mp i = (case mp_iterators mp i of None \<Rightarrow> [] | Some r \<Rightarrow> r)"

definition mock_inv :: "mock_peer \<Rightarrow> bool" where
  "mock_inv mp \<longleftrightarrow> 0 < mp_range_batch mp"

text \<open>Paging leaves the ledger alone.\<close>

definition mock_frame :: "mock_peer \<Rightarrow> mock_peer \<Rightarrow> bool" where
  "mock_frame mp mp' \<longleftrightarrow> mp_state mp' = mp_state mp \<and> mp_private mp' = mp_private mp
     \<and> mp_range_batch mp' = mp_range_batch mp"

lemma query_response_batch_page:
  assumes "prost_ok P" and "query_response_batch P i results mp = (b, mp')" and "0 < mp_range_batch mp"
  shows "\<exists>resp. decode (c_query_response P) b = Inr resp \<and> qr_id resp = i \<and> qr_metadata resp = []
    \<and> results = map qrb_result_bytes (qr_results resp) @ (if qr_has_more resp then mock_rest mp' i else [])
    \<and> (qr_has_more resp \<longrightarrow> mock_rest mp' i \<noteq> [])
    \<and> (results \<noteq> [] \<longrightarrow> qr_results resp \<noteq> [])
    \<and> (mp_iterators mp i = None \<longrightarrow> \<not> qr_has_more resp \<longrightarrow> mock_rest mp' i = [])
    \<and> mock_frame mp mp'"
proof -
  let ?n = "min (length results) (mp_range_batch mp)"
  let ?resp = "\<lparr>qr_results = map (\<lambda>b. \<lparr>qrb_result_bytes = b\<rparr>) (take ?n results),
      qr_has_more = (drop ?n results \<noteq> []), qr_id = i, qr_metadata = []\<rparr>"
  have b: "b = encode (c_query_response P) ?resp"
    and mp': "mp' = (if drop ?n results \<noteq> [] then mp\<lparr>mp_iterators := (mp_iterators mp)(i \<mapsto> drop ?n results)\<rparr> else mp)"
    using assms(2) by (simp_all add: query_response_batch_def Let_def)
  have "map qrb_result_bytes (map (\<lambda>b. \<lparr>qrb_result_bytes = b\<rparr>) (take ?n results)) = take ?n results"
    by (simp add: o_def)
  moreover have "take ?n results @ drop ?n results = results" by (rule append_take_drop_id)
  moreover have "results \<noteq> [] \<longrightarrow> take ?n results \<noteq> []" using assms(3) by simp
  ultimately show ?thesis
    using assms(1) b mp'
    by (intro exI [of _ ?resp]) (cases "drop ?n results = []"; simp add: mock_rest_def mock_frame_def)
qed

lemma mock_paging:
  assumes "prost_ok P"
  shows "paging_peer P (mock_env P d ch tx) mock_rest mock_inv mock_frame"
proof
  show "mock_frame p p" for p by (simp add: mock_frame_def)
  show "mock_frame p q \<Longrightarrow> mock_frame q r \<Longrightarrow> mock_frame p r" for p q r by (simp add: mock_frame_def)
next
  fix p i assume inv: "mock_inv p" and rest: "mock_rest p i \<noteq> []"
  let ?p = "p\<lparr>mp_next_calls := mp_next_calls p + 1, mp_iterators := (mp_iterators p)(i := None)\<rparr>"
  obtain b p' where q: "query_response_batch P i (mock_rest p i) ?p = (b, p')" by fastforce
  have env: "mock_env P d ch tx p MT_QueryStateNext (encode (c_query_state_next P) \<lparr>qsn_id = i\<rparr>)
      = Some (Inr (mock_send MT_Response b ch tx), p')"
    using assms q by (simp add: mock_env_eq serve_request_def Let_def mock_rest_def)
  have "mock_frame p ?p" by (simp add: mock_frame_def)
  with query_response_batch_page [OF assms q] inv rest env
  show "\<exists>reply p' resp.
       mock_env P d ch tx p MT_QueryStateNext (encode (c_query_state_next P) \<lparr>qsn_id = i\<rparr>) = Some (Inr reply, p')
     \<and> decode (c_query_response P) (cm_payload reply) = Inr resp
     \<and> mock_rest p i = map qrb_result_bytes (qr_results resp) @ mock_rest p' i
     \<and> qr_results resp \<noteq> [] \<and> (qr_has_more resp \<longleftrightarrow> mock_rest p' i \<noteq> [])
     \<and> mock_inv p' \<and> mock_frame p p'"
    by (intro exI [of _ "mock_send MT_Response b ch tx"] exI [of _ p'])
      (auto simp: mock_inv_def mock_frame_def split: if_splits)
next
  fix p i assume "mock_inv p"
  then show "\<exists>reply p'. mock_env P d ch tx p MT_QueryStateClose (encode (c_query_state_close P) \<lparr>qsc_id = i\<rparr>)
      = Some (Inr reply, p') \<and> mock_inv p' \<and> mock_frame p p'"
    using assms by (simp add: mock_env_eq serve_request_def Let_def mock_inv_def mock_frame_def)
qed

interpretation mock: paging_peer wire_prost "mock_env wire_prost d ch tx" mock_rest mock_inv mock_frame
  for d ch tx by (rule mock_paging [OF wire_prost_ok])

text \<open>The key-value pairs of a range, as the peer returns them.\<close>

definition range_kvs :: "mock_peer \<Rightarrow> str \<Rightarrow> str \<Rightarrow> str \<Rightarrow> (str \<times> bytes) list" where
  "range_kvs mp c s e = (if c = [] then filter (\<lambda>(k, _). in_range s e k) (mp_state mp)
     else map (\<lambda>((_, k), v). (k, v)) (filter (\<lambda>((c', k), _). c' = c \<and> in_range s e k) (mp_private mp)))"

definition test_kv :: "str \<times> bytes \<Rightarrow> kv" where
  "test_kv kv = \<lparr>kv_namespace = lit ''testcc'', kv_key = fst kv, kv_value = snd kv\<rparr>"

lemma serve_range_results:
  "(if c = [] then map (\<lambda>(k, v). encode_kv P k v) (filter (\<lambda>(k, _). in_range s e k) (mp_state mp))
    else map (\<lambda>((_, k), v). encode_kv P k v) (filter (\<lambda>((c', k), _). c' = c \<and> in_range s e k) (mp_private mp)))
   = map (\<lambda>kv. encode (c_kv P) (test_kv kv)) (range_kvs mp c s e)"
  by (auto simp: range_kvs_def test_kv_def encode_kv_def)

lemma mock_range:
  assumes P: "prost_ok P" and batch: "mock_inv mp"
  shows "\<exists>iter mp'. run_io (mock_env P d ch tx) mp ev (range_query P c s e md) = Some (Inr (Inr (iter, None)), mp', ev)
     \<and> paging_peer.live mock_rest mock_inv iter mp'
     \<and> paging_peer.left mock_rest iter mp' = map (\<lambda>kv. encode (c_kv P) (test_kv kv)) (range_kvs mp c s e)
     \<and> mock_frame mp mp'"
proof -
  let ?results = "map (\<lambda>kv. encode (c_kv P) (test_kv kv)) (range_kvs mp c s e)"
  let ?mp = "mp\<lparr>mp_next_iter := mp_next_iter mp + 1\<rparr>"
  let ?id = "lit ''iter-'' @ show_nat (mp_next_iter ?mp)"
  obtain b mp' where q: "query_response_batch P ?id ?results ?mp = (b, mp')" by fastforce
  have b: "0 < mp_range_batch ?mp" using batch by (simp add: mock_inv_def)
  from query_response_batch_page [OF P q b] obtain resp where
    dec: "decode (c_query_response P) b = Inr resp" and meta: "qr_metadata resp = []" and
    page: "?results = map qrb_result_bytes (qr_results resp) @ (if qr_has_more resp then mock_rest mp' ?id else [])"
      "qr_has_more resp \<longrightarrow> mock_rest mp' ?id \<noteq> []" "qr_id resp = ?id" and frame: "mock_frame ?mp mp'" by auto
  have "run_io (mock_env P d ch tx) mp ev (range_query P c s e md)
      = Some (Inr (Inr (query_iter_new resp, None)), mp', ev)"
    using P q dec meta
    by (simp add: run_range_query mock_env_eq serve_request_def Let_def serve_range_results decode_or_simps(1))
  moreover have "paging_peer.live mock_rest mock_inv (query_iter_new resp) mp'"
    using page frame batch
    by (simp add: paging_peer.live_def [OF mock_paging [OF P]] query_iter_new_def mock_inv_def mock_frame_def)
  moreover have "paging_peer.left mock_rest (query_iter_new resp) mp' = ?results"
    using page by (simp add: paging_peer.left_def [OF mock_paging [OF P]] query_iter_new_def)
  ultimately show ?thesis using frame by (intro exI conjI) (auto simp: mock_frame_def)
qed

text \<open>The program \<open>stub.get_state_by_range(..).await?.collect_remaining().await\<close>.\<close>

definition range_collect :: "prost \<Rightarrow> str \<Rightarrow> str \<Rightarrow> (shim_error + kv list) io" where
  "range_collect P s e = io_try (sb_get_state_by_range P s e) (collect_remaining P)"

definition private_range_collect :: "prost \<Rightarrow> str \<Rightarrow> str \<Rightarrow> str \<Rightarrow> (shim_error + kv list) io" where
  "private_range_collect P c s e = io_try (get_private_data_by_range P c s e) (collect_remaining P)"

lemma mock_collect:
  assumes P: "prost_ok P" and batch: "mock_inv mp"
  shows "\<exists>mp'. run_io (mock_env P d ch tx) mp ev
       (io_try (io_try (range_query P c s e md) (\<lambda>(iter, _). Ret (Inr iter))) (collect_remaining P))
     = Some (Inr (Inr (map test_kv (range_kvs mp c s e))), mp', ev) \<and> mock_frame mp mp'"
proof -
  from mock_range [OF P batch] obtain iter mp1 where
    run: "run_io (mock_env P d ch tx) mp ev (range_query P c s e md) = Some (Inr (Inr (iter, None)), mp1, ev)"
    and live: "paging_peer.live mock_rest mock_inv iter mp1"
    and left: "paging_peer.left mock_rest iter mp1 = map (\<lambda>kv. encode (c_kv P) (test_kv kv)) (range_kvs mp c s e)"
    and f1: "mock_frame mp mp1" by blast
  from paging_peer.collect_all [OF mock_paging [OF P] live] obtain mp2 where
    coll: "run_io (mock_env P d ch tx) mp1 ev (collect_remaining P iter)
       = Some (Inr (res_collect (decode_or (c_kv P)) (paging_peer.left mock_rest iter mp1)), mp2, ev)"
    and f2: "mock_frame mp1 mp2" by blast
  have "res_collect (decode_or (c_kv P)) (map (\<lambda>kv. encode (c_kv P) (test_kv kv)) kvs) = Inr (map test_kv kvs)" for kvs
    using P by (induction kvs) (simp_all add: decode_or_simps(1))
  with run coll left f1 f2 show ?thesis by (auto simp: mock_frame_def)
qed

subsection \<open>Properties\<close>

text \<open>C7. The stub implements a ledger: reading, writing and deleting through the stub's methods, and
  their private data variants, against the peer is reading, updating and removing one entry of the
  abstract ledger, world state and private collections being separate; reading
  changes nothing, and a missing key reads as the empty value.\<close>

theorem stub_implements_ledger:
  assumes "prost_ok P" and "key \<noteq> []" and "c \<noteq> []"
  shows "run_io (mock_env P d ch tx) mp ev (sb_get_state P key)
       = Some (Inr (Inr (unwrap_or_default (ledger mp [] key))), mp, ev)
    \<and> run_io (mock_env P d ch tx) mp ev (get_private_data P c key)
       = Some (Inr (Inr (unwrap_or_default (ledger mp c key))), mp, ev)
    \<and> run_io (mock_env P d ch tx) mp ev (get_private_data_hash P c key)
       = Some (Inr (Inr (unwrap_or_default (ledger mp c key))), mp, ev)
    \<and> (\<exists>mp'. run_io (mock_env P d ch tx) mp ev (sb_put_state P key v) = Some (Inr (Inr ()), mp', ev)
         \<and> ledger mp' = ledger_upd [] key (Some v) (ledger mp))
    \<and> (\<exists>mp'. run_io (mock_env P d ch tx) mp ev (put_private_data P c key v) = Some (Inr (Inr ()), mp', ev)
         \<and> ledger mp' = ledger_upd c key (Some v) (ledger mp))
    \<and> (\<exists>mp'. run_io (mock_env P d ch tx) mp ev (sb_del_state P key) = Some (Inr (Inr ()), mp', ev)
         \<and> ledger mp' = ledger_upd [] key None (ledger mp))
    \<and> (\<exists>mp'. run_io (mock_env P d ch tx) mp ev (del_private_data P c key) = Some (Inr (Inr ()), mp', ev)
         \<and> ledger mp' = ledger_upd c key None (ledger mp))
    \<and> (\<exists>mp'. run_io (mock_env P d ch tx) mp ev (purge_private_data P c key) = Some (Inr (Inr ()), mp', ev)
         \<and> ledger mp' = ledger_upd c key None (ledger mp))"
proof -
  have purge: "\<exists>mp'. run_io (mock_env P d ch tx) mp ev (purge_private_data P c key) = Some (Inr (Inr ()), mp', ev)
         \<and> ledger mp' = ledger_upd c key None (ledger mp)"
    using assms by (auto simp: purge_private_data_def mock_env_eq serve_request_def Let_def ledger_def
        ledger_upd_def fun_eq_iff bt.get_remove)
  show ?thesis
    unfolding sb_get_state_def sb_put_state_def sb_del_state_def get_private_data_def get_private_data_hash_def
      put_private_data_def del_private_data_def require_collection_ok(2) [OF assms(3)] io_ok_simps
    by (intro conjI mock_get mock_get_hash mock_put mock_del purge assms)
qed

definition empty_peer :: mock_peer where
  "empty_peer = \<lparr>mp_state = [], mp_private = [], mp_iterators = Map.empty, mp_next_iter = 0,
     mp_range_batch = 2, mp_next_calls = 0, mp_close_calls = 0\<rparr>"

theorem stub_implements_ledger_witness:
  "\<exists>mp'. run_io (mock_env wire_prost None (lit ''ch'') (lit ''t'')) empty_peer None
       (put_private_data wire_prost (lit ''c'') (lit ''k'') [1]) = Some (Inr (Inr ()), mp', None)
     \<and> ledger mp' (lit ''c'') (lit ''k'') = Some [1] \<and> ledger mp' [] (lit ''k'') = None"
proof -
  have ne: "lit ''k'' \<noteq> []" "lit ''c'' \<noteq> []" by simp_all
  from stub_implements_ledger [OF wire_prost_ok ne, of None "lit ''ch''" "lit ''t''" empty_peer None "[1]"]
  obtain mp' where "run_io (mock_env wire_prost None (lit ''ch'') (lit ''t'')) empty_peer None
       (put_private_data wire_prost (lit ''c'') (lit ''k'') [1]) = Some (Inr (Inr ()), mp', None)"
    and "ledger mp' = ledger_upd (lit ''c'') (lit ''k'') (Some [1]) (ledger empty_peer)" by blast
  moreover have "ledger empty_peer [] (lit ''k'') = None" by (simp add: ledger_def empty_peer_def)
  ultimately show ?thesis by (intro exI [of _ mp']) (simp add: ledger_upd_def)
qed

text \<open>C23. A range query collected to its end terminates and returns every key-value pair of the range,
  once each and in key order, whatever the peer's page size, and leaves the ledger as it was.\<close>

theorem range_query_is_complete:
  assumes "prost_ok P" and "0 < mp_range_batch mp"
  shows "\<exists>mp'. run_io (mock_env P d ch tx) mp ev (range_collect P s e)
      = Some (Inr (Inr (map test_kv (filter (\<lambda>(k, _). in_range s e k) (mp_state mp)))), mp', ev)
    \<and> mp_state mp' = mp_state mp \<and> mp_private mp' = mp_private mp"
  using mock_collect [OF assms(1), of mp d ch tx ev "[]" s e None] assms(2)
  by (auto simp: range_collect_def sb_get_state_by_range_def mock_inv_def mock_frame_def range_kvs_def)

definition two_keys_peer :: mock_peer where
  "two_keys_peer = empty_peer\<lparr>mp_state := [(lit ''a'', [1]), (lit ''b'', [2]), (lit ''c'', [3])], mp_range_batch := 1\<rparr>"

theorem range_query_is_complete_witness:
  "\<exists>mp'. run_io (mock_env wire_prost None [] []) two_keys_peer None (range_collect wire_prost (lit ''b'') [])
     = Some (Inr (Inr [test_kv (lit ''b'', [2]), test_kv (lit ''c'', [3])]), mp', None)"
proof -
  have "filter (\<lambda>(k, _). in_range (lit ''b'') [] k) (mp_state two_keys_peer) = [(lit ''b'', [2]), (lit ''c'', [3])]"
    by (simp add: two_keys_peer_def in_range_def lit_Cons uchr_less_iff)
  with range_query_is_complete [OF wire_prost_ok, of two_keys_peer None "[]" "[]" None "lit ''b''" "[]"]
  show ?thesis by (auto simp: two_keys_peer_def)
qed

text \<open>C22. A partial composite key query returns exactly the composite keys of the ledger that have
  the object type and extend the attributes.\<close>

theorem partial_composite_query_is_exact:
  assumes "prost_ok P" and "0 < mp_range_batch mp" and "create_composite_key esc ot as = Inr p"
  shows "\<exists>kvs mp'. run_io (mock_env P d ch tx) mp ev
        (io_try (get_state_by_partial_composite_key P esc ot as) (collect_remaining P))
      = Some (Inr (Inr (map test_kv kvs)), mp', ev) \<and> set kvs \<subseteq> set (mp_state mp)
    \<and> (\<forall>ot' bs k v. create_composite_key esc ot' bs = Inr k \<longrightarrow>
         ((k, v) \<in> set kvs \<longleftrightarrow> (k, v) \<in> set (mp_state mp) \<and> ot' = ot \<and> prefix as bs))"
proof -
  let ?kvs = "range_kvs mp [] p (p @ [MAX_UNICODE_RUNE])"
  have "p \<noteq> []" using assms(3) by (auto simp: create_iff)
  then have "(k, v) \<in> set ?kvs \<longleftrightarrow> (k, v) \<in> set (mp_state mp) \<and> ot' = ot \<and> prefix as bs"
    if "create_composite_key esc ot' bs = Inr k" for ot' bs k v
    using partial_key_range_exact [OF assms(3) that] by (auto simp: range_kvs_def in_range_def partial_key_range_def)
  moreover have "get_state_by_partial_composite_key P esc ot as
      = io_try (range_query P [] p (p @ [MAX_UNICODE_RUNE]) None) (\<lambda>(iter, _). Ret (Inr iter))"
    using assms(3) by (simp add: get_state_by_partial_composite_key_def partial_key_range_def sb_get_state_by_range_def)
  moreover have "set ?kvs \<subseteq> set (mp_state mp)" by (auto simp: range_kvs_def)
  ultimately show ?thesis
    using mock_collect [OF assms(1), of mp d ch tx ev "[]" p "p @ [MAX_UNICODE_RUNE]" None] assms(2)
    by (auto simp: mock_inv_def)
qed

theorem partial_composite_query_is_exact_witness:
  "\<exists>p k kvs mp'. create_composite_key (\<lambda>_. False) (lit ''car'') [lit ''red''] = Inr p
    \<and> create_composite_key (\<lambda>_. False) (lit ''car'') [lit ''red'', lit ''7''] = Inr k
    \<and> run_io (mock_env wire_prost None [] []) (empty_peer\<lparr>mp_state := [(k, [1])]\<rparr>) None
        (io_try (get_state_by_partial_composite_key wire_prost (\<lambda>_. False) (lit ''car'') [lit ''red'']) (collect_remaining wire_prost))
      = Some (Inr (Inr (map test_kv kvs)), mp', None) \<and> (k, [1]) \<in> set kvs"
proof -
  obtain p k where keys: "create_composite_key (\<lambda>_. False) (lit ''car'') [lit ''red''] = Inr p"
      "create_composite_key (\<lambda>_. False) (lit ''car'') [lit ''red'', lit ''7''] = Inr k"
    by (simp add: create_iff valid_component_lit)
  have "0 < mp_range_batch (empty_peer\<lparr>mp_state := [(k, [1::byte])]\<rparr>)" by (simp add: empty_peer_def)
  from partial_composite_query_is_exact [OF wire_prost_ok this keys(1), of None "[]" "[]" None]
  obtain kvs mp' where run: "run_io (mock_env wire_prost None [] []) (empty_peer\<lparr>mp_state := [(k, [1])]\<rparr>) None
        (io_try (get_state_by_partial_composite_key wire_prost (\<lambda>_. False) (lit ''car'') [lit ''red'']) (collect_remaining wire_prost))
      = Some (Inr (Inr (map test_kv kvs)), mp', None)"
    and mem: "(k, [1]) \<in> set kvs \<longleftrightarrow> (k, [1]) \<in> set (mp_state (empty_peer\<lparr>mp_state := [(k, [1])]\<rparr>))
        \<and> lit ''car'' = lit ''car'' \<and> prefix [lit ''red''] [lit ''red'', lit ''7'']"
    using keys(2) by blast
  from mem have "(k, [1]) \<in> set kvs" by simp
  with keys run show ?thesis by blast
qed

end
