(* ===== verification/Inventory.thy ===== *)
theory Inventory imports Schema_Conformance Mock_Peer
begin

section \<open>A contract end to end: Inventory\<close>

text \<open>
  The contract \<open>Inventory\<close> of \<open>fabric-shim/tests/mock_peer.rs\<close>, as the macros see it (its struct and impl
  block as syntax trees) and with the bodies of its methods; the expansion is computed by
  \<open>contract_macro\<close>. Also here: a whole transaction of a contract, from the peer's message to
  COMPLETED.
\<close>

subsection \<open>The source\<close>

definition result_ty :: "ty \<Rightarrow> ty" where
  "result_ty t = TyPath [Segment (lit ''Result'') (AngleBracketed [GenericType t,
     GenericType (TyPath [Segment (lit ''fabric_shim'') NoArgs, Segment (lit ''Error'') NoArgs])])]"

definition typed_arg :: "string \<Rightarrow> ty \<Rightarrow> fn_arg" where
  "typed_arg i t = Typed (PatIdent (lit i)) t"

definition transaction_attr :: "meta list \<Rightarrow> attribute" where
  "transaction_attr ms = (if ms = [] then AttrPath [lit ''transaction''] else AttrList [lit ''transaction''] (ms, None))"

definition evaluate_attr :: attribute where
  "evaluate_attr = transaction_attr [MetaPath [lit ''evaluate'']]"

definition item_struct :: derive_input where
  "item_struct = \<lparr>di_attrs = [], di_ident = lit ''Item'', di_generic = False, di_data = DataStruct (FieldsNamed
     [\<lparr>sf_attrs = [rename_to ''ID''], sf_ident = lit ''id'', sf_ty = path_ty ''String''\<rparr>,
      \<lparr>sf_attrs = [], sf_ident = lit ''qty'', sf_ty = path_ty ''u32''\<rparr>])\<rparr>"

definition inventory_attr :: tokens where
  "inventory_attr = ([MetaNameValue [lit ''name''] (ExprStr (lit ''Inventory'')),
     MetaNameValue [lit ''version''] (ExprStr (lit ''9.9.9''))], None)"

definition inventory_impl :: item_impl where
  "inventory_impl = \<lparr>ii_generic = False, ii_self_ty = path_ty ''Inventory'', ii_items =
     [ImplFn \<lparr>me_attrs = [transaction_attr []], me_ident = lit ''add_item'', me_async = True,
        me_inputs = [Receiver, typed_arg ''ctx'' TyOther, typed_arg ''id'' (path_ty ''String''), typed_arg ''qty'' (path_ty ''u32'')],
        me_output = ReturnType (result_ty (TyTuple []))\<rparr>,
      ImplFn \<lparr>me_attrs = [evaluate_attr], me_ident = lit ''get_item'', me_async = True,
        me_inputs = [Receiver, typed_arg ''ctx'' TyOther, typed_arg ''id'' (path_ty ''String'')],
        me_output = ReturnType (result_ty (path_ty ''Item''))\<rparr>,
      ImplFn \<lparr>me_attrs = [evaluate_attr], me_ident = lit ''double'', me_async = True,
        me_inputs = [Receiver, typed_arg ''_ctx'' TyOther, typed_arg ''n'' (path_ty ''u64'')],
        me_output = ReturnType (result_ty (path_ty ''u64''))\<rparr>]\<rparr>"

text \<open>The case conversions of the names above.\<close>

definition inventory_casing :: casing where
  "inventory_casing = plain_casing\<lparr>cs_upper_camel := (\<lambda>s. if s = lit ''add_item'' then lit ''AddItem''
     else if s = lit ''get_item'' then lit ''GetItem'' else if s = lit ''double'' then lit ''Double'' else s)\<rparr>"

subsection \<open>The method bodies\<close>

record item =
  it_id :: str
  it_qty :: int

text \<open>A method's result with its error as text.\<close>

definition display_error :: "(shim_error + 'a) io \<Rightarrow> (str + 'a) io" where
  "display_error m = io_bind m (\<lambda>r. Ret (res_map_err error_display r))"

definition add_item :: "prost \<Rightarrow> item rust_lib \<Rightarrow> str \<Rightarrow> int \<Rightarrow> (shim_error + item val) io" where
  "add_item P L key qty =
     (case rl_to_vec L (RData (lit ''Item'')) \<lparr>it_id = key, it_qty = qty\<rparr> of
        Inl e \<Rightarrow> Panic e
      | Inr json \<Rightarrow> io_try (sb_put_state P key json) (\<lambda>_. Ret (Inr VUnit)))"

definition get_item :: "prost \<Rightarrow> item rust_lib \<Rightarrow> str \<Rightarrow> (shim_error + item val) io" where
  "get_item P L key =
     io_try (sb_get_state P key) (\<lambda>bytes.
       io_ok (res_map_err ErrInvalidArgument (rl_from_slice L (RData (lit ''Item'')) bytes)) (\<lambda>item. Ret (Inr (VData item))))"

text \<open>Debug arithmetic: an overflow panics.\<close>

definition double :: "int \<Rightarrow> (shim_error + item val) io" where
  "double n = (if int_ty_max U64 < n * 2 then Panic (lit ''attempt to multiply with overflow'') else Ret (Inr (VInt (n * 2))))"

definition inventory_methods :: "prost \<Rightarrow> item rust_lib \<Rightarrow> item methods" where
  "inventory_methods P L ident stub vs = display_error
     (if ident = lit ''add_item'' then (case vs of [VString key, VInt qty] \<Rightarrow> add_item P L key qty)
      else if ident = lit ''get_item'' then (case vs of [VString key] \<Rightarrow> get_item P L key)
      else (case vs of [VInt n] \<Rightarrow> double n))"

subsection \<open>The expansion\<close>

definition inventory_txs :: "tx_method list" where
  "inventory_txs =
     [\<lparr>tm_wire_name = lit ''AddItem'', tm_tag = lit ''submit'', tm_ident = lit ''add_item'', tm_async = True,
       tm_params = [(lit ''id'', path_ty ''String''), (lit ''qty'', path_ty ''u32'')], tm_ok_ty = None\<rparr>,
      \<lparr>tm_wire_name = lit ''GetItem'', tm_tag = lit ''evaluate'', tm_ident = lit ''get_item'', tm_async = True,
       tm_params = [(lit ''id'', path_ty ''String'')], tm_ok_ty = Some (path_ty ''Item'')\<rparr>,
      \<lparr>tm_wire_name = lit ''Double'', tm_tag = lit ''evaluate'', tm_ident = lit ''double'', tm_async = True,
       tm_params = [(lit ''n'', path_ty ''u64'')], tm_ok_ty = Some (path_ty ''u64'')\<rparr>]"

definition inventory_ex :: expansion where
  "inventory_ex = \<lparr>ex_input = inventory_impl\<lparr>ii_items := snd (snd (contract_items inventory_casing (ii_items inventory_impl)))\<rparr>,
     ex_contract_name = lit ''Inventory'', ex_title = lit ''Inventory'', ex_version = Some (lit ''9.9.9''), ex_txs = inventory_txs\<rparr>"

lemma extract_result_ty [simp]: "extract_result_ok (result_ty t) = Some t"
  by (simp add: extract_result_ok_def result_ty_def)

lemma path_ty_not_unit [simp]: "path_ty s \<noteq> TyTuple []"
  by (simp add: path_ty_def)

lemma transaction_attrs [simp]:
  "is_transaction_attr (transaction_attr ms)" "is_transaction_attr evaluate_attr"
  by (simp_all add: is_transaction_attr_def transaction_attr_def evaluate_attr_def is_ident_def)

lemma inventory_items:
  "\<exists>is. contract_items inventory_casing (ii_items inventory_impl) = ([], inventory_txs, is)"
  by (simp add: inventory_impl_def transaction_method_def transaction_attr_def evaluate_attr_def parse_terminated_def
      typed_arg_def method_ok_ty_def is_transaction_attr_def is_ident_def inventory_casing_def inventory_txs_def)

lemma inventory_args:
  "parse_contract_args inventory_attr
     = Inr \<lparr>ca_name = Some (lit ''Inventory''), ca_version = Some (lit ''9.9.9''), ca_title = None\<rparr>"
  by (simp add: parse_contract_args_def inventory_attr_def parse_terminated_def get_ident_def Let_def)

lemma inventory_expands: "contract_macro inventory_casing inventory_attr (Inr inventory_impl) = Inr inventory_ex"
proof -
  obtain items where items: "contract_items inventory_casing (ii_items inventory_impl) = ([], inventory_txs, items)"
    using inventory_items by blast
  have "ii_generic inventory_impl = False" "ii_self_ty inventory_impl = TyPath [Segment (lit ''Inventory'') NoArgs]"
    by (simp_all add: inventory_impl_def path_ty_def)
  with items inventory_args show ?thesis
    by (simp add: contract_macro_def Let_def or_else_def inventory_ex_def)
qed

subsection \<open>A whole transaction of a contract\<close>

text \<open>The transaction \<open>tx\<close> of an expansion is called as \<open>name\<close> with the argument texts \<open>texts\<close>, which are the
  texts of the values \<open>vs\<close>.\<close>

definition calls :: "'d rust_lib \<Rightarrow> (ty \<Rightarrow> rty) \<Rightarrow> decls \<Rightarrow> expansion \<Rightarrow> tx_method \<Rightarrow> str \<Rightarrow> 'd val list \<Rightarrow> str list \<Rightarrow> bool" where
  "calls L rt D ex tx name vs texts \<longleftrightarrow>
     find (\<lambda>t. tm_wire_name t = tm_wire_name tx) (ex_txs ex) = Some tx
   \<and> uc (CHR '':'') \<notin> set (tm_wire_name tx)
   \<and> (\<exists>ns. name = ns @ tm_wire_name tx \<and> (ns = [] \<or> (\<exists>s. ns = s @ [uc (CHR '':'')])))
   \<and> name \<noteq> METADATA_FUNCTION
   \<and> list_all2 (\<lambda>(i, t) v. has_type v (rt t) \<and> rt t \<in> {RString, RBool} \<union> range RInt) (tm_params tx) vs
   \<and> list_all2 (\<lambda>((i, t), v) s. into_payload L D (rt t) v = Inr (str_bytes s)) (zip (tm_params tx) vs) texts"

lemma contract_chaincode_invoke:
  assumes "contract_chaincode to_json L C rt D call v ex = Some cc"
  shows "cc_invoke cc = gen_invoke L C rt D call ex" "cc_init cc = gen_invoke L C rt D call ex"
    "\<exists>md. gen_metadata C rt D v ex = Some md \<and> cc_metadata cc = Some (to_json md)"
  using assms by (auto simp: contract_chaincode_def)

lemma run_contract_call:
  assumes P: "prost_ok P" and cc: "contract_chaincode to_json L C rt D call v ex = Some cc"
    and calls: "calls L rt D ex tx name vs texts"
    and stub: "stub_new P (lit ''testchannel'') txid \<lparr>ci_args = map str_bytes (name # texts), ci_decorations = fmempty, ci_is_init = False\<rparr>
        proposal = Inr stub"
    and run: "run_io (link_env serve d (lit ''testchannel'') txid) p None (call (tm_ident tx) stub vs) = Some (Inr r, p', ev)"
  shows "run_transaction P je cc serve d (start_tx P txid (name # texts) proposal) p
     = Some (completed_message P d (lit ''testchannel'') txid (method_response L D (ok_rty rt tx) r) ev, p')"
proof -
  from calls obtain ns where c: "find (\<lambda>t. tm_wire_name t = tm_wire_name tx) (ex_txs ex) = Some tx"
    "uc (CHR '':'') \<notin> set (tm_wire_name tx)" "name = ns @ tm_wire_name tx" "ns = [] \<or> (\<exists>s. ns = s @ [uc (CHR '':'')])"
    "name \<noteq> METADATA_FUNCTION"
    "list_all2 (\<lambda>(i, t) v. has_type v (rt t) \<and> rt t \<in> {RString, RBool} \<union> range RInt) (tm_params tx) vs"
    "list_all2 (\<lambda>((i, t), v) raw. into_payload L D (rt t) v = Inr raw) (zip (tm_params tx) vs) (map str_bytes texts)"
    by (auto simp: calls_def list_all2_map2 case_prod_unfold)
  have args: "get_args stub = str_bytes (ns @ tm_wire_name tx) # map str_bytes texts"
    using stub_new_ids [OF stub] c(3) by (simp add: get_args_def)
  have inv: "cc_invoke cc stub = io_bind (call (tm_ident tx) stub vs) (\<lambda>r. Ret (method_response L D (ok_rty rt tx) r))"
    using invoke_routed [OF c(1,2) args c(4,6,7), where C = C and call = call] contract_chaincode_invoke(1) [OF cc]
    by (simp add: method_response_def)
  have prep: "prepare_transaction P (cc_metadata cc) d (start_tx P txid (name # texts) proposal) = RunUser False stub"
    using P stub c(5) by (simp add: prepare_transaction_def Let_def del: str_bytes_append)
  show ?thesis
    by (simp add: run_transaction_def prep inv run)
qed

subsection \<open>The inventory chaincode\<close>

definition inventory_decls :: decls where
  "inventory_decls = [(lit ''Item'', \<lparr>dt_name = lit ''Item'', dt_fields =
     [\<lparr>fd_name = lit ''ID'', fd_type = RString, fd_optional = False\<rparr>,
      \<lparr>fd_name = lit ''qty'', fd_type = RInt U32, fd_optional = False\<rparr>]\<rparr>)]"

lemma derive_item: "derive_data_type inventory_casing ex_rt item_struct = Inr (snd (hd inventory_decls))"
  by (simp add: derive_data_type_def item_struct_def derive_field_def json_name_def serde_rename_def serde_rename_all_def
      rename_to_def serde_attr_def is_ident_def unwrap_option_def path_ty_def apply_rename_all_def inventory_decls_def)

lemma inventory_decls_ok:
  "decls_ok inventory_decls" "t \<in> set (component_types (ex_txs inventory_ex)) \<Longrightarrow> declared inventory_decls (ex_rt t)"
  by (auto simp: decls_ok_def inventory_decls_def ran_def declared_def component_types_def inventory_ex_def
      inventory_txs_def path_ty_def split: if_splits)

text \<open>The inventory as a chaincode, with the JSON conversions \<open>L\<close> and the metadata's JSON \<open>to_json\<close>.\<close>

definition inventory_chaincode :: "prost \<Rightarrow> item rust_lib \<Rightarrow> (metadata \<Rightarrow> str + bytes) \<Rightarrow> chaincode option" where
  "inventory_chaincode P L to_json = contract_chaincode to_json L inventory_casing ex_rt inventory_decls
     (inventory_methods P L) [] inventory_ex"

lemma inventory_chaincode_exists: "\<exists>cc. inventory_chaincode P L to_json = Some cc"
  unfolding inventory_chaincode_def by (rule contract_chaincode_exists [OF inventory_decls_ok])

lemma inventory_calls:
  "0 \<le> qty \<Longrightarrow> qty \<le> int_ty_max U32 \<Longrightarrow>
     calls L ex_rt inventory_decls inventory_ex (inventory_txs ! 0) (lit ''AddItem'') [VString key, VInt qty] [key, show_int qty]"
  "calls L ex_rt inventory_decls inventory_ex (inventory_txs ! 1) (lit ''Inventory:GetItem'') [VString key] [key]"
  "0 \<le> n \<Longrightarrow> n \<le> int_ty_max U64 \<Longrightarrow>
     calls L ex_rt inventory_decls inventory_ex (inventory_txs ! 2) (lit ''Double'') [VInt n] [show_int n]"
proof -
  have ns: "lit ''Inventory:GetItem'' = (lit ''Inventory'' @ [uc (CHR '':'')]) @ lit ''GetItem''" by (simp add: lit_def)
  have meta: "lit ''Inventory:GetItem'' \<noteq> METADATA_FUNCTION" by (simp add: METADATA_FUNCTION_def)
  have no: "uc (CHR '':'') \<notin> set (lit ''AddItem'')" "uc (CHR '':'') \<notin> set (lit ''GetItem'')" "uc (CHR '':'') \<notin> set (lit ''Double'')"
    by (simp_all add: lit_Cons)
  show "0 \<le> qty \<Longrightarrow> qty \<le> int_ty_max U32 \<Longrightarrow>
     calls L ex_rt inventory_decls inventory_ex (inventory_txs ! 0) (lit ''AddItem'') [VString key, VInt qty] [key, show_int qty]"
    using no by (simp add: calls_def inventory_ex_def inventory_txs_def METADATA_FUNCTION_def path_ty_def int_ty_min_def)
  show "calls L ex_rt inventory_decls inventory_ex (inventory_txs ! 1) (lit ''Inventory:GetItem'') [VString key] [key]"
    unfolding calls_def using no meta
    by (auto simp: inventory_ex_def inventory_txs_def path_ty_def ns simp del: append_assoc)
  show "0 \<le> n \<Longrightarrow> n \<le> int_ty_max U64 \<Longrightarrow>
     calls L ex_rt inventory_decls inventory_ex (inventory_txs ! 2) (lit ''Double'') [VInt n] [show_int n]"
    using no by (simp add: calls_def inventory_ex_def inventory_txs_def METADATA_FUNCTION_def path_ty_def int_ty_min_def)
qed

lemma run_display_error [simp, run_simps]:
  "run_io env p ev (display_error m) = run_then (run_io env p ev m) (\<lambda>r p' ev'. Some (Inr (res_map_err error_display r), p', ev'))"
  by (simp add: display_error_def)

subsection \<open>Properties\<close>

text \<open>C8. A contract's transaction end to end: when the peer's message names a routed transaction and carries the
  texts of typed arguments, and the method returns, the task answers with one COMPLETED for the
  same channel and transaction, holding the method's result (its payload, or its error's text with
  status 500) and the event the method has set.\<close>

theorem contract_transaction_end_to_end:
  assumes "prost_ok P" and "contract_chaincode to_json L C rt D call v ex = Some cc"
    and "calls L rt D ex tx name vs texts"
    and "stub_new P (lit ''testchannel'') txid \<lparr>ci_args = map str_bytes (name # texts), ci_decorations = fmempty, ci_is_init = False\<rparr>
        proposal = Inr stub"
    and "run_io (link_env serve d (lit ''testchannel'') txid) p None (call (tm_ident tx) stub vs) = Some (Inr r, p', ev)"
  shows "\<exists>m. run_transaction P je cc serve d (start_tx P txid (name # texts) proposal) p = Some (m, p')
    \<and> cm_kind m = MT_Completed \<and> key_of m = (lit ''testchannel'', txid) \<and> cm_chaincode_event m = ev
    \<and> decode (c_response P) (cm_payload m) = Inr (into_proto (case r of
        Inl e \<Rightarrow> response_error e
      | Inr v \<Rightarrow> (case into_payload L D (ok_rty rt tx) v of Inl e \<Rightarrow> response_error e | Inr payload \<Rightarrow> success payload)))"
  using run_contract_call [OF assms] assms(1)
  by (auto simp: method_response_def split: sum.splits)

text \<open>Some JSON conversions for the witnesses: the wire format of another message with the same content.\<close>

definition item_lib :: "item rust_lib" where
  "item_lib = \<lparr>rl_float_parse = (\<lambda>_ _. Inl []), rl_float_show = (\<lambda>_ _. []),
     rl_from_slice = (\<lambda>_ b. res_bind (decode (c_get_state wire_prost) b) (\<lambda>g.
       res_map (\<lambda>n. \<lparr>it_id = gs_key g, it_qty = n\<rparr>) (res_map_err int_error_display (parse_int U32 (gs_collection g))))),
     rl_to_vec = (\<lambda>_ i. Inr (encode (c_get_state wire_prost) \<lparr>gs_key = it_id i, gs_collection = show_int (it_qty i)\<rparr>))\<rparr>"

lemma item_lib_round_trip:
  assumes "0 \<le> qty" and "qty \<le> int_ty_max U32"
  shows "\<exists>json. rl_to_vec item_lib (RData (lit ''Item'')) \<lparr>it_id = key, it_qty = qty\<rparr> = Inr json
    \<and> rl_from_slice item_lib (RData (lit ''Item'')) json = Inr \<lparr>it_id = key, it_qty = qty\<rparr>"
  using assms parse_int_show_int [of U32 qty] by (simp add: item_lib_def int_ty_min_def)

theorem contract_transaction_end_to_end_witness:
  "\<exists>cc m. inventory_chaincode wire_prost item_lib (\<lambda>_. Inr []) = Some cc
     \<and> run_transaction wire_prost id cc (mock_serve wire_prost) None
         (start_tx wire_prost (lit ''t1'') [lit ''Double'', show_int 21] None) empty_peer = Some (m, empty_peer)
     \<and> decode (c_response wire_prost) (cm_payload m) = Inr (into_proto (success (str_bytes (show_int 42))))"
proof -
  obtain cc where cc: "inventory_chaincode wire_prost item_lib (\<lambda>_. Inr []) = Some cc"
    using inventory_chaincode_exists by blast
  let ?input = "\<lparr>ci_args = map str_bytes [lit ''Double'', show_int 21], ci_decorations = fmempty, ci_is_init = False\<rparr>"
  obtain stub where stub: "stub_new wire_prost (lit ''testchannel'') (lit ''t1'') ?input None = Inr stub"
    by (simp add: stub_new_def)
  have calls: "calls item_lib ex_rt inventory_decls inventory_ex (inventory_txs ! 2) (lit ''Double'') [VInt 21] [show_int 21]"
    by (rule inventory_calls) (simp_all add: int_ty_max_def)
  have "run_io (link_env (mock_serve wire_prost) None (lit ''testchannel'') (lit ''t1'')) empty_peer None
      (inventory_methods wire_prost item_lib (tm_ident (inventory_txs ! 2)) stub [VInt 21]) = Some (Inr (Inr (VInt 42)), empty_peer, None)"
    by (simp add: inventory_methods_def inventory_txs_def double_def int_ty_max_def)
  from contract_transaction_end_to_end [OF wire_prost_ok cc [unfolded inventory_chaincode_def] calls stub this, of id] cc
  show ?thesis by (auto simp: ok_rty_def inventory_txs_def path_ty_def)
qed

text \<open>What \<open>AddItem\<close> stores \<open>GetItem\<close> returns: against the peer, \<open>AddItem\<close> with a key and an amount succeeds and
  changes one entry of the ledger, and \<open>Inventory:GetItem\<close> then returns the stored item's JSON and
  changes nothing.\<close>

lemma inventory_add_then_get:
  assumes "prost_ok P" and "inventory_chaincode P L to_json = Some cc"
    and "key \<noteq> []" and "0 \<le> qty" and "qty \<le> int_ty_max U32"
    and "rl_to_vec L (RData (lit ''Item'')) \<lparr>it_id = key, it_qty = qty\<rparr> = Inr json"
    and "rl_from_slice L (RData (lit ''Item'')) json = Inr \<lparr>it_id = key, it_qty = qty\<rparr>"
  shows "\<exists>m1 mp1 m2. run_transaction P je cc (mock_serve P) d (start_tx P t1 [lit ''AddItem'', key, show_int qty] None) mp = Some (m1, mp1)
    \<and> decode (c_response P) (cm_payload m1) = Inr (into_proto success_empty)
    \<and> ledger mp1 = ledger_upd [] key (Some json) (ledger mp)
    \<and> run_transaction P je cc (mock_serve P) d' (start_tx P t2 [lit ''Inventory:GetItem'', key] None) mp1 = Some (m2, mp1)
    \<and> decode (c_response P) (cm_payload m2) = Inr (into_proto (success json))"
proof -
  note cc = assms(2) [unfolded inventory_chaincode_def]
  have stub: "\<exists>stub. stub_new P ch tx input None = Inr stub" for ch tx input by (simp add: stub_new_def)
  obtain mp1 where put: "run_io (mock_env P d (lit ''testchannel'') t1) mp None (put_data P [] key json) = Some (Inr (Inr ()), mp1, None)"
    and led: "ledger mp1 = ledger_upd [] key (Some json) (ledger mp)"
    using mock_put [OF assms(1,3)] by blast
  have get: "run_io (mock_env P d' (lit ''testchannel'') t2) mp1 None (get_data P MT_GetState key []) = Some (Inr (Inr json), mp1, None)"
    using mock_get [OF assms(1)] by (simp add: led ledger_upd_def unwrap_or_default_def)
  obtain s1 where s1: "stub_new P (lit ''testchannel'') t1 \<lparr>ci_args = map str_bytes [lit ''AddItem'', key, show_int qty],
      ci_decorations = fmempty, ci_is_init = False\<rparr> None = Inr s1" using stub by blast
  obtain s2 where s2: "stub_new P (lit ''testchannel'') t2 \<lparr>ci_args = map str_bytes [lit ''Inventory:GetItem'', key],
      ci_decorations = fmempty, ci_is_init = False\<rparr> None = Inr s2" using stub by blast
  have "run_io (mock_env P d (lit ''testchannel'') t1) mp None
      (inventory_methods P L (tm_ident (inventory_txs ! 0)) s1 [VString key, VInt qty]) = Some (Inr (Inr VUnit), mp1, None)"
    using put assms(6) by (simp add: inventory_methods_def inventory_txs_def add_item_def sb_put_state_def del: run_put_data)
  note run1 = run_contract_call [OF assms(1) cc inventory_calls(1) [OF assms(4,5)] s1 this]
  have "run_io (mock_env P d' (lit ''testchannel'') t2) mp1 None
      (inventory_methods P L (tm_ident (inventory_txs ! 1)) s2 [VString key])
      = Some (Inr (Inr (VData \<lparr>it_id = key, it_qty = qty\<rparr>)), mp1, None)"
    using get assms(7) by (simp add: inventory_methods_def inventory_txs_def get_item_def sb_get_state_def del: run_get_data)
  note run2 = run_contract_call [OF assms(1) cc inventory_calls(2) s2 this]
  have "method_response L inventory_decls (ok_rty ex_rt (inventory_txs ! 0)) (Inr VUnit) = success_empty"
    "method_response L inventory_decls (ok_rty ex_rt (inventory_txs ! 1)) (Inr (VData \<lparr>it_id = key, it_qty = qty\<rparr>)) = success json"
    using assms(6) by (simp_all add: method_response_def ok_rty_def inventory_txs_def path_ty_def inventory_decls_def success_empty_def)
  with run1 run2 led assms(1) show ?thesis by simp
qed

lemma inventory_add_then_get_example:
  "\<exists>cc m1 mp1. inventory_chaincode wire_prost item_lib (\<lambda>_. Inr []) = Some cc
     \<and> run_transaction wire_prost id cc (mock_serve wire_prost) None
         (start_tx wire_prost (lit ''t1'') [lit ''AddItem'', lit ''widget'', show_int 42] None) empty_peer = Some (m1, mp1)
     \<and> decode (c_response wire_prost) (cm_payload m1) = Inr (into_proto success_empty)"
proof -
  obtain cc where cc: "inventory_chaincode wire_prost item_lib (\<lambda>_. Inr []) = Some cc"
    using inventory_chaincode_exists by blast
  have q: "lit ''widget'' \<noteq> []" "(0::int) \<le> 42" "42 \<le> int_ty_max U32" by (simp_all add: int_ty_max_def)
  from item_lib_round_trip [OF q(2,3), of "lit ''widget''"] obtain json where
    json: "rl_to_vec item_lib (RData (lit ''Item'')) \<lparr>it_id = lit ''widget'', it_qty = 42\<rparr> = Inr json"
      "rl_from_slice item_lib (RData (lit ''Item'')) json = Inr \<lparr>it_id = lit ''widget'', it_qty = 42\<rparr>" by blast
  from inventory_add_then_get [OF wire_prost_ok cc q json, of id None "lit ''t1''" empty_peer] cc show ?thesis by blast
qed

subsection \<open>Witnesses of the macro's properties\<close>

definition ex_stub :: "bytes list \<Rightarrow> stub" where
  "ex_stub args = \<lparr>sb_channel_id = [], sb_tx_id = [], sb_args = args, sb_decorations = fmempty,
     sb_signed_proposal = None, sb_creator = [], sb_transient = fmempty, sb_tx_timestamp = None\<rparr>"

lemma vanish_name: "after_last_colon (lit ''Vanish'') = lit ''Vanish''"
  by (rule after_last_colon_plain) (simp add: lit_Cons)

theorem macro_transactions_are_the_methods_witness:
  "length (filter transactional (methods_of (ii_items inventory_impl))) = 3"
  using conjunct1 [OF macro_transactions_are_the_methods [OF inventory_expands]]
  by (auto dest!: list_all2_lengthD simp: inventory_ex_def inventory_txs_def)

lemma inventory_typed:
  "tx \<in> set (ex_txs inventory_ex) \<Longrightarrow> t \<in> set (tx_types tx) \<Longrightarrow> declared inventory_decls (ex_rt t)"
  by (intro inventory_decls_ok(2)) (auto simp: component_types_concat)

theorem metadata_describes_routes_witness:
  "\<exists>md c. gen_metadata inventory_casing ex_rt inventory_decls [] inventory_ex = Some md
     \<and> map_of (md_contracts md) (lit ''Inventory'') = Some c
     \<and> map mt_name (ct_transactions c) = [lit ''AddItem'', lit ''GetItem'', lit ''Double'']
     \<and> gen_invoke item_lib inventory_casing ex_rt inventory_decls (\<lambda>_ _ vs. Ret (Inr (hd vs))) inventory_ex
         (ex_stub [str_bytes (lit ''Double''), str_bytes (show_int 7)]) = Ret (success (str_bytes (show_int 7)))
     \<and> gen_invoke item_lib inventory_casing ex_rt inventory_decls (\<lambda>_ _ vs. Ret (Inr (hd vs))) inventory_ex
         (ex_stub [str_bytes (lit ''Vanish'')]) = Ret (response_error (lit ''unknown function '' @ lit ''Vanish''))"
proof (rule exE [OF metadata_describes_routes [where ex = inventory_ex and rt = ex_rt and C = inventory_casing and v = "[]"
      and L = item_lib and call = "\<lambda>_ _ vs. Ret (Inr (hd vs))" and D = inventory_decls]],
    rule inventory_decls_ok(1), erule (1) inventory_typed, elim exE conjE)
  let ?call = "gen_invoke item_lib inventory_casing ex_rt inventory_decls (\<lambda>_ _ vs. Ret (Inr (hd vs))) inventory_ex"
  fix md c
  assume md: "gen_metadata inventory_casing ex_rt inventory_decls [] inventory_ex = Some md"
    "map_of (md_contracts md) (ex_contract_name inventory_ex) = Some c"
    and names: "map mt_name (ct_transactions c) = map tm_wire_name (ex_txs inventory_ex)"
    and pars: "map (\<lambda>t. map (\<lambda>p. (par_name p, par_schema p)) (mt_parameters t)) (ct_transactions c)
        = map (\<lambda>tx. map (\<lambda>(i, t). (param_name inventory_casing i, schema inventory_decls (ex_rt t))) (tm_params tx)) (ex_txs inventory_ex)"
    and routed: "\<forall>n ns raws stub. n < length (ct_transactions c)
         \<longrightarrow> uc (CHR '':'') \<notin> set (mt_name (ct_transactions c ! n))
         \<longrightarrow> (\<forall>m<n. mt_name (ct_transactions c ! m) \<noteq> mt_name (ct_transactions c ! n))
         \<longrightarrow> get_args stub = str_bytes (ns @ mt_name (ct_transactions c ! n)) # raws
         \<longrightarrow> ns = [] \<or> (\<exists>s. ns = s @ [uc (CHR '':'')])
         \<longrightarrow> (let tx = ex_txs inventory_ex ! n in
             if length raws = length (mt_parameters (ct_transactions c ! n)) then
               ?call stub = (case parse_params item_lib inventory_casing ex_rt inventory_decls (tm_params tx) raws of
                   Inl e \<Rightarrow> Ret (response_error e)
                 | Inr vs \<Rightarrow> io_bind (Ret (Inr (hd vs))) (\<lambda>r. Ret (method_response item_lib inventory_decls (ok_rty ex_rt tx) r)))
             else (\<exists>e. ?call stub = Ret (response_error e)))"
    and refused: "\<forall>a raws stub. get_args stub = a # raws
         \<longrightarrow> after_last_colon (from_utf8_lossy a) \<notin> mt_name ` set (ct_transactions c)
         \<longrightarrow> ?call stub = Ret (response_error (lit ''unknown function '' @ after_last_colon (from_utf8_lossy a)))"
  have len: "map (length \<circ> mt_parameters) (ct_transactions c) = [2, 1, 1]"
    using arg_cong [OF pars, of "map length"] by (simp add: inventory_ex_def inventory_txs_def o_def)
  have names': "map mt_name (ct_transactions c) = [lit ''AddItem'', lit ''GetItem'', lit ''Double'']"
    using names by (simp add: inventory_ex_def inventory_txs_def)
  then obtain t0 t1 t2 where c: "ct_transactions c = [t0, t1, t2]" by (auto simp: map_eq_Cons_conv)
  have t2: "mt_name t2 = lit ''Double''" "length (mt_parameters t2) = 1"
    and earlier: "\<forall>m<2. mt_name (ct_transactions c ! m) \<noteq> lit ''Double''"
    using names' len by (auto simp: c less_Suc_eq numeral_eq_Suc)
  have at2: "ct_transactions c ! 2 = t2" "2 < length (ct_transactions c)" "ex_txs inventory_ex ! 2 = inventory_txs ! 2"
    by (simp_all add: c inventory_ex_def)
  have no: "uc (CHR '':'') \<notin> set (lit ''Double'')" by (simp add: lit_Cons)
  have args: "get_args (ex_stub [str_bytes (lit ''Double''), str_bytes (show_int 7)]) = str_bytes ([] @ lit ''Double'') # [str_bytes (show_int 7)]"
    by (simp add: get_args_def ex_stub_def)
  have "?call (ex_stub [str_bytes (lit ''Double''), str_bytes (show_int 7)])
      = (case parse_params item_lib inventory_casing ex_rt inventory_decls (tm_params (inventory_txs ! 2)) [str_bytes (show_int 7)] of
          Inl e \<Rightarrow> Ret (response_error e)
        | Inr vs \<Rightarrow> io_bind (Ret (Inr (hd vs))) (\<lambda>r. Ret (method_response item_lib inventory_decls (ok_rty ex_rt (inventory_txs ! 2)) r)))"
    using routed [rule_format, OF at2(2), unfolded at2 t2(1), OF no _ args] earlier by (simp add: t2(2) Let_def)
  then have "?call (ex_stub [str_bytes (lit ''Double''), str_bytes (show_int 7)]) = Ret (success (str_bytes (show_int 7)))"
    by (simp add: inventory_txs_def path_ty_def ok_rty_def method_response_def parse_int_show_int int_ty_min_def int_ty_max_def)
  moreover have "?call (ex_stub [str_bytes (lit ''Vanish'')]) = Ret (response_error (lit ''unknown function '' @ lit ''Vanish''))"
    using names' refused [rule_format, of "ex_stub [str_bytes (lit ''Vanish'')]" "str_bytes (lit ''Vanish'')" "[]"]
    by (simp add: c get_args_def ex_stub_def vanish_name)
  ultimately show ?thesis using md names' by (intro exI [of _ md] exI [of _ c]) (simp add: inventory_ex_def)
qed

theorem generated_metadata_reads_back_witness:
  "\<exists>md. gen_metadata inventory_casing ex_rt inventory_decls [] inventory_ex = Some md
     \<and> metadata_of_json (metadata_json md) = Some md"
proof -
  obtain md where md: "gen_metadata inventory_casing ex_rt inventory_decls [] inventory_ex = Some md"
    using metadata_routes [where ex = inventory_ex and rt = ex_rt and C = inventory_casing and v = "[]", OF inventory_decls_ok] by blast
  have "\<forall>tx\<in>set (ex_txs inventory_ex). map_option ex_rt (tm_ok_ty tx) \<noteq> Some RUnit"
    by (simp add: inventory_ex_def inventory_txs_def path_ty_def)
  moreover have "metadata_of_json (metadata_json md) = Some (without_null_returns md) \<and>
      ((\<forall>tx\<in>set (ex_txs inventory_ex). map_option ex_rt (tm_ok_ty tx) \<noteq> Some RUnit) \<longrightarrow> metadata_of_json (metadata_json md) = Some md)"
    using md inventory_decls_ok(1) inventory_typed by (rule generated_metadata_reads_back)
  ultimately show ?thesis using md by blast
qed

theorem published_schemas_accept_values_witness:
  "\<exists>md. gen_metadata inventory_casing ex_rt inventory_decls [] inventory_ex = Some md
     \<and> accepts (comp_schemas (md_components md)) (schema inventory_decls (RData (lit ''Item'')))
         (JObject [(lit ''ID'', JString (lit ''widget'')), (lit ''qty'', JNumber 42)])"
proof -
  obtain md where md: "gen_metadata inventory_casing ex_rt inventory_decls [] inventory_ex = Some md"
    using metadata_routes [where ex = inventory_ex and rt = ex_rt and C = inventory_casing and v = "[]", OF inventory_decls_ok] by blast
  let ?S = "[(lit ''Item'', item_struct)]"
  let ?v = "SStruct [Some (SString (lit ''widget'')), Some (SInt 42)]" and ?t = "path_ty ''Item''"
  have names: "names_ok inventory_decls" by (simp add: names_ok_def inventory_decls_def ran_def)
  have der: "derived inventory_casing ex_rt ?S inventory_decls"
    using derive_item by (simp add: derived_def inventory_decls_def)
  have plain: "list_all (\<lambda>(p, di). plain_struct inventory_casing plain_serde di) ?S"
    by (simp add: item_struct_def rename_to_def serde_attr_def path_ty_def plain_struct_simps)
      (simp add: lit_Cons numeral_2_eq_2)
  have tx: "inventory_txs ! 1 \<in> set (ex_txs inventory_ex)" "?t \<in> set (tx_types (inventory_txs ! 1))"
    by (simp_all add: inventory_ex_def inventory_txs_def tx_types_def)
  have struct: "struct_fields ?S (lit ''Item'') = Some ([],
      [\<lparr>sf_attrs = [rename_to ''ID''], sf_ident = lit ''id'', sf_ty = path_ty ''String''\<rparr>,
       \<lparr>sf_attrs = [], sf_ident = lit ''qty'', sf_ty = path_ty ''u32''\<rparr>])"
    by (simp add: struct_fields_def item_struct_def)
  have ok: "value_ok ex_rt ?S (ex_rt ?t) ?v"
    using struct by (simp add: path_ty_def value_ty_def int_ty_min_def int_ty_max_def)
  have "accepts (comp_schemas (md_components md)) (schema inventory_decls (ex_rt ?t)) (value_json plain_serde ex_rt ?S (ex_rt ?t) ?v)
      \<longleftrightarrow> nulls_omitted ex_rt ?S (ex_rt ?t) ?v"
    using md inventory_decls_ok(1) names inventory_typed der plain plain_serde_documented tx ok by (rule published_schemas_accept_values)
  with md struct show ?thesis
    by (intro exI [of _ md]) (simp add: path_ty_def plain_serde_def member_name_def rename_to_def serde_attr_def
        settings_def meta_settings_def serde_metas_def)
qed

theorem contract_call_runs_method_witness:
  "gen_invoke item_lib inventory_casing ex_rt inventory_decls (\<lambda>_ _ vs. Ret (Inr (hd vs))) inventory_ex
     (ex_stub (str_bytes (lit ''Inventory:'' @ lit ''Double'') # [str_bytes (show_int 7)]))
   = Ret (success (str_bytes (show_int 7)))"
proof -
  have find: "find (\<lambda>tx. tm_wire_name tx = lit ''Double'') (ex_txs inventory_ex) = Some (inventory_txs ! 2)"
    by (simp add: inventory_ex_def inventory_txs_def)
  have no: "uc (CHR '':'') \<notin> set (lit ''Double'')" by (simp add: lit_Cons)
  have args: "get_args (ex_stub (str_bytes (lit ''Inventory:'' @ lit ''Double'') # [str_bytes (show_int 7)]))
      = str_bytes (lit ''Inventory:'' @ lit ''Double'') # [str_bytes (show_int 7)]" by (simp add: get_args_def ex_stub_def)
  have ns: "lit ''Inventory:'' = [] \<or> (\<exists>s. lit ''Inventory:'' = s @ [uc (CHR '':'')])"
    by (intro disjI2 exI [of _ "lit ''Inventory''"]) (simp add: lit_def)
  have ty: "list_all2 (\<lambda>(i, t) v. has_type v (ex_rt t) \<and> ex_rt t \<in> {RString, RBool} \<union> range RInt)
      (tm_params (inventory_txs ! 2)) [VInt 7]"
    by (simp add: inventory_txs_def path_ty_def int_ty_min_def int_ty_max_def)
  have pay: "list_all2 (\<lambda>((i, t), v) raw. into_payload item_lib inventory_decls (ex_rt t) v = Inr raw)
      (zip (tm_params (inventory_txs ! 2)) [VInt 7]) [str_bytes (show_int 7)]"
    by (simp add: inventory_txs_def path_ty_def)
  from contract_call_runs_method [OF find no args ns ty pay, of inventory_casing "\<lambda>_ _ vs. Ret (Inr (hd vs))"]
  show ?thesis by (simp add: ok_rty_def inventory_txs_def path_ty_def del: str_bytes_append)
qed

theorem methods_receive_typed_arguments_witness:
  "\<exists>tx\<in>set (ex_txs inventory_ex). \<exists>vs :: item val list. list_all2 (\<lambda>(i, t) v. has_type v (ex_rt t)) (tm_params tx) vs
     \<and> gen_invoke item_lib inventory_casing ex_rt inventory_decls (\<lambda>_ _ _. Panic []) inventory_ex
         (ex_stub [str_bytes (lit ''Double''), str_bytes (show_int 300)]) = Panic []"
proof -
  have typed: "is_arg (ex_rt t) \<and> declared inventory_decls (ex_rt t)"
    if "tx \<in> set (ex_txs inventory_ex)" "(i, t) \<in> set (tm_params tx)" for tx i t
    using that by (auto simp: inventory_ex_def inventory_txs_def path_ty_def declared_def)
  have args: "get_args (ex_stub [str_bytes (lit ''Double''), str_bytes (show_int 300)])
      = str_bytes ([] @ lit ''Double'') # [str_bytes (show_int 300)]" by (simp add: get_args_def ex_stub_def)
  have find: "find (\<lambda>tx. tm_wire_name tx = lit ''Double'') (ex_txs inventory_ex) = Some (inventory_txs ! 2)"
    by (simp add: inventory_ex_def inventory_txs_def)
  let ?call = "gen_invoke item_lib inventory_casing ex_rt inventory_decls (\<lambda>_ _ _. Panic []) inventory_ex
         (ex_stub [str_bytes (lit ''Double''), str_bytes (show_int 300)])"
  have "?call = Panic []"
    by (subst invoke_routed [OF find _ args, where vs = "[VInt 300]"])
      (simp_all add: lit_Cons inventory_txs_def path_ty_def int_ty_min_def int_ty_max_def)
  with methods_receive_typed_arguments [where ex = inventory_ex and rt = ex_rt and D = inventory_decls and L = item_lib
      and C = inventory_casing and call = "\<lambda>_ _ _. Panic []" and stub = "ex_stub [str_bytes (lit ''Double''), str_bytes (show_int 300)]"]
    typed
  show ?thesis by auto
qed

theorem wrong_calls_run_nothing_witness:
  "gen_invoke item_lib inventory_casing ex_rt inventory_decls (\<lambda>_ _ _. Panic []) inventory_ex
     (ex_stub [str_bytes (lit ''Vanish'')]) = Ret (response_error (lit ''unknown function '' @ lit ''Vanish''))
   \<and> gen_invoke item_lib inventory_casing ex_rt inventory_decls (\<lambda>_ _ _. Panic []) inventory_ex
     (ex_stub []) = Ret (response_error (lit ''no function specified''))"
  using wrong_calls_run_nothing [where stub = "ex_stub [str_bytes (lit ''Vanish'')]" and L = item_lib and C = inventory_casing
      and rt = ex_rt and D = inventory_decls and ex = inventory_ex and call = "\<lambda>_ _ _. Panic []"]
    wrong_calls_run_nothing [where stub = "ex_stub []" and L = item_lib and C = inventory_casing
      and rt = ex_rt and D = inventory_decls and ex = inventory_ex and call = "\<lambda>_ _ _. Panic []"]
  by (simp add: get_args_def ex_stub_def vanish_name inventory_ex_def inventory_txs_def Let_def)

text \<open>A fourth transaction, \<open>my:Add\<close>, next to the three of the inventory.\<close>

theorem colon_names_are_unreachable_witness:
  "gen_invoke item_lib inventory_casing ex_rt inventory_decls (\<lambda>_ _ vs. Ret (Inr VUnit))
       (inventory_ex\<lparr>ex_txs := (inventory_txs ! 0)\<lparr>tm_wire_name := lit ''my:Add'', tm_params := []\<rparr> # inventory_txs\<rparr>)
       (ex_stub [str_bytes (lit ''my:Add'')]) = Ret (response_error (lit ''unknown function '' @ lit ''Add''))"
proof -
  let ?tx = "(inventory_txs ! 0)\<lparr>tm_wire_name := lit ''my:Add'', tm_params := []\<rparr>"
  let ?ex = "inventory_ex\<lparr>ex_txs := ?tx # inventory_txs\<rparr>" and ?stub = "ex_stub [str_bytes (lit ''my:Add'')]"
  have "?tx \<in> set (ex_txs ?ex)" "uc (CHR '':'') \<in> set (tm_wire_name ?tx)" by (simp_all add: lit_Cons)
  note never = conjunct1 [OF colon_names_are_unreachable [OF this, where stub = ?stub]]
  have "lit ''my:Add'' = lit ''my'' @ uc (CHR '':'') # lit ''Add''" by (simp add: lit_def)
  then have "after_last_colon (lit ''my:Add'') = lit ''Add''"
    by (simp only:) (rule after_last_colon_namespaced, simp add: lit_Cons)
  then show ?thesis unfolding never
    by (simp add: gen_invoke_def get_args_def ex_stub_def Let_def inventory_txs_def)
qed

end
