(* ===== verification/Session.thy ===== *)
theory Session imports System_Inv Mock_Peer
begin

section \<open>A transaction in the connection\<close>

text \<open>
  The sequential runs of theories \<open>Io\<close> and \<open>Handler\<close> against the concurrent connection of theory
  \<open>System\<close>. \<open>drive\<close> lets a program issue its requests in the connection, as strand 0 of a
  transaction task, with a peer that answers what the transport hands it; \<open>connection_transaction\<close> is
  the whole life of a transaction, from the message that spawns the task to the terminal message
  on the transport. The theorem says that both views agree, step for step what the
  program gets and what the peer sees, divergence included.
\<close>

declare split_paired_All [simp del] split_paired_Ex [simp del]

subsection \<open>Running a program in the connection\<close>

text \<open>One \<open>StubCore::request(..).await\<close>: the request goes out, the peer answers it, the result is received.\<close>

definition ask :: "('p \<Rightarrow> chaincode_message \<Rightarrow> (chaincode_message \<times> 'p) option) \<Rightarrow> prost \<Rightarrow> metadata_reply \<Rightarrow> clock \<Rightarrow>
    nat \<Rightarrow> msg_type \<Rightarrow> bytes \<Rightarrow> sys \<Rightarrow> 'p \<Rightarrow> ((shim_error + chaincode_message) \<times> sys \<times> 'p) option" where
  "ask serve P meta d i t b s p =
     Option.bind (sys_run P meta [Request i 0 t b, Acquire d i 0, StrandPush i 0, Transport] s) (\<lambda>s1.
     Option.bind (serve p (snd (last (s_sent s1)))) (\<lambda>(reply, p1).
     map_option (\<lambda>s2. (snd (last (tk_log (s_tasks s2 ! i))), s2, p1))
       (sys_run P meta [Inbound d reply, Receive i 0] s1)))"

partial_function (option) drive ::
  "('p \<Rightarrow> chaincode_message \<Rightarrow> (chaincode_message \<times> 'p) option) \<Rightarrow> prost \<Rightarrow> metadata_reply \<Rightarrow> clock \<Rightarrow>
    nat \<Rightarrow> sys \<Rightarrow> 'p \<Rightarrow> 'a io \<Rightarrow> ((str + 'a) \<times> sys \<times> 'p) option" where
  "drive serve X meta d i s p m = (case m of
     Ret a \<Rightarrow> Some (Inr a, s, p)
   | Step e m' \<Rightarrow> (case e of
         None \<Rightarrow> drive serve X meta d i s p m'
       | Some ev \<Rightarrow> Option.bind (sys_step X meta (EmitEvent i ev) s) (\<lambda>s1. drive serve X meta d i s1 p m'))
   | Req t b k \<Rightarrow> Option.bind (ask serve X meta d i t b s p) (\<lambda>rsp.
         drive serve X meta d i (fst (snd rsp)) (snd (snd rsp)) (k (fst rsp)))
   | Panic text \<Rightarrow> Some (Inl text, s, p))"

text \<open>The task sends its terminal message and the transport takes it.\<close>

definition send_terminal :: "prost \<Rightarrow> metadata_reply \<Rightarrow> nat \<Rightarrow> sys \<Rightarrow> 'p \<Rightarrow> (chaincode_message \<times> sys \<times> 'p) option" where
  "send_terminal P meta i s p =
     map_option (\<lambda>s'. (snd (last (s_sent s')), s', p)) (sys_run P meta [TaskPush i, Transport] s)"

definition connection_transaction :: "prost \<Rightarrow> (str \<Rightarrow> str) \<Rightarrow> chaincode \<Rightarrow>
    ('p \<Rightarrow> chaincode_message \<Rightarrow> (chaincode_message \<times> 'p) option) \<Rightarrow> clock \<Rightarrow> chaincode_message \<Rightarrow> sys \<Rightarrow> 'p \<Rightarrow>
    (chaincode_message \<times> sys \<times> 'p) option" where
  "connection_transaction P join_error cc serve d msg s p =
     (let meta = cc_metadata cc; i = length (s_tasks s) in
      Option.bind (sys_run P meta [Inbound d msg, Prepare d i] s) (\<lambda>s1.
        case tk_stub (s_tasks s1 ! i) of
          None \<Rightarrow> send_terminal P meta i s1 p
        | Some (is_init, stub) \<Rightarrow>
            Option.bind (drive serve P meta d i s1 p ((if is_init then cc_init cc else cc_invoke cc) stub)) (\<lambda>(r, s2, p2).
              let outcome = (case r of Inl panic \<Rightarrow> Panicked (join_error panic) | Inr resp \<Rightarrow> Returned resp) in
              Option.bind (sys_run P meta [UserDone i outcome, CleanUp d i] s2) (\<lambda>s3.
                send_terminal P meta i s3 p2))))"

subsection \<open>One request\<close>

text \<open>The connection reads, has nothing to send, and no request is pending.\<close>

definition quiet :: "sys \<Rightarrow> bool" where
  "quiet s \<longleftrightarrow> s_loop s = Reading Ready \<and> s_open s \<and> s_out s = [] \<and> s_pending s = Map.empty"

text \<open>Task \<open>i\<close> runs the user's code of the transaction \<open>key\<close>, and strand 0 is not in a request.\<close>

definition between_calls :: "nat \<Rightarrow> tx_key \<Rightarrow> chaincode_event option \<Rightarrow> sys \<Rightarrow> bool" where
  "between_calls i key ev s \<longleftrightarrow> quiet s \<and> i < length (s_tasks s)
     \<and> tkey (s_tasks s ! i) = key \<and> tk_phase (s_tasks s ! i) = Running \<and> tk_stub (s_tasks s ! i) \<noteq> None
     \<and> tk_gate (s_tasks s ! i) = None \<and> tk_strands (s_tasks s ! i) 0 = Idle \<and> tk_event (s_tasks s ! i) = ev"

text \<open>The peer answers ledger requests only, with a RESPONSE or an ERROR for the same transaction.\<close>

definition answers_requests :: "('p \<Rightarrow> chaincode_message \<Rightarrow> (chaincode_message \<times> 'p) option) \<Rightarrow> bool" where
  "answers_requests serve \<longleftrightarrow> (\<forall>p m reply p'. serve p m = Some (reply, p') \<longrightarrow>
     cm_kind m \<in> set LEDGER_REQUESTS \<and> reply_kind (cm_kind reply) \<and> key_of reply = key_of m)"

lemmas session_simps = sys_step_def inbound_def prepare_def request_def acquire_def strand_push_def receive_def
  transport_def user_done_def clean_up_def task_push_def emit_event_def route_response_def Let_def out_full_def OUT_CAPACITY_def

lemma request_sent:
  assumes "between_calls i (ch, tx) ev s" and "t \<in> set LEDGER_REQUESTS"
  shows "\<exists>s1. sys_run P meta [Request i 0 t b, Acquire d i 0, StrandPush i 0, Transport] s = Some s1
    \<and> snd (last (s_sent s1)) = new_message d t b ch tx \<and> s_loop s1 = Reading Ready \<and> s_open s1 \<and> s_out s1 = []
    \<and> i < length (s_tasks s1) \<and> tkey (s_tasks s1 ! i) = (ch, tx) \<and> tk_phase (s_tasks s1 ! i) = Running
    \<and> tk_stub (s_tasks s1 ! i) \<noteq> None \<and> tk_event (s_tasks s1 ! i) = ev
    \<and> (\<exists>c. tk_strands (s_tasks s1 ! i) 0 = AwaitReply c \<and> s_pending s1 = [(ch, tx) \<mapsto> c])"
  using assms by (simp add: between_calls_def quiet_def session_simps)

lemma reply_received:
  assumes "s_loop s1 = Reading Ready" and "s_open s1" and "s_out s1 = []" and "i < length (s_tasks s1)"
    and "tkey (s_tasks s1 ! i) = (ch, tx)" and "tk_phase (s_tasks s1 ! i) = Running"
    and "tk_stub (s_tasks s1 ! i) \<noteq> None" and "tk_event (s_tasks s1 ! i) = ev"
    and "tk_strands (s_tasks s1 ! i) 0 = AwaitReply c" and "s_pending s1 = [(ch, tx) \<mapsto> c]"
    and "reply_kind (cm_kind reply)" and "key_of reply = (ch, tx)"
  shows "\<exists>s2. sys_run P meta [Inbound d reply, Receive i 0] s1 = Some s2
    \<and> snd (last (tk_log (s_tasks s2 ! i))) = classify_reply reply \<and> between_calls i (ch, tx) ev s2"
proof -
  have "dispatch Ready (cm_kind reply) = RouteResponse"
    using assms(11) by (auto simp: dispatch_def reply_kind_def)
  with assms show ?thesis by (simp add: between_calls_def quiet_def session_simps)
qed

text \<open>A request in the connection is a request to the environment of the sequential runs.\<close>

lemma ask_link:
  assumes "answers_requests serve" and "between_calls i (ch, tx) ev s"
  shows "case link_env serve d ch tx p t b of
     None \<Rightarrow> ask serve P meta d i t b s p = None
   | Some (r, p1) \<Rightarrow> \<exists>s2. ask serve P meta d i t b s p = Some (r, s2, p1) \<and> between_calls i (ch, tx) ev s2"
proof (cases "serve p (new_message d t b ch tx)")
  case None
  show ?thesis
  proof (cases "t \<in> set LEDGER_REQUESTS")
    case True
    from request_sent [OF assms(2) this, of P meta b d] None show ?thesis
      by (auto simp: ask_def link_env_def simp del: sys_run.simps)
  next
    case False
    with None show ?thesis by (simp add: ask_def link_env_def session_simps)
  qed
next
  case (Some rp)
  obtain reply p1 where rp: "rp = (reply, p1)" by fastforce
  from assms(1) Some rp have ok: "t \<in> set LEDGER_REQUESTS" "reply_kind (cm_kind reply)" "key_of reply = (ch, tx)"
    unfolding answers_requests_def by (metis new_message_sel)+
  from request_sent [OF assms(2) ok(1), of P meta b d] obtain s1 c where
    s1: "sys_run P meta [Request i 0 t b, Acquire d i 0, StrandPush i 0, Transport] s = Some s1"
      "snd (last (s_sent s1)) = new_message d t b ch tx"
    and more: "s_loop s1 = Reading Ready" "s_open s1" "s_out s1 = []" "i < length (s_tasks s1)"
      "tkey (s_tasks s1 ! i) = (ch, tx)" "tk_phase (s_tasks s1 ! i) = Running"
      "tk_stub (s_tasks s1 ! i) \<noteq> None" "tk_event (s_tasks s1 ! i) = ev"
      "tk_strands (s_tasks s1 ! i) 0 = AwaitReply c" "s_pending s1 = [(ch, tx) \<mapsto> c]"
    by blast
  from reply_received [OF more ok(2,3), of P meta d] s1 Some rp show ?thesis
    by (auto simp: ask_def link_env_def simp del: sys_run.simps)
qed

lemma emit_event_between:
  assumes "between_calls i key ev s"
  shows "\<exists>s1. sys_step P meta (EmitEvent i e) s = Some s1 \<and> between_calls i key (Some e) s1"
  using assms by (simp add: between_calls_def quiet_def session_simps)

lemma drive_simps:
  "drive serve P meta d i s p (Ret a) = Some (Inr a, s, p)"
  "drive serve P meta d i s p (Tau m) = drive serve P meta d i s p m"
  "drive serve P meta d i s p (SetEvent e m) =
     Option.bind (sys_step P meta (EmitEvent i e) s) (\<lambda>s1. drive serve P meta d i s1 p m)"
  "drive serve P meta d i s p (Req t b k) = Option.bind (ask serve P meta d i t b s p) (\<lambda>rsp.
     drive serve P meta d i (fst (snd rsp)) (snd (snd rsp)) (k (fst rsp)))"
  "drive serve P meta d i s p (Panic text) = Some (Inl text, s, p)"
  by (subst drive.simps, simp)+

subsection \<open>A program's run\<close>

lemma drive_follows_run:
  assumes "run_io (link_env serve d ch tx) p ev m = Some out" and "answers_requests serve" and "between_calls i (ch, tx) ev s"
  shows "\<exists>s'. drive serve P meta d i s p m = Some (fst out, s', fst (snd out)) \<and> between_calls i (ch, tx) (snd (snd out)) s'"
  using assms
proof (induction "link_env serve d ch tx" p ev m out arbitrary: s rule: run_io.raw_induct [rotated, consumes 1])
  case (1 run_io' p ev m out)
  show ?case
  proof (cases m)
    case (Step e m')
    with 1(2) have run: "run_io' (link_env serve d ch tx) p (case e of None \<Rightarrow> ev | Some _ \<Rightarrow> e) m' = Some out" by simp
    show ?thesis
    proof (cases e)
      case None
      with 1(1) [OF run 1(3)] 1(4) Step show ?thesis by (simp add: drive_simps)
    next
      case (Some e')
      from emit_event_between [OF 1(4), of P meta e'] obtain s1 where
        s1: "sys_step P meta (EmitEvent i e') s = Some s1" "between_calls i (ch, tx) (Some e') s1" by blast
      with 1(1) [OF run 1(3)] Step Some show ?thesis by (simp add: drive_simps)
    qed
  next
    case (Req t b k)
    with 1(2) obtain r p1 where env: "link_env serve d ch tx p t b = Some (r, p1)"
      and run: "run_io' (link_env serve d ch tx) p1 ev (k r) = Some out" by (auto split: option.splits)
    from ask_link [OF 1(3,4), where p = p and t = t and b = b and P = P and meta = meta and d = d] env obtain s2 where
      "ask serve P meta d i t b s p = Some (r, s2, p1)" "between_calls i (ch, tx) ev s2" by auto
    with 1(1) [OF run 1(3)] Req show ?thesis by (simp add: drive_simps)
  qed (use 1 in \<open>auto simp: drive_simps\<close>)
qed

lemma drive_is_a_run:
  "drive serve P meta d i s p m = Some out \<Longrightarrow>
     \<forall>ev. answers_requests serve \<longrightarrow> between_calls i (ch, tx) ev s \<longrightarrow> (\<exists>out'. run_io (link_env serve d ch tx) p ev m = Some out')"
proof (induction rule: drive.raw_induct [rotated, consumes 1])
  case (1 drive' serve P meta d i s p m out)
  show ?case
  proof (intro allI impI)
    fix ev assume serve: "answers_requests serve" and s: "between_calls i (ch, tx) ev s"
    show "\<exists>out'. run_io (link_env serve d ch tx) p ev m = Some out'"
    proof (cases m)
      case (Step e m')
      show ?thesis
      proof (cases e)
        case None
        with 1(2) Step have "drive' serve P meta d i s p m' = Some out" by simp
        from 1(1) [OF this] serve s Step None show ?thesis by simp
      next
        case (Some e')
        from emit_event_between [OF s, of P meta e'] obtain s1 where
          s1: "sys_step P meta (EmitEvent i e') s = Some s1" "between_calls i (ch, tx) (Some e') s1" by blast
        with 1(2) Step Some have "drive' serve P meta d i s1 p m' = Some out" by simp
        from 1(1) [OF this] serve s1(2) Step Some show ?thesis by simp
      qed
    next
      case (Req t b k)
      note link = ask_link [OF serve s, where p = p and t = t and b = b and P = P and meta = meta and d = d]
      show ?thesis
      proof (cases "link_env serve d ch tx p t b")
        case None
        with link 1(2) Req show ?thesis by simp
      next
        case (Some rp)
        obtain r p1 where rp: "rp = (r, p1)" by fastforce
        with link Some obtain s2 where
          s2: "ask serve P meta d i t b s p = Some (r, s2, p1)" "between_calls i (ch, tx) ev s2" by auto
        with 1(2) Req have "drive' serve P meta d i s2 p1 (k r) = Some out" by simp
        from 1(1) [OF this] serve s2(2) Req Some rp show ?thesis by simp
      qed
    qed simp_all
  qed
qed

lemma drive_link:
  assumes "answers_requests serve" and "between_calls i (ch, tx) ev s"
  shows "case run_io (link_env serve d ch tx) p ev m of
     None \<Rightarrow> drive serve P meta d i s p m = None
   | Some (r, p', ev') \<Rightarrow> \<exists>s'. drive serve P meta d i s p m = Some (r, s', p') \<and> between_calls i (ch, tx) ev' s'"
proof (cases "run_io (link_env serve d ch tx) p ev m")
  case None
  then have "drive serve P meta d i s p m = None"
    using drive_is_a_run [of serve P meta d i s p m _ ch tx] assms by (cases "drive serve P meta d i s p m") auto
  with None show ?thesis by simp
next
  case (Some out)
  from drive_follows_run [OF this assms, of P meta] Some show ?thesis by (cases out) auto
qed

subsection \<open>A whole transaction\<close>

lemma transaction_started:
  assumes "quiet s" and "cm_kind msg = MT_Init \<or> cm_kind msg = MT_Transaction" and "i = length (s_tasks s)"
  shows "\<exists>s1. sys_run P meta [Inbound d msg, Prepare d i] s = Some s1 \<and>
    (case prepare_transaction P meta d msg of
       Answer m \<Rightarrow> quiet s1 \<and> i < length (s_tasks s1) \<and> tk_phase (s_tasks s1 ! i) = Sending m \<and> tk_stub (s_tasks s1 ! i) = None
     | RunUser b stub \<Rightarrow> between_calls i (key_of msg) None s1 \<and> tk_stub (s_tasks s1 ! i) = Some (b, stub))"
proof -
  have "dispatch Ready (cm_kind msg) = SpawnTransaction" using assms(2) by (auto simp: dispatch_def)
  with assms(1,3) show ?thesis
    by (cases "prepare_transaction P meta d msg") (simp_all add: quiet_def between_calls_def session_simps new_task_def tkey_def)
qed

lemma terminal_sent:
  assumes "quiet s" and "i < length (s_tasks s)" and "tk_phase (s_tasks s ! i) = Sending m"
  shows "\<exists>s'. send_terminal P meta i s p = Some (m, s', p) \<and> quiet s'"
  using assms by (simp add: send_terminal_def quiet_def session_simps)

lemma user_code_ended:
  assumes "between_calls i (ch, tx) ev s"
  shows "\<exists>s'. sys_run P meta [UserDone i outcome, CleanUp d i] s = Some s' \<and> quiet s' \<and> i < length (s_tasks s')
    \<and> tk_phase (s_tasks s' ! i) = Sending (completed_message P d ch tx (outcome_response outcome) ev)"
  using assms by (simp add: between_calls_def quiet_def session_simps)

lemma connection_transaction_link:
  assumes "answers_requests serve" and "quiet s" and "cm_kind msg = MT_Init \<or> cm_kind msg = MT_Transaction"
  shows "case run_transaction P join_error cc serve d msg p of
     None \<Rightarrow> connection_transaction P join_error cc serve d msg s p = None
   | Some (m, p') \<Rightarrow> \<exists>s'. connection_transaction P join_error cc serve d msg s p = Some (m, s', p') \<and> quiet s'"
proof -
  let ?i = "length (s_tasks s)" and ?meta = "cc_metadata cc"
  obtain ch tx where key: "cm_channel_id msg = ch" "cm_txid msg = tx" "key_of msg = (ch, tx)" by (simp add: key_of_def)
  from transaction_started [OF assms(2,3) refl, of P ?meta d] obtain s1 where
    s1: "sys_run P ?meta [Inbound d msg, Prepare d ?i] s = Some s1"
    and plan: "case prepare_transaction P ?meta d msg of
       Answer m \<Rightarrow> quiet s1 \<and> ?i < length (s_tasks s1) \<and> tk_phase (s_tasks s1 ! ?i) = Sending m \<and> tk_stub (s_tasks s1 ! ?i) = None
     | RunUser b stub \<Rightarrow> between_calls ?i (key_of msg) None s1 \<and> tk_stub (s_tasks s1 ! ?i) = Some (b, stub)" by blast
  show ?thesis
  proof (cases "prepare_transaction P ?meta d msg")
    case (Answer m)
    with plan terminal_sent [of s1 ?i m P ?meta p] s1 show ?thesis
      by (auto simp: connection_transaction_def run_transaction_def Let_def simp del: sys_run.simps)
  next
    case (RunUser b stub)
    let ?m = "(if b then cc_init cc else cc_invoke cc) stub"
    from RunUser plan key have s1_ok: "between_calls ?i (ch, tx) None s1" "tk_stub (s_tasks s1 ! ?i) = Some (b, stub)" by simp_all
    note drive = drive_link [OF assms(1) s1_ok(1), where d = d and p = p and m = ?m and P = P and meta = ?meta]
    show ?thesis
    proof (cases "run_io (link_env serve d ch tx) p None ?m")
      case None
      with drive RunUser s1 s1_ok key show ?thesis
        by (simp add: connection_transaction_def run_transaction_def Let_def del: sys_run.simps)
    next
      case (Some out)
      obtain r p2 ev where out: "out = (r, p2, ev)" by (cases out)
      let ?outcome = "case r of Inl panic \<Rightarrow> Panicked (join_error panic) | Inr resp \<Rightarrow> Returned resp"
      from drive Some out obtain s2 where s2: "drive serve P ?meta d ?i s1 p ?m = Some (r, s2, p2)"
        "between_calls ?i (ch, tx) ev s2" by auto
      from user_code_ended [OF s2(2), of P ?meta ?outcome d] obtain s3 where
        s3: "sys_run P ?meta [UserDone ?i ?outcome, CleanUp d ?i] s2 = Some s3" "quiet s3" "?i < length (s_tasks s3)"
          "tk_phase (s_tasks s3 ! ?i) = Sending (completed_message P d ch tx (outcome_response ?outcome) ev)" by blast
      from terminal_sent [OF s3(2-4), of P ?meta p2] s3(1) s2(1) s1 s1_ok(2) RunUser Some out key show ?thesis
        by (auto simp: connection_transaction_def run_transaction_def Let_def simp del: sys_run.simps)
    qed
  qed
qed

text \<open>Transactions one after the other on the same connection.\<close>

fun connection_transactions :: "prost \<Rightarrow> (str \<Rightarrow> str) \<Rightarrow> chaincode \<Rightarrow>
    ('p \<Rightarrow> chaincode_message \<Rightarrow> (chaincode_message \<times> 'p) option) \<Rightarrow> clock \<Rightarrow> chaincode_message list \<Rightarrow> sys \<Rightarrow> 'p \<Rightarrow>
    (chaincode_message list \<times> 'p) option" where
  "connection_transactions P je cc serve d [] s p = Some ([], p)"
| "connection_transactions P je cc serve d (m # ms) s p =
     Option.bind (connection_transaction P je cc serve d m s p) (\<lambda>(t, s', p').
     map_option (\<lambda>(ts, p''). (t # ts, p'')) (connection_transactions P je cc serve d ms s' p'))"

lemma connection_transactions_link:
  assumes "answers_requests serve" and "quiet s"
    and "list_all (\<lambda>m. cm_kind m = MT_Init \<or> cm_kind m = MT_Transaction) ms"
  shows "connection_transactions P je cc serve d ms s p = run_transactions P je cc serve d ms p"
  using assms(2,3)
proof (induction ms arbitrary: s p)
  case (Cons m ms)
  from Cons.prems connection_transaction_link [OF assms(1) Cons.prems(1), of m P je cc d p] Cons.IH
  show ?case by (auto split: option.splits)
qed simp

lemma mock_answers_requests: "answers_requests (mock_serve P)"
proof -
  have "cm_kind m \<in> set LEDGER_REQUESTS" if "serve_request P mp m = Some r" for mp m r
    using that by (cases "cm_kind m") (auto simp: serve_request_def LEDGER_REQUESTS_def)
  moreover have "key_of (mock_send t b (cm_channel_id m) (cm_txid m)) = key_of m" for t b m
    by (simp add: mock_send_def key_of_def)
  ultimately show ?thesis by (auto simp: answers_requests_def mock_serve_def reply_kind_def)
qed

text \<open>After the handshake a connection is ready and quiet.\<close>

definition handshake_actions :: "action list" where
  "handshake_actions = [LoopPush, Transport, Inbound None (plain_message MT_Registered []), Inbound None (plain_message MT_Ready [])]"

lemma handshake_quiet:
  "\<exists>s. sys_run P meta handshake_actions (sys_init P d cc_id) = Some s \<and> quiet s"
  by (simp add: handshake_actions_def sys_init_def loop_push_def dispatch_def quiet_def session_simps)

subsection \<open>Property\<close>

text \<open>C4. The connection runs transactions as the sequential semantics says: on a connection that is ready and
  quiet, any list of transaction messages, run through the loop's dispatch, the spawned task, the gate, the pending
  table, the channel and the transport against a peer that answers each request, gives the
  same terminal messages and leaves the peer in the same state as \<open>run_transaction\<close> on one message after
  the other, and comes to no end exactly when that does not.\<close>

theorem connection_runs_transactions:
  assumes "answers_requests serve" and "quiet s"
    and "list_all (\<lambda>m. cm_kind m = MT_Init \<or> cm_kind m = MT_Transaction) ms"
  shows "connection_transactions P je cc serve d ms s p = run_transactions P je cc serve d ms p"
  using assms by (rule connection_transactions_link)

text \<open>A chaincode whose \<open>invoke\<close> reads one key, against the test peer.\<close>

definition reading_chaincode :: chaincode where
  "reading_chaincode = \<lparr>cc_metadata = None, cc_init = \<lambda>_. Ret success_empty,
     cc_invoke = \<lambda>_. io_bind (sb_get_state wire_prost (lit ''a''))
       (\<lambda>r. Ret (response_from_result error_display (res_map success r)))\<rparr>"

theorem connection_runs_transactions_witness:
  "\<exists>s m p'. quiet s \<and> connection_transactions wire_prost id reading_chaincode (mock_serve wire_prost) None
        [start_tx wire_prost (lit ''t1'') [lit ''f''] None] s two_keys_peer = Some ([m], p')
     \<and> cm_kind m = MT_Completed \<and> decode (c_response wire_prost) (cm_payload m) = Inr (into_proto (success [1]))"
proof -
  obtain s where s: "quiet s" using handshake_quiet by blast
  have meta: "str_bytes (lit ''f'') \<noteq> str_bytes METADATA_FUNCTION" by (simp add: METADATA_FUNCTION_def)
  have run: "run_io (mock_env wire_prost None (lit ''testchannel'') (lit ''t1'')) two_keys_peer None (sb_get_state wire_prost (lit ''a''))
      = Some (Inr (Inr [1]), two_keys_peer, None)"
    unfolding sb_get_state_def mock_get [OF wire_prost_ok]
    by (simp add: two_keys_peer_def empty_peer_def ledger_def unwrap_or_default_def)
  have "\<exists>m p'. run_transactions wire_prost id reading_chaincode (mock_serve wire_prost) None
        [start_tx wire_prost (lit ''t1'') [lit ''f''] None] two_keys_peer = Some ([m], p')
      \<and> cm_kind m = MT_Completed \<and> decode (c_response wire_prost) (cm_payload m) = Inr (into_proto (success [1]))"
    using meta run by (simp add: run_transaction_def prepare_transaction_def stub_new_def reading_chaincode_def Let_def
        del: str_bytes_append)
  moreover have "connection_transactions wire_prost id reading_chaincode (mock_serve wire_prost) None
        [start_tx wire_prost (lit ''t1'') [lit ''f''] None] s two_keys_peer
      = run_transactions wire_prost id reading_chaincode (mock_serve wire_prost) None
        [start_tx wire_prost (lit ''t1'') [lit ''f''] None] two_keys_peer"
    by (rule connection_runs_transactions [OF mock_answers_requests s]) simp
  ultimately show ?thesis using s by metis
qed

end
