(* ===== verification/Asset_Transfer.thy ===== *)
theory Asset_Transfer imports Inventory Session
begin

section \<open>The asset transfer chaincode\<close>

text \<open>
  \<open>examples/asset-transfer/src/main.rs\<close>: the sample contract, its methods as programs over the stub,
  and its impl block as the contract macro sees it. An abstract specification, a map
  from identifiers to assets, is implemented by the methods run against the peer, and by whole
  transactions. The JSON of an asset (serde) is a parameter with the law that reading back
  what was written gives the same asset.
\<close>

subsection \<open>Assets and their JSON\<close>

record asset =
  as_id :: str
  as_color :: str
  as_size :: int
  as_owner :: str
  as_appraised_value :: int

record query_result =
  qres_key :: str
  qres_record :: asset

definition asset_ok :: "asset \<Rightarrow> bool" where
  "asset_ok a \<longleftrightarrow> 0 \<le> as_size a \<and> as_size a \<le> int_ty_max U32
     \<and> 0 \<le> as_appraised_value a \<and> as_appraised_value a \<le> int_ty_max U64"

record asset_json =
  aj_to_vec :: "asset \<Rightarrow> str + bytes"
  aj_from_slice :: "bytes \<Rightarrow> str + asset"
  aj_results_to_vec :: "query_result list \<Rightarrow> str + bytes"

definition json_ok :: "asset_json \<Rightarrow> bool" where
  "json_ok J \<longleftrightarrow> (\<forall>a. asset_ok a \<longrightarrow> (\<exists>b. aj_to_vec J a = Inr b \<and> b \<noteq> [] \<and> aj_from_slice J b = Inr a))"

subsection \<open>Helpers\<close>

definition missing_error :: "str \<Rightarrow> shim_error" where
  "missing_error key = ErrInvalidArgument (lit ''the asset '' @ key @ lit '' does not exist'')"

definition exists_error :: "str \<Rightarrow> shim_error" where
  "exists_error key = ErrInvalidArgument (lit ''the asset '' @ key @ lit '' already exists'')"

definition get_asset :: "prost \<Rightarrow> asset_json \<Rightarrow> str \<Rightarrow> (shim_error + asset) io" where
  "get_asset P J key = io_try (sb_get_state P key) (\<lambda>bytes.
     if bytes = [] then Ret (Inl (missing_error key))
     else Ret (res_map_err (\<lambda>e. ErrInvalidArgument (lit ''stored asset '' @ key @ lit '' is corrupt: '' @ e))
            (aj_from_slice J bytes)))"

definition put_asset :: "prost \<Rightarrow> asset_json \<Rightarrow> asset \<Rightarrow> (shim_error + unit) io" where
  "put_asset P J asset =
     io_ok (res_map_err (\<lambda>e. ErrInvalidArgument (lit ''serialize asset: '' @ e)) (aj_to_vec J asset)) (\<lambda>json.
       sb_put_state P (as_id asset) json)"

subsection \<open>The transactions\<close>

definition initial_assets :: "asset list" where
  "initial_assets = map (\<lambda>(i, c, s, p, v). \<lparr>as_id = lit i, as_color = lit c, as_size = s, as_owner = lit p, as_appraised_value = v\<rparr>)
     [(''asset1'', ''blue'', 5, ''Tomoko'', 300),
      (''asset2'', ''red'', 5, ''Brad'', 400),
      (''asset3'', ''green'', 10, ''Jin Soo'', 500),
      (''asset4'', ''yellow'', 10, ''Max'', 600),
      (''asset5'', ''black'', 15, ''Adriana'', 700),
      (''asset6'', ''white'', 15, ''Michel'', 800)]"

fun put_assets :: "prost \<Rightarrow> asset_json \<Rightarrow> asset list \<Rightarrow> (shim_error + unit) io" where
  "put_assets P J [] = Ret (Inr ())"
| "put_assets P J (a # as) = io_try (put_asset P J a) (\<lambda>_. put_assets P J as)"

definition init_ledger :: "prost \<Rightarrow> asset_json \<Rightarrow> (shim_error + unit) io" where
  "init_ledger P J = put_assets P J initial_assets"

definition create_asset :: "prost \<Rightarrow> asset_json \<Rightarrow> asset \<Rightarrow> (shim_error + unit) io" where
  "create_asset P J asset = io_try (sb_get_state P (as_id asset)) (\<lambda>bytes.
     if bytes \<noteq> [] then Ret (Inl (exists_error (as_id asset)))
     else put_asset P J asset)"

definition read_asset :: "prost \<Rightarrow> asset_json \<Rightarrow> str \<Rightarrow> (shim_error + asset) io" where
  "read_asset P J key = get_asset P J key"

definition update_asset :: "prost \<Rightarrow> asset_json \<Rightarrow> asset \<Rightarrow> (shim_error + unit) io" where
  "update_asset P J asset = io_try (get_asset P J (as_id asset)) (\<lambda>_. put_asset P J asset)"

definition delete_asset :: "prost \<Rightarrow> asset_json \<Rightarrow> str \<Rightarrow> (shim_error + unit) io" where
  "delete_asset P J key = io_try (get_asset P J key) (\<lambda>_. sb_del_state P key)"

definition asset_exists :: "prost \<Rightarrow> str \<Rightarrow> (shim_error + bool) io" where
  "asset_exists P key = io_try (sb_get_state P key) (\<lambda>bytes. Ret (Inr (bytes \<noteq> [])))"

definition transfer_asset :: "prost \<Rightarrow> asset_json \<Rightarrow> stub \<Rightarrow> str \<Rightarrow> str \<Rightarrow> (shim_error + str) io" where
  "transfer_asset P J stub key new_owner = io_try (get_asset P J key) (\<lambda>asset.
     let old_owner = as_owner asset; asset = asset\<lparr>as_owner := new_owner\<rparr> in
     io_try (put_asset P J asset) (\<lambda>_.
       case aj_to_vec J asset of
         Inl e \<Rightarrow> Panic e
       | Inr json \<Rightarrow> io_try (set_event stub (lit ''AssetTransferred'') json) (\<lambda>_. Ret (Inr old_owner))))"

definition get_all_assets :: "prost \<Rightarrow> asset_json \<Rightarrow> (shim_error + query_result list) io" where
  "get_all_assets P J = io_try (sb_get_state_by_range P [] []) (\<lambda>iter.
     io_try (collect_remaining P iter) (\<lambda>kvs.
       Ret (Inr (List.map_filter (\<lambda>kv. case aj_from_slice J (kv_value kv) of
           Inl _ \<Rightarrow> None
         | Inr record \<Rightarrow> Some \<lparr>qres_key = kv_key kv, qres_record = record\<rparr>) kvs))))"

definition read_transient :: "stub \<Rightarrow> (shim_error + str) io" where
  "read_transient stub =
     io_ok (ok_or_else (ErrInvalidArgument (lit ''transient field asset_properties not set''))
         (fmlookup (get_transient stub) (lit ''asset_properties''))) (\<lambda>value.
       Ret (res_map_err (\<lambda>e. ErrInvalidArgument (utf8_error_display e)) (from_utf8 value)))"

subsection \<open>The specification\<close>

datatype asset_op =
    InitLedger
  | CreateAsset asset
  | ReadAsset str
  | UpdateAsset asset
  | DeleteAsset str
  | AssetExists str
  | TransferAsset str str

datatype asset_result = Done | TheAsset asset | TheBool bool | TheOwner str

text \<open>On a map from identifiers to assets: the result and the new map.\<close>

fun asset_spec :: "asset_op \<Rightarrow> (str \<rightharpoonup> asset) \<Rightarrow> (shim_error + asset_result) \<times> (str \<rightharpoonup> asset)" where
  "asset_spec InitLedger A = (Inr Done, A ++ map_of (map (\<lambda>a. (as_id a, a)) initial_assets))"
| "asset_spec (CreateAsset a) A =
     (if A (as_id a) \<noteq> None then (Inl (exists_error (as_id a)), A)
      else if as_id a = [] then (Inl (ErrInvalidArgument (lit ''key must not be empty'')), A)
      else (Inr Done, A(as_id a \<mapsto> a)))"
| "asset_spec (ReadAsset k) A = (case A k of None \<Rightarrow> (Inl (missing_error k), A) | Some a \<Rightarrow> (Inr (TheAsset a), A))"
| "asset_spec (UpdateAsset a) A = (case A (as_id a) of None \<Rightarrow> (Inl (missing_error (as_id a)), A)
     | Some _ \<Rightarrow> (Inr Done, A(as_id a \<mapsto> a)))"
| "asset_spec (DeleteAsset k) A = (case A k of None \<Rightarrow> (Inl (missing_error k), A) | Some _ \<Rightarrow> (Inr Done, A(k := None)))"
| "asset_spec (AssetExists k) A = (Inr (TheBool (A k \<noteq> None)), A)"
| "asset_spec (TransferAsset k new_owner) A = (case A k of None \<Rightarrow> (Inl (missing_error k), A)
     | Some a \<Rightarrow> (Inr (TheOwner (as_owner a)), A(k \<mapsto> a\<lparr>as_owner := new_owner\<rparr>)))"

definition wrap_result :: "('a \<Rightarrow> 'b) \<Rightarrow> (shim_error + 'a) io \<Rightarrow> (shim_error + 'b) io" where
  "wrap_result f m = io_bind m (\<lambda>r. Ret (res_map f r))"

fun asset_program :: "prost \<Rightarrow> asset_json \<Rightarrow> stub \<Rightarrow> asset_op \<Rightarrow> (shim_error + asset_result) io" where
  "asset_program P J stub InitLedger = wrap_result (\<lambda>_. Done) (init_ledger P J)"
| "asset_program P J stub (CreateAsset a) = wrap_result (\<lambda>_. Done) (create_asset P J a)"
| "asset_program P J stub (ReadAsset k) = wrap_result TheAsset (read_asset P J k)"
| "asset_program P J stub (UpdateAsset a) = wrap_result (\<lambda>_. Done) (update_asset P J a)"
| "asset_program P J stub (DeleteAsset k) = wrap_result (\<lambda>_. Done) (delete_asset P J k)"
| "asset_program P J stub (AssetExists k) = wrap_result TheBool (asset_exists P k)"
| "asset_program P J stub (TransferAsset k o') = wrap_result TheOwner (transfer_asset P J stub k o')"

fun op_ok :: "asset_op \<Rightarrow> bool" where
  "op_ok (CreateAsset a) = asset_ok a"
| "op_ok (UpdateAsset a) = asset_ok a"
| "op_ok _ = True"

text \<open>The assets of a ledger, and the invariant: every entry of the world state is the JSON of an asset,
  under the asset's own identifier.\<close>

definition assets :: "asset_json \<Rightarrow> mock_peer \<Rightarrow> str \<rightharpoonup> asset" where
  "assets J mp k = (case ledger mp [] k of None \<Rightarrow> None
     | Some b \<Rightarrow> (case aj_from_slice J b of Inl _ \<Rightarrow> None | Inr a \<Rightarrow> Some a))"

definition assets_inv :: "asset_json \<Rightarrow> mock_peer \<Rightarrow> bool" where
  "assets_inv J mp \<longleftrightarrow> (\<forall>k b. ledger mp [] k = Some b \<longrightarrow>
     k \<noteq> [] \<and> b \<noteq> [] \<and> (\<exists>a. aj_from_slice J b = Inr a \<and> as_id a = k \<and> asset_ok a))"

subsection \<open>Steps against the peer\<close>

lemma assets_None [simp]: "ledger mp [] k = None \<Longrightarrow> assets J mp k = None"
  by (simp add: assets_def)

lemma assets_Some:
  assumes "assets_inv J mp" and "ledger mp [] k = Some b"
  shows "\<exists>a. assets J mp k = Some a \<and> aj_from_slice J b = Inr a \<and> as_id a = k \<and> asset_ok a \<and> k \<noteq> [] \<and> b \<noteq> []"
proof -
  from assms obtain a where "aj_from_slice J b = Inr a" "as_id a = k" "asset_ok a" "k \<noteq> []" "b \<noteq> []"
    unfolding assets_inv_def by blast
  with assms(2) show ?thesis by (simp add: assets_def)
qed

lemma assets_put:
  assumes "aj_from_slice J b = Inr a" and "ledger mp' = ledger_upd [] k (Some b) (ledger mp)"
  shows "assets J mp' = (assets J mp)(k \<mapsto> a)"
  using assms by (auto simp: assets_def ledger_upd_def fun_eq_iff)

lemma assets_del:
  assumes "ledger mp' = ledger_upd [] k None (ledger mp)"
  shows "assets J mp' = (assets J mp)(k := None)"
  using assms by (auto simp: assets_def ledger_upd_def fun_eq_iff)

lemma assets_inv_put:
  assumes "assets_inv J mp" and "aj_from_slice J b = Inr a" and "asset_ok a" and "b \<noteq> []" and "as_id a \<noteq> []"
    and "ledger mp' = ledger_upd [] (as_id a) (Some b) (ledger mp)"
  shows "assets_inv J mp'"
  using assms by (auto simp: assets_inv_def ledger_upd_def)

lemma assets_inv_del:
  "assets_inv J mp \<Longrightarrow> ledger mp' = ledger_upd [] k None (ledger mp) \<Longrightarrow> assets_inv J mp'"
  by (auto simp: assets_inv_def ledger_upd_def)

lemma run_wrap_result [simp, run_simps]:
  "run_io env p ev (wrap_result f m) = run_then (run_io env p ev m) (\<lambda>r p' ev'. Some (Inr (res_map f r), p', ev'))"
  by (simp add: wrap_result_def)

lemma run_state:
  assumes "prost_ok P"
  shows "run_io (mock_env P d ch tx) mp ev (sb_get_state P k) = Some (Inr (Inr (unwrap_or_default (ledger mp [] k))), mp, ev)"
  unfolding sb_get_state_def by (rule mock_get [OF assms])

lemma run_get_asset:
  assumes P: "prost_ok P" and "assets_inv J mp"
  shows "run_io (mock_env P d ch tx) mp ev (get_asset P J k) = Some (Inr (case assets J mp k of
      None \<Rightarrow> Inl (missing_error k) | Some a \<Rightarrow> Inr a), mp, ev)"
  using assets_Some [OF assms(2), of k]
  by (cases "ledger mp [] k") (auto simp: get_asset_def run_state [OF P] unwrap_or_default_def)

lemma run_put_asset:
  assumes P: "prost_ok P" and J: "json_ok J" and a: "asset_ok a" "as_id a \<noteq> []" and inv: "assets_inv J mp"
  shows "\<exists>mp'. run_io (mock_env P d ch tx) mp ev (put_asset P J a) = Some (Inr (Inr ()), mp', ev)
    \<and> assets J mp' = (assets J mp)(as_id a \<mapsto> a) \<and> assets_inv J mp'"
proof -
  obtain b where b: "aj_to_vec J a = Inr b" "b \<noteq> []" "aj_from_slice J b = Inr a"
    using J a(1) by (auto simp: json_ok_def)
  obtain mp' where put: "run_io (mock_env P d ch tx) mp ev (put_data P [] (as_id a) b) = Some (Inr (Inr ()), mp', ev)"
    and led: "ledger mp' = ledger_upd [] (as_id a) (Some b) (ledger mp)"
    using mock_put [OF P a(2)] by blast
  have "run_io (mock_env P d ch tx) mp ev (put_asset P J a) = Some (Inr (Inr ()), mp', ev)"
    using put b by (simp add: put_asset_def sb_put_state_def del: run_put_data)
  with assets_put [OF b(3) led] assets_inv_put [OF inv b(3) a(1) b(2) a(2) led] show ?thesis by blast
qed

lemma run_put_assets:
  assumes P: "prost_ok P" and J: "json_ok J" and "\<And>a. a \<in> set as \<Longrightarrow> asset_ok a \<and> as_id a \<noteq> []" and "distinct (map as_id as)" and "assets_inv J mp"
  shows "\<exists>mp'. run_io (mock_env P d ch tx) mp ev (put_assets P J as) = Some (Inr (Inr ()), mp', ev)
    \<and> assets J mp' = assets J mp ++ map_of (map (\<lambda>a. (as_id a, a)) as) \<and> assets_inv J mp'"
  using assms(3-)
proof (induction "as" arbitrary: mp)
  case (Cons a "as")
  from Cons.prems run_put_asset [OF P J, of a mp d ch tx ev] obtain mp1 where
    mp1: "run_io (mock_env P d ch tx) mp ev (put_asset P J a) = Some (Inr (Inr ()), mp1, ev)"
      "assets J mp1 = (assets J mp)(as_id a \<mapsto> a)" "assets_inv J mp1" by auto
  from Cons.IH [OF _ _ mp1(3)] Cons.prems obtain mp2 where
    mp2: "run_io (mock_env P d ch tx) mp1 ev (put_assets P J as) = Some (Inr (Inr ()), mp2, ev)"
      "assets J mp2 = assets J mp1 ++ map_of (map (\<lambda>a. (as_id a, a)) as)" "assets_inv J mp2" by auto
  let ?m = "map_of (map (\<lambda>a. (as_id a, a)) as)"
  have "as_id a \<notin> dom ?m"
    using Cons.prems(2) by (simp add: dom_map_of_conv_image_fst image_image)
  then have "(assets J mp)(as_id a \<mapsto> a) ++ ?m = assets J mp ++ ?m(as_id a \<mapsto> a)"
    by (auto simp: fun_eq_iff map_add_def domIff split: option.split)
  then have "assets J mp2 = assets J mp ++ map_of (map (\<lambda>a. (as_id a, a)) (a # as))"
    unfolding mp2(2) mp1(2) by simp
  with mp1(1) mp2(1,3) show ?case by (simp del: map_of.simps)
qed simp

lemma run_del_asset:
  assumes P: "prost_ok P" and inv: "assets_inv J mp"
  shows "\<exists>mp'. run_io (mock_env P d ch tx) mp ev (sb_del_state P k) = Some (Inr (Inr ()), mp', ev)
    \<and> assets J mp' = (assets J mp)(k := None) \<and> assets_inv J mp'"
proof -
  obtain mp' where "run_io (mock_env P d ch tx) mp ev (del_data P [] k) = Some (Inr (Inr ()), mp', ev)"
    and led: "ledger mp' = ledger_upd [] k None (ledger mp)"
    using mock_del [OF P] by blast
  then show ?thesis
    using assets_del [OF led] assets_inv_del [OF inv led] by (auto simp: sb_del_state_def simp del: run_del_data)
qed

lemma initial_assets_ok:
  "a \<in> set initial_assets \<Longrightarrow> asset_ok a \<and> as_id a \<noteq> []" "distinct (map as_id initial_assets)"
  by (auto simp: initial_assets_def asset_ok_def int_ty_max_def)

text \<open>Every stored asset is well formed and under its own identifier.\<close>

lemma assets_stored:
  "assets_inv J mp \<Longrightarrow> assets J mp k = Some a \<Longrightarrow> as_id a = k \<and> asset_ok a \<and> k \<noteq> []"
  using assets_Some [of J mp k] by (cases "ledger mp [] k") auto

lemma assets_exists:
  "assets_inv J mp \<Longrightarrow> unwrap_or_default (ledger mp [] k) \<noteq> [] \<longleftrightarrow> assets J mp k \<noteq> None"
  using assets_Some [of J mp k] by (cases "ledger mp [] k") (auto simp: unwrap_or_default_def)

lemma put_empty_key:
  assumes "json_ok J" and "asset_ok a" and "as_id a = []"
  shows "put_asset P J a = Ret (Inl (ErrInvalidArgument (lit ''key must not be empty'')))"
  using assms by (auto simp: put_asset_def json_ok_def sb_put_state_def put_data_def)

text \<open>The event a successful transfer sets.\<close>

definition transfer_event :: "asset_json \<Rightarrow> stub \<Rightarrow> asset_op \<Rightarrow> (str \<rightharpoonup> asset) \<Rightarrow> chaincode_event option \<Rightarrow> chaincode_event option" where
  "transfer_event J stub op A ev = (case op of
     TransferAsset k new_owner \<Rightarrow> (case A k of None \<Rightarrow> ev
       | Some a \<Rightarrow> (case aj_to_vec J (a\<lparr>as_owner := new_owner\<rparr>) of Inl _ \<Rightarrow> ev
           | Inr json \<Rightarrow> Some \<lparr>ev_chaincode_id = [], ev_tx_id = sb_tx_id stub,
               ev_event_name = lit ''AssetTransferred'', ev_payload = json\<rparr>))
   | _ \<Rightarrow> ev)"

definition implements :: "prost \<Rightarrow> asset_json \<Rightarrow> stub \<Rightarrow> asset_op \<Rightarrow> mock_peer env \<Rightarrow> mock_peer \<Rightarrow> chaincode_event option \<Rightarrow> bool" where
  "implements P J stub op env mp ev \<longleftrightarrow> (\<exists>r mp'. run_io env mp ev (asset_program P J stub op)
       = Some (Inr r, mp', transfer_event J stub op (assets J mp) ev)
     \<and> (r, assets J mp') = asset_spec op (assets J mp) \<and> assets_inv J mp')"

lemma implements_create:
  assumes P: "prost_ok P" and J: "json_ok J" and inv: "assets_inv J mp" and a: "asset_ok a"
  shows "implements P J stub (CreateAsset a) (mock_env P d ch tx) mp ev"
proof (cases "assets J mp (as_id a)")
  case None
  show ?thesis
  proof (cases "as_id a = []")
    case True
    with None put_empty_key [OF J a True, of P] inv assets_exists [OF inv, of "as_id a"] show ?thesis
      by (auto simp: implements_def create_asset_def run_state [OF P] transfer_event_def)
  next
    case False
    from run_put_asset [OF P J a False inv, of d ch tx ev] False None inv assets_exists [OF inv, of "as_id a"] show ?thesis
      by (auto simp: implements_def create_asset_def run_state [OF P] transfer_event_def)
  qed
next
  case (Some b)
  with inv assets_exists [OF inv, of "as_id a"] show ?thesis
    by (auto simp: implements_def create_asset_def run_state [OF P] transfer_event_def)
qed

lemma implements_update:
  assumes P: "prost_ok P" and J: "json_ok J" and inv: "assets_inv J mp" and a: "asset_ok a"
  shows "implements P J stub (UpdateAsset a) (mock_env P d ch tx) mp ev"
proof (cases "assets J mp (as_id a)")
  case None
  with inv show ?thesis by (simp add: implements_def update_asset_def run_get_asset [OF P inv] transfer_event_def)
next
  case (Some b)
  with assets_stored [OF inv this] run_put_asset [OF P J a _ inv, of d ch tx ev] show ?thesis
    by (auto simp: implements_def update_asset_def run_get_asset [OF P inv] transfer_event_def)
qed

lemma implements_transfer:
  assumes P: "prost_ok P" and J: "json_ok J" and inv: "assets_inv J mp"
  shows "implements P J stub (TransferAsset k new_owner) (mock_env P d ch tx) mp ev"
proof (cases "assets J mp k")
  case None
  with inv show ?thesis by (simp add: implements_def transfer_asset_def run_get_asset [OF P inv] transfer_event_def)
next
  case (Some a)
  let ?a = "a\<lparr>as_owner := new_owner\<rparr>"
  from assets_stored [OF inv Some] have ok: "asset_ok ?a" "as_id ?a \<noteq> []" "as_id ?a = k" by (simp_all add: asset_ok_def)
  from J ok(1) obtain b where "aj_to_vec J ?a = Inr b" by (auto simp: json_ok_def)
  with Some run_put_asset [OF P J ok(1,2) inv, of d ch tx ev] ok(3) show ?thesis
    by (auto simp: implements_def transfer_asset_def run_get_asset [OF P inv] transfer_event_def)
qed

lemma implements_others:
  assumes P: "prost_ok P" and J: "json_ok J" and inv: "assets_inv J mp"
  shows "implements P J stub InitLedger (mock_env P d ch tx) mp ev"
    and "implements P J stub (ReadAsset k) (mock_env P d ch tx) mp ev"
    and "implements P J stub (DeleteAsset k) (mock_env P d ch tx) mp ev"
    and "implements P J stub (AssetExists k) (mock_env P d ch tx) mp ev"
proof -
  show "implements P J stub InitLedger (mock_env P d ch tx) mp ev"
    using run_put_assets [OF P J initial_assets_ok inv, of d ch tx ev]
    by (auto simp: implements_def init_ledger_def transfer_event_def)
  show "implements P J stub (ReadAsset k) (mock_env P d ch tx) mp ev"
    using inv by (auto simp: implements_def read_asset_def run_get_asset [OF P inv] transfer_event_def split: option.split)
  show "implements P J stub (DeleteAsset k) (mock_env P d ch tx) mp ev"
    using inv run_del_asset [OF P inv, of d ch tx ev k]
    by (auto simp: implements_def delete_asset_def run_get_asset [OF P inv] transfer_event_def split: option.split)
  show "implements P J stub (AssetExists k) (mock_env P d ch tx) mp ev"
    using inv assets_exists [OF inv, of k]
    by (auto simp: implements_def asset_exists_def run_state [OF P] transfer_event_def)
qed

lemma asset_program_implements:
  assumes "prost_ok P" and "json_ok J" and "assets_inv J mp" and "op_ok op"
  shows "implements P J stub op (mock_env P d ch tx) mp ev"
  using assms implements_create implements_update implements_transfer implements_others
  by (cases op) (simp_all del: asset_program.simps)

subsection \<open>The contract\<close>

text \<open>The impl block, the structs, and the case conversions of their names.\<close>

definition asset_method :: "string \<Rightarrow> attribute \<Rightarrow> (string \<times> string) list \<Rightarrow> ty \<Rightarrow> impl_item" where
  "asset_method name attr params ret = ImplFn \<lparr>me_attrs = [attr], me_ident = lit name, me_async = True,
     me_inputs = Receiver # typed_arg ''ctx'' TyOther # map (\<lambda>(i, t). typed_arg i (path_ty t)) params,
     me_output = ReturnType (result_ty ret)\<rparr>"

definition vec_ty :: "ty \<Rightarrow> ty" where
  "vec_ty t = TyPath [Segment (lit ''Vec'') (AngleBracketed [GenericType t])]"

definition asset_impl :: item_impl where
  "asset_impl = \<lparr>ii_generic = False, ii_self_ty = path_ty ''AssetTransfer'', ii_items =
     [asset_method ''init_ledger'' (transaction_attr []) [] (TyTuple []),
      asset_method ''create_asset'' (transaction_attr []) [(''id'', ''String''), (''color'', ''String''), (''size'', ''u32''),
        (''owner'', ''String''), (''appraised_value'', ''u64'')] (TyTuple []),
      asset_method ''read_asset'' evaluate_attr [(''id'', ''String'')] (path_ty ''Asset''),
      asset_method ''update_asset'' (transaction_attr []) [(''id'', ''String''), (''color'', ''String''), (''size'', ''u32''),
        (''owner'', ''String''), (''appraised_value'', ''u64'')] (TyTuple []),
      asset_method ''delete_asset'' (transaction_attr []) [(''id'', ''String'')] (TyTuple []),
      asset_method ''asset_exists'' evaluate_attr [(''id'', ''String'')] (path_ty ''bool''),
      asset_method ''transfer_asset'' (transaction_attr []) [(''id'', ''String''), (''new_owner'', ''String'')] (path_ty ''String''),
      asset_method ''get_all_assets'' evaluate_attr [] (vec_ty (path_ty ''QueryResult'')),
      asset_method ''read_transient'' evaluate_attr [] (path_ty ''String'')]\<rparr>"

definition asset_casing :: casing where
  "asset_casing = plain_casing
     \<lparr>cs_upper_camel := (\<lambda>s.
        if s = lit ''init_ledger'' then lit ''InitLedger'' else if s = lit ''create_asset'' then lit ''CreateAsset''
        else if s = lit ''read_asset'' then lit ''ReadAsset'' else if s = lit ''update_asset'' then lit ''UpdateAsset''
        else if s = lit ''delete_asset'' then lit ''DeleteAsset'' else if s = lit ''asset_exists'' then lit ''AssetExists''
        else if s = lit ''transfer_asset'' then lit ''TransferAsset'' else if s = lit ''get_all_assets'' then lit ''GetAllAssets''
        else if s = lit ''read_transient'' then lit ''ReadTransient'' else s),
      cs_lower_camel := (\<lambda>s.
        if s = lit ''appraised_value'' then lit ''appraisedValue'' else if s = lit ''new_owner'' then lit ''newOwner'' else s)\<rparr>"

definition asset_tx :: "string \<Rightarrow> string \<Rightarrow> string \<Rightarrow> (string \<times> string) list \<Rightarrow> ty option \<Rightarrow> tx_method" where
  "asset_tx wire tag name params ret = \<lparr>tm_wire_name = lit wire, tm_tag = lit tag, tm_ident = lit name, tm_async = True,
     tm_params = map (\<lambda>(i, t). (lit i, path_ty t)) params, tm_ok_ty = ret\<rparr>"

definition asset_txs :: "tx_method list" where
  "asset_txs =
     [asset_tx ''InitLedger'' ''submit'' ''init_ledger'' [] None,
      asset_tx ''CreateAsset'' ''submit'' ''create_asset'' [(''id'', ''String''), (''color'', ''String''), (''size'', ''u32''),
        (''owner'', ''String''), (''appraised_value'', ''u64'')] None,
      asset_tx ''ReadAsset'' ''evaluate'' ''read_asset'' [(''id'', ''String'')] (Some (path_ty ''Asset'')),
      asset_tx ''UpdateAsset'' ''submit'' ''update_asset'' [(''id'', ''String''), (''color'', ''String''), (''size'', ''u32''),
        (''owner'', ''String''), (''appraised_value'', ''u64'')] None,
      asset_tx ''DeleteAsset'' ''submit'' ''delete_asset'' [(''id'', ''String'')] None,
      asset_tx ''AssetExists'' ''evaluate'' ''asset_exists'' [(''id'', ''String'')] (Some (path_ty ''bool'')),
      asset_tx ''TransferAsset'' ''submit'' ''transfer_asset'' [(''id'', ''String''), (''new_owner'', ''String'')] (Some (path_ty ''String'')),
      asset_tx ''GetAllAssets'' ''evaluate'' ''get_all_assets'' [] (Some (vec_ty (path_ty ''QueryResult''))),
      asset_tx ''ReadTransient'' ''evaluate'' ''read_transient'' [] (Some (path_ty ''String''))]"

definition asset_ex :: expansion where
  "asset_ex = \<lparr>ex_input = asset_impl\<lparr>ii_items := snd (snd (contract_items asset_casing (ii_items asset_impl)))\<rparr>,
     ex_contract_name = lit ''AssetTransfer'', ex_title = lit ''AssetTransfer'', ex_version = None, ex_txs = asset_txs\<rparr>"

definition asset_attr :: tokens where
  "asset_attr = ([MetaNameValue [lit ''name''] (ExprStr (lit ''AssetTransfer''))], None)"

lemma vec_ty_not_unit [simp]: "vec_ty t \<noteq> TyTuple []"
  by (simp add: vec_ty_def)

lemma find_transaction_attr [simp]:
  "find is_transaction_attr [transaction_attr ms] = Some (transaction_attr ms)"
  "find is_transaction_attr [evaluate_attr] = Some evaluate_attr"
  by simp_all

lemma asset_items: "\<exists>is. contract_items asset_casing (ii_items asset_impl) = ([], asset_txs, is)"
  by (simp add: asset_impl_def asset_method_def transaction_method_def transaction_attr_def evaluate_attr_def
      parse_terminated_def typed_arg_def method_ok_ty_def is_transaction_attr_def is_ident_def asset_casing_def
      asset_txs_def asset_tx_def)

lemma asset_expands: "contract_macro asset_casing asset_attr (Inr asset_impl) = Inr asset_ex"
proof -
  obtain items where items: "contract_items asset_casing (ii_items asset_impl) = ([], asset_txs, items)"
    using asset_items by blast
  have "ii_generic asset_impl = False" "ii_self_ty asset_impl = TyPath [Segment (lit ''AssetTransfer'') NoArgs]"
    by (simp_all add: asset_impl_def path_ty_def)
  with items show ?thesis
    by (simp add: contract_macro_def Let_def or_else_def asset_ex_def parse_contract_args_def asset_attr_def
        parse_terminated_def get_ident_def)
qed

definition query_result_struct :: derive_input where
  "query_result_struct = \<lparr>di_attrs = [], di_ident = lit ''QueryResult'', di_generic = False, di_data = DataStruct (FieldsNamed
     [\<lparr>sf_attrs = [rename_to ''Key''], sf_ident = lit ''key'', sf_ty = path_ty ''String''\<rparr>,
      \<lparr>sf_attrs = [rename_to ''Record''], sf_ident = lit ''record'', sf_ty = path_ty ''Asset''\<rparr>])\<rparr>"

definition asset_data :: data_type where
  "asset_data = \<lparr>dt_name = lit ''Asset'', dt_fields =
     [\<lparr>fd_name = lit ''ID'', fd_type = RString, fd_optional = False\<rparr>,
      \<lparr>fd_name = lit ''color'', fd_type = RString, fd_optional = False\<rparr>,
      \<lparr>fd_name = lit ''size'', fd_type = RInt U32, fd_optional = False\<rparr>,
      \<lparr>fd_name = lit ''owner'', fd_type = RString, fd_optional = False\<rparr>,
      \<lparr>fd_name = lit ''appraisedValue'', fd_type = RInt U64, fd_optional = False\<rparr>]\<rparr>"

definition query_result_data :: data_type where
  "query_result_data = \<lparr>dt_name = lit ''QueryResult'', dt_fields =
     [\<lparr>fd_name = lit ''Key'', fd_type = RString, fd_optional = False\<rparr>,
      \<lparr>fd_name = lit ''Record'', fd_type = RData (lit ''Asset''), fd_optional = False\<rparr>]\<rparr>"

lemma derive_asset_structs:
  "derive_data_type plain_casing ex_rt asset_struct = Inr asset_data"
  "derive_data_type plain_casing ex_rt query_result_struct = Inr query_result_data"
  by (simp only: derive_asset asset_data_def)
    (simp add: derive_data_type_def query_result_struct_def query_result_data_def
      derive_field_def json_name_def serde_rename_def rename_to_def serde_attr_def is_ident_def unwrap_option_def path_ty_def)

definition asset_decls :: decls where
  "asset_decls = [(lit ''Asset'', asset_data), (lit ''QueryResult'', query_result_data)]"

lemma asset_decls_ok:
  "decls_ok asset_decls" "t \<in> set (component_types (ex_txs asset_ex)) \<Longrightarrow> declared asset_decls (ex_rt t)"
  by (auto simp: decls_ok_def asset_decls_def asset_data_def query_result_data_def ran_def declared_def component_types_def
      asset_ex_def asset_txs_def asset_tx_def path_ty_def vec_ty_def split: if_splits)

subsection \<open>The methods behind the routes\<close>

datatype at_data = AAsset asset | AResults "query_result list"

definition asset_lib :: "asset_json \<Rightarrow> at_data rust_lib" where
  "asset_lib J = \<lparr>rl_float_parse = (\<lambda>_ _. Inl []), rl_float_show = (\<lambda>_ _. []),
     rl_from_slice = (\<lambda>_ b. res_map AAsset (aj_from_slice J b)),
     rl_to_vec = (\<lambda>_ d. case d of AAsset a \<Rightarrow> aj_to_vec J a | AResults rs \<Rightarrow> aj_results_to_vec J rs)\<rparr>"

definition asset_methods :: "prost \<Rightarrow> asset_json \<Rightarrow> at_data methods" where
  "asset_methods P J ident stub vs = display_error
     (if ident = lit ''init_ledger'' then wrap_result (\<lambda>_. VUnit) (init_ledger P J)
      else if ident = lit ''create_asset'' then
        (case vs of [VString i, VString c, VInt s, VString w, VInt v] \<Rightarrow> wrap_result (\<lambda>_. VUnit)
           (create_asset P J \<lparr>as_id = i, as_color = c, as_size = s, as_owner = w, as_appraised_value = v\<rparr>))
      else if ident = lit ''read_asset'' then
        (case vs of [VString i] \<Rightarrow> wrap_result (\<lambda>a. VData (AAsset a)) (read_asset P J i))
      else if ident = lit ''update_asset'' then
        (case vs of [VString i, VString c, VInt s, VString w, VInt v] \<Rightarrow> wrap_result (\<lambda>_. VUnit)
           (update_asset P J \<lparr>as_id = i, as_color = c, as_size = s, as_owner = w, as_appraised_value = v\<rparr>))
      else if ident = lit ''delete_asset'' then
        (case vs of [VString i] \<Rightarrow> wrap_result (\<lambda>_. VUnit) (delete_asset P J i))
      else if ident = lit ''asset_exists'' then
        (case vs of [VString i] \<Rightarrow> wrap_result VBool (asset_exists P i))
      else if ident = lit ''transfer_asset'' then
        (case vs of [VString i, VString w] \<Rightarrow> wrap_result VString (transfer_asset P J stub i w))
      else if ident = lit ''get_all_assets'' then wrap_result (\<lambda>rs. VData (AResults rs)) (get_all_assets P J)
      else wrap_result VString (read_transient stub))"

definition asset_chaincode :: "prost \<Rightarrow> asset_json \<Rightarrow> (metadata \<Rightarrow> str + bytes) \<Rightarrow> str \<Rightarrow> chaincode option" where
  "asset_chaincode P J to_json cargo_version = contract_chaincode to_json (asset_lib J) asset_casing ex_rt asset_decls
     (asset_methods P J) cargo_version asset_ex"

lemma asset_chaincode_exists: "\<exists>cc. asset_chaincode P J to_json v = Some cc"
  unfolding asset_chaincode_def by (rule contract_chaincode_exists [OF asset_decls_ok])

text \<open>How an operation is called: the transaction, the values and their texts.\<close>

definition asset_values :: "asset \<Rightarrow> 'd val list" where
  "asset_values a = [VString (as_id a), VString (as_color a), VInt (as_size a), VString (as_owner a), VInt (as_appraised_value a)]"

definition asset_texts :: "asset \<Rightarrow> str list" where
  "asset_texts a = [as_id a, as_color a, show_int (as_size a), as_owner a, show_int (as_appraised_value a)]"

fun op_tx :: "asset_op \<Rightarrow> tx_method" where
  "op_tx InitLedger = asset_txs ! 0"
| "op_tx (CreateAsset a) = asset_txs ! 1"
| "op_tx (ReadAsset k) = asset_txs ! 2"
| "op_tx (UpdateAsset a) = asset_txs ! 3"
| "op_tx (DeleteAsset k) = asset_txs ! 4"
| "op_tx (AssetExists k) = asset_txs ! 5"
| "op_tx (TransferAsset k w) = asset_txs ! 6"

fun op_values :: "asset_op \<Rightarrow> at_data val list" where
  "op_values InitLedger = []"
| "op_values (CreateAsset a) = asset_values a"
| "op_values (UpdateAsset a) = asset_values a"
| "op_values (ReadAsset k) = [VString k]"
| "op_values (DeleteAsset k) = [VString k]"
| "op_values (AssetExists k) = [VString k]"
| "op_values (TransferAsset k w) = [VString k, VString w]"

fun op_texts :: "asset_op \<Rightarrow> str list" where
  "op_texts InitLedger = []"
| "op_texts (CreateAsset a) = asset_texts a"
| "op_texts (UpdateAsset a) = asset_texts a"
| "op_texts (ReadAsset k) = [k]"
| "op_texts (DeleteAsset k) = [k]"
| "op_texts (AssetExists k) = [k]"
| "op_texts (TransferAsset k w) = [k, w]"

fun result_val :: "asset_result \<Rightarrow> at_data val" where
  "result_val Done = VUnit"
| "result_val (TheAsset a) = VData (AAsset a)"
| "result_val (TheBool b) = VBool b"
| "result_val (TheOwner s) = VString s"

lemma run_then_assoc: "run_then (run_then m f) g = run_then m (\<lambda>a p ev. run_then (f a p ev) g)"
  by (cases "(m, f)" rule: run_then.cases) auto

lemma asset_eta [simp]:
  "\<lparr>as_id = as_id a, as_color = as_color a, as_size = as_size a, as_owner = as_owner a,
     as_appraised_value = as_appraised_value a\<rparr> = a"
  by simp

lemma run_asset_methods:
  "run_io env p ev (asset_methods P J (tm_ident (op_tx op)) stub (op_values op))
     = run_then (run_io env p ev (asset_program P J stub op))
         (\<lambda>r p' ev'. Some (Inr (res_map_err error_display (res_map result_val r)), p', ev'))"
proof -
  have map2: "res_map f (res_map g r) = res_map (\<lambda>x. f (g x)) r" for f g and r :: "shim_error + 'x"
    by (cases r) simp_all
  show ?thesis
    by (cases op) (simp_all add: asset_methods_def asset_txs_def asset_tx_def run_then_assoc map2 asset_values_def)
qed

lemma asset_calls:
  assumes "op_ok op"
  shows "calls (asset_lib J) ex_rt asset_decls asset_ex (op_tx op) (tm_wire_name (op_tx op)) (op_values op) (op_texts op)"
  using assms unfolding calls_def
  by (cases op) (auto simp: asset_ex_def asset_txs_def asset_tx_def METADATA_FUNCTION_def path_ty_def asset_values_def
      asset_texts_def asset_ok_def int_ty_min_def lit_Cons)

subsection \<open>Whole transactions\<close>

text \<open>The message that calls an operation, and the response the specification's result stands for.\<close>

definition op_message :: "prost \<Rightarrow> str \<Rightarrow> asset_op \<Rightarrow> chaincode_message" where
  "op_message P txid op = start_tx P txid (tm_wire_name (op_tx op) # op_texts op) None"

fun result_payload :: "asset_json \<Rightarrow> asset_result \<Rightarrow> bytes" where
  "result_payload J Done = []"
| "result_payload J (TheAsset a) = (case aj_to_vec J a of Inl _ \<Rightarrow> [] | Inr b \<Rightarrow> b)"
| "result_payload J (TheBool b) = str_bytes (show_bool b)"
| "result_payload J (TheOwner s) = str_bytes s"

definition spec_response :: "asset_json \<Rightarrow> shim_error + asset_result \<Rightarrow> response" where
  "spec_response J r = (case r of Inl e \<Rightarrow> response_error (error_display e) | Inr x \<Rightarrow> success (result_payload J x))"

lemma spec_method_response:
  assumes "json_ok J" and "\<And>k a. A k = Some a \<Longrightarrow> asset_ok a" and "(r, A') = asset_spec op A"
  shows "method_response (asset_lib J) asset_decls (ok_rty ex_rt (op_tx op)) (res_map_err error_display (res_map result_val r))
     = spec_response J r"
proof -
  have to_vec: "\<exists>b. aj_to_vec J a = Inr b" if "A k = Some a" for k a
    using assms(1) assms(2) [OF that] unfolding json_ok_def by blast
  with assms(3) show ?thesis
    by (cases op) (auto simp: method_response_def spec_response_def ok_rty_def asset_txs_def asset_tx_def path_ty_def
        asset_lib_def asset_decls_def dest!: to_vec split: option.splits if_splits)
qed

lemma run_op_transaction:
  assumes P: "prost_ok P" and J: "json_ok J" and inv: "assets_inv J mp" and op: "op_ok op"
    and cc: "asset_chaincode P J to_json v = Some cc"
  shows "\<exists>m mp' r. run_transaction P je cc (mock_serve P) d (op_message P txid op) mp = Some (m, mp')
    \<and> cm_kind m = MT_Completed \<and> key_of m = (lit ''testchannel'', txid)
    \<and> decode (c_response P) (cm_payload m) = Inr (into_proto (spec_response J r))
    \<and> (r, assets J mp') = asset_spec op (assets J mp) \<and> assets_inv J mp'"
proof -
  let ?name = "tm_wire_name (op_tx op)"
  obtain stub where stub: "stub_new P (lit ''testchannel'') txid
      \<lparr>ci_args = map str_bytes (?name # op_texts op), ci_decorations = fmempty, ci_is_init = False\<rparr> None = Inr stub"
    by (simp add: stub_new_def)
  from asset_program_implements [OF P J inv op, of stub d "lit ''testchannel''" txid None] obtain r mp' ev where
    run: "run_io (mock_env P d (lit ''testchannel'') txid) mp None (asset_program P J stub op) = Some (Inr r, mp', ev)"
    and spec: "(r, assets J mp') = asset_spec op (assets J mp)" and inv': "assets_inv J mp'"
    by (auto simp: implements_def)
  have "run_io (mock_env P d (lit ''testchannel'') txid) mp None
      (asset_methods P J (tm_ident (op_tx op)) stub (op_values op))
      = Some (Inr (res_map_err error_display (res_map result_val r)), mp', ev)"
    by (simp add: run_asset_methods run)
  from run_contract_call [OF P cc [unfolded asset_chaincode_def] asset_calls [OF op] stub this, of je]
  have "run_transaction P je cc (mock_serve P) d (op_message P txid op) mp
      = Some (completed_message P d (lit ''testchannel'') txid (spec_response J r) ev, mp')"
    using spec_method_response [OF J _ spec] assets_stored [OF inv] by (auto simp: op_message_def)
  with spec inv' P show ?thesis by auto
qed

fun spec_run :: "asset_op list \<Rightarrow> (str \<rightharpoonup> asset) \<Rightarrow> (shim_error + asset_result) list \<times> (str \<rightharpoonup> asset)" where
  "spec_run [] A = ([], A)"
| "spec_run (op # ops) A =
     (let (r, A') = asset_spec op A; (rs, A'') = spec_run ops A' in (r # rs, A''))"

lemma run_op_transactions:
  assumes P: "prost_ok P" and J: "json_ok J" and cc: "asset_chaincode P J to_json v = Some cc"
    and "assets_inv J mp" and "list_all (\<lambda>(t, op). op_ok op) history"
  shows "\<exists>ms mp'. run_transactions P je cc (mock_serve P) d (map (\<lambda>(t, op). op_message P t op) history) mp = Some (ms, mp')
    \<and> map key_of ms = map (\<lambda>(t, op). (lit ''testchannel'', t)) history \<and> list_all (\<lambda>m. cm_kind m = MT_Completed) ms
    \<and> map (\<lambda>m. decode (c_response P) (cm_payload m)) ms
        = map (\<lambda>r. Inr (into_proto (spec_response J r))) (fst (spec_run (map snd history) (assets J mp)))
    \<and> assets J mp' = snd (spec_run (map snd history) (assets J mp)) \<and> assets_inv J mp'"
  using assms(4,5)
proof (induction history arbitrary: mp)
  case (Cons c history)
  obtain t op where c: "c = (t, op)" by fastforce
  with Cons.prems have "op_ok op" by simp
  from run_op_transaction [OF P J Cons.prems(1) this cc, of je d t] obtain m mp1 r where
    m: "run_transaction P je cc (mock_serve P) d (op_message P t op) mp = Some (m, mp1)"
      "cm_kind m = MT_Completed" "key_of m = (lit ''testchannel'', t)"
      "decode (c_response P) (cm_payload m) = Inr (into_proto (spec_response J r))"
      "asset_spec op (assets J mp) = (r, assets J mp1)" "assets_inv J mp1" by metis
  from Cons.IH [OF m(6)] Cons.prems obtain ms mp' where
    ms: "run_transactions P je cc (mock_serve P) d (map (\<lambda>(t, op). op_message P t op) history) mp1 = Some (ms, mp')"
      "map key_of ms = map (\<lambda>(t, op). (lit ''testchannel'', t)) history" "list_all (\<lambda>m. cm_kind m = MT_Completed) ms"
      "map (\<lambda>m. decode (c_response P) (cm_payload m)) ms
        = map (\<lambda>r. Inr (into_proto (spec_response J r))) (fst (spec_run (map snd history) (assets J mp1)))"
      "assets J mp' = snd (spec_run (map snd history) (assets J mp1))" "assets_inv J mp'" by auto
  show ?case
    using m ms by (intro exI [of _ "m # ms"] exI [of _ mp']) (simp add: c Let_def case_prod_unfold)
qed simp

lemma mock_collect_all:
  assumes "prost_ok P" and "0 < mp_range_batch mp"
  shows "\<exists>mp'. run_io (mock_env P d ch tx) mp ev (io_try (sb_get_state_by_range P [] []) (collect_remaining P))
      = Some (Inr (Inr (map test_kv (mp_state mp))), mp', ev) \<and> mock_frame mp mp'"
proof -
  have "range_kvs mp [] [] [] = mp_state mp" by (simp add: range_kvs_def in_range_def)
  then show ?thesis
    using mock_collect [OF assms(1), of mp d ch tx ev "[]" "[]" "[]" None] assms(2)
    by (simp add: sb_get_state_by_range_def mock_inv_def)
qed

lemma collect_assets:
  assumes "\<And>k b. (k, b) \<in> set kvs \<Longrightarrow> \<exists>a. aj_from_slice J b = Inr a \<and> A k = Some a"
  shows "List.map_filter (\<lambda>kv. case aj_from_slice J (kv_value kv) of Inl _ \<Rightarrow> None
           | Inr record \<Rightarrow> Some \<lparr>qres_key = kv_key kv, qres_record = record\<rparr>) (map test_kv kvs)
     = map (\<lambda>k. \<lparr>qres_key = k, qres_record = the (A k)\<rparr>) (map fst kvs)"
  using assms
proof (induction kvs)
  case (Cons kv kvs)
  obtain k b where kv: "kv = (k, b)" by fastforce
  with Cons.prems obtain a where "aj_from_slice J b = Inr a" "A k = Some a" by auto
  with Cons kv show ?case by (simp add: map_filter_simps test_kv_def)
qed (simp add: map_filter_simps)

lemma run_get_all_assets:
  assumes "prost_ok P" and "0 < mp_range_batch mp" and "bt_ok (mp_state mp)" and "assets_inv J mp"
  shows "\<exists>ks mp'. run_io (mock_env P d ch tx) mp ev (get_all_assets P J)
      = Some (Inr (Inr (map (\<lambda>k. \<lparr>qres_key = k, qres_record = the (assets J mp k)\<rparr>) ks)), mp', ev)
    \<and> set ks = dom (assets J mp) \<and> sorted_wrt (<) ks \<and> assets J mp' = assets J mp"
proof -
  let ?kvs = "mp_state mp"
  have get: "map_of ?kvs k = ledger mp [] k" for k by (simp add: ledger_def)
  have stored: "\<exists>a. aj_from_slice J b = Inr a \<and> assets J mp k = Some a" if "(k, b) \<in> set ?kvs" for k b
    using that assets_Some [OF assms(4), of k b] bt.entries_get [OF assms(3)] by (auto simp: get)
  from mock_collect_all [OF assms(1,2), of d ch tx ev] obtain mp' where
    run: "run_io (mock_env P d ch tx) mp ev (io_try (sb_get_state_by_range P [] []) (collect_remaining P))
      = Some (Inr (Inr (map test_kv ?kvs)), mp', ev)" and frame: "mock_frame mp mp'" by blast
  have "run_io (mock_env P d ch tx) mp ev (get_all_assets P J)
      = run_then (run_io (mock_env P d ch tx) mp ev (io_try (sb_get_state_by_range P [] []) (collect_remaining P)))
          (\<lambda>r p' ev'. case r of Inl e \<Rightarrow> Some (Inr (Inl e), p', ev')
           | Inr kvs \<Rightarrow> Some (Inr (Inr (List.map_filter (\<lambda>kv. case aj_from_slice J (kv_value kv) of Inl _ \<Rightarrow> None
               | Inr record \<Rightarrow> Some \<lparr>qres_key = kv_key kv, qres_record = record\<rparr>) kvs)), p', ev'))"
    by (auto simp: get_all_assets_def run_then_assoc intro!: arg_cong2 [where f = run_then] ext split: sum.split)
  also have "\<dots> = Some (Inr (Inr (map (\<lambda>k. \<lparr>qres_key = k, qres_record = the (assets J mp k)\<rparr>) (map fst ?kvs))), mp', ev)"
    using collect_assets [of ?kvs J "assets J mp"] stored unfolding run run_then.simps sum.case by simp
  finally have "run_io (mock_env P d ch tx) mp ev (get_all_assets P J)
      = Some (Inr (Inr (map (\<lambda>k. \<lparr>qres_key = k, qres_record = the (assets J mp k)\<rparr>) (map fst ?kvs))), mp', ev)" .
  moreover have "set (map fst ?kvs) = dom (assets J mp)"
  proof -
    have "k \<in> set (map fst ?kvs) \<longleftrightarrow> ledger mp [] k \<noteq> None" for k by (metis get map_of_eq_None_iff set_map)
    moreover have "ledger mp [] k \<noteq> None \<longleftrightarrow> assets J mp k \<noteq> None" for k
      using assets_Some [OF assms(4), of k] by (cases "ledger mp [] k") auto
    ultimately show ?thesis by (auto simp: domIff)
  qed
  moreover have "sorted_wrt (<) (map fst ?kvs)" using assms(3) by (simp add: bt_ok_def)
  moreover have "assets J mp' = assets J mp"
    using frame by (simp add: assets_def ledger_def mock_frame_def fun_eq_iff)
  ultimately show ?thesis by blast
qed

lemma quiet_connection_refines_spec:
  assumes "prost_ok P" and "json_ok J" and "asset_chaincode P J to_json v = Some cc"
    and "assets_inv J mp" and "list_all (\<lambda>(t, op). op_ok op) history" and "quiet s"
  shows "\<exists>ms mp'. connection_transactions P je cc (mock_serve P) d (map (\<lambda>(t, op). op_message P t op) history) s mp = Some (ms, mp')
    \<and> map key_of ms = map (\<lambda>(t, op). (lit ''testchannel'', t)) history \<and> list_all (\<lambda>m. cm_kind m = MT_Completed) ms
    \<and> map (\<lambda>m. decode (c_response P) (cm_payload m)) ms
        = map (\<lambda>r. Inr (into_proto (spec_response J r))) (fst (spec_run (map snd history) (assets J mp)))
    \<and> assets J mp' = snd (spec_run (map snd history) (assets J mp)) \<and> assets_inv J mp'"
proof -
  have "list_all (\<lambda>m. cm_kind m = MT_Init \<or> cm_kind m = MT_Transaction) (map (\<lambda>(t, op). op_message P t op) history)"
    by (induction history) (auto simp: op_message_def)
  note connection_transactions_link [OF mock_answers_requests assms(6) this]
  with run_op_transactions [OF assms(1-5)] show ?thesis by simp
qed

subsection \<open>Properties\<close>

text \<open>C2. The sample contract implements its specification: any sequence of transactions
  (\<open>InitLedger\<close>, \<open>CreateAsset\<close>, \<open>ReadAsset\<close>, \<open>UpdateAsset\<close>, \<open>DeleteAsset\<close>, \<open>AssetExists\<close>,
  \<open>TransferAsset\<close>), sent by the peer as text arguments over a connection of the generated chaincode, ends with one
  COMPLETED each that holds the result of the abstract operation on the map of assets, or its error, and
  leaves a ledger that is the resulting map.\<close>

theorem asset_transactions_refine_spec:
  assumes "prost_ok P" and "json_ok J" and "asset_chaincode P J to_json v = Some cc"
    and "assets_inv J mp" and "list_all (\<lambda>(t, op). op_ok op) history" and "quiet s"
  shows "\<exists>ms mp'. connection_transactions P je cc (mock_serve P) d (map (\<lambda>(t, op). op_message P t op) history) s mp = Some (ms, mp')
    \<and> map key_of ms = map (\<lambda>(t, op). (lit ''testchannel'', t)) history \<and> list_all (\<lambda>m. cm_kind m = MT_Completed) ms
    \<and> map (\<lambda>m. decode (c_response P) (cm_payload m)) ms
        = map (\<lambda>r. Inr (into_proto (spec_response J r))) (fst (spec_run (map snd history) (assets J mp)))
    \<and> assets J mp' = snd (spec_run (map snd history) (assets J mp)) \<and> assets_inv J mp'"
  using assms by (rule quiet_connection_refines_spec)

text \<open>An encoding of assets for the witnesses.\<close>

definition ex_json :: asset_json where
  "ex_json = \<lparr>aj_to_vec = (\<lambda>a. Inr (1 # encode (c_get_state_by_range wire_prost)
       \<lparr>gsr_start_key = as_id a, gsr_end_key = as_color a, gsr_collection = as_owner a,
        gsr_metadata = encode (c_get_state wire_prost)
          \<lparr>gs_key = show_int (as_size a), gs_collection = show_int (as_appraised_value a)\<rparr>\<rparr>)),
     aj_from_slice = (\<lambda>b. res_bind (decode (c_get_state_by_range wire_prost) (tl b)) (\<lambda>g.
       res_bind (decode (c_get_state wire_prost) (gsr_metadata g)) (\<lambda>n.
       res_bind (res_map_err int_error_display (parse_int U32 (gs_key n))) (\<lambda>s.
       res_map (\<lambda>v. \<lparr>as_id = gsr_start_key g, as_color = gsr_end_key g, as_size = s, as_owner = gsr_collection g,
                  as_appraised_value = v\<rparr>) (res_map_err int_error_display (parse_int U64 (gs_collection n))))))),
     aj_results_to_vec = (\<lambda>_. Inr [])\<rparr>"

lemma ex_json_ok: "json_ok ex_json"
  by (auto simp: json_ok_def ex_json_def asset_ok_def parse_int_show_int int_ty_min_def)

definition ex_asset :: asset where
  "ex_asset = \<lparr>as_id = lit ''asset7'', as_color = lit ''pink'', as_size = 3, as_owner = lit ''Ada'', as_appraised_value = 42\<rparr>"

theorem asset_transactions_refine_spec_witness:
  "\<exists>cc s ms mp'. asset_chaincode wire_prost ex_json (\<lambda>_. Inr []) [] = Some cc
    \<and> sys_run wire_prost (cc_metadata cc) handshake_actions (sys_init wire_prost None (lit ''basic_1.0:cafe'')) = Some s
    \<and> connection_transactions wire_prost id cc (mock_serve wire_prost) None
        (map (\<lambda>(t, op). op_message wire_prost t op)
          [(lit ''t1'', CreateAsset ex_asset), (lit ''t2'', TransferAsset (lit ''asset7'') (lit ''Bob'')),
           (lit ''t3'', CreateAsset ex_asset)]) s empty_peer = Some (ms, mp')
    \<and> map (\<lambda>m. decode (c_response wire_prost) (cm_payload m)) ms
        = [Inr (into_proto (success [])), Inr (into_proto (success (str_bytes (lit ''Ada'')))),
           Inr (into_proto (response_error (error_display (exists_error (lit ''asset7'')))))]"
proof -
  obtain cc where cc: "asset_chaincode wire_prost ex_json (\<lambda>_. Inr []) [] = Some cc"
    using asset_chaincode_exists by blast
  let ?history = "[(lit ''t1'', CreateAsset ex_asset), (lit ''t2'', TransferAsset (lit ''asset7'') (lit ''Bob'')),
      (lit ''t3'', CreateAsset ex_asset)]"
  have inv: "assets_inv ex_json empty_peer" by (simp add: assets_inv_def ledger_def empty_peer_def)
  have ok: "list_all (\<lambda>(t, op). op_ok op) ?history" by (simp add: ex_asset_def asset_ok_def int_ty_max_def)
  have empty: "assets ex_json empty_peer = Map.empty"
    by (simp add: assets_def ledger_def empty_peer_def fun_eq_iff)
  have spec: "fst (spec_run (map snd ?history) Map.empty)
      = [Inr Done, Inr (TheOwner (lit ''Ada'')), Inl (exists_error (lit ''asset7''))]"
    by (simp add: ex_asset_def)
  obtain s where s: "sys_run wire_prost (cc_metadata cc) handshake_actions (sys_init wire_prost None (lit ''basic_1.0:cafe'')) = Some s"
      "quiet s" using handshake_quiet by blast
  from asset_transactions_refine_spec [OF wire_prost_ok ex_json_ok cc inv ok s(2), of id None] spec show ?thesis
    by (intro exI [of _ cc] exI [of _ s]) (auto simp: empty spec_response_def cc s(1) simp del: sys_run.simps connection_transactions.simps)
qed

text \<open>C24. \<open>GetAllAssets\<close> returns every asset once, in the order of the identifiers, whatever the peer's page size,
  and changes nothing.\<close>

theorem get_all_assets_is_complete:
  assumes "prost_ok P" and "0 < mp_range_batch mp" and "bt_ok (mp_state mp)" and "assets_inv J mp"
  shows "\<exists>ks mp'. run_io (mock_env P d ch tx) mp ev (get_all_assets P J)
      = Some (Inr (Inr (map (\<lambda>k. \<lparr>qres_key = k, qres_record = the (assets J mp k)\<rparr>) ks)), mp', ev)
    \<and> set ks = dom (assets J mp) \<and> sorted_wrt (<) ks \<and> assets J mp' = assets J mp"
  using assms by (rule run_get_all_assets)

theorem get_all_assets_is_complete_witness:
  "\<exists>b mp'. aj_to_vec ex_json ex_asset = Inr b
    \<and> run_io (mock_env wire_prost None [] []) (empty_peer\<lparr>mp_state := [(lit ''asset7'', b)]\<rparr>) None (get_all_assets wire_prost ex_json)
      = Some (Inr (Inr [\<lparr>qres_key = lit ''asset7'', qres_record = ex_asset\<rparr>]), mp', None)"
proof -
  have ok: "asset_ok ex_asset" by (simp add: ex_asset_def asset_ok_def int_ty_max_def)
  with ex_json_ok obtain b where b: "aj_to_vec ex_json ex_asset = Inr b" "b \<noteq> []" "aj_from_slice ex_json b = Inr ex_asset"
    by (auto simp: json_ok_def)
  let ?mp = "empty_peer\<lparr>mp_state := [(lit ''asset7'', b)]\<rparr>"
  have inv: "assets_inv ex_json ?mp" using b ok by (auto simp: assets_inv_def ledger_def ex_asset_def empty_peer_def)
  have a: "assets ex_json ?mp = [lit ''asset7'' \<mapsto> ex_asset]"
    using b by (auto simp: assets_def ledger_def empty_peer_def fun_eq_iff)
  have pre: "0 < mp_range_batch ?mp" "bt_ok (mp_state ?mp)" by (simp_all add: empty_peer_def bt_ok_def)
  from get_all_assets_is_complete [OF wire_prost_ok pre inv, of None "[]" "[]" None] obtain ks mp' where
    run: "run_io (mock_env wire_prost None [] []) ?mp None (get_all_assets wire_prost ex_json)
      = Some (Inr (Inr (map (\<lambda>k. \<lparr>qres_key = k, qres_record = the (assets ex_json ?mp k)\<rparr>) ks)), mp', None)"
    and ks: "set ks = {lit ''asset7''}" "sorted_wrt (<) ks" unfolding a by auto
  from ks have "ks = [lit ''asset7'']" using strict_sorted_iff [of ks] by (cases ks; cases "tl ks") auto
  with run b(1) show ?thesis by (auto simp: a)
qed

text \<open>The metadata of the sample contract is what its annotations say: the nine transactions in order, the
  JSON names of the parameters, and results that refer to the registered schemas of \<open>Asset\<close> and
  \<open>QueryResult\<close>.\<close>

lemma asset_contract_metadata:
  "\<exists>ex md c. contract_macro asset_casing asset_attr (Inr asset_impl) = Inr ex
    \<and> gen_metadata asset_casing ex_rt asset_decls v ex = Some md
    \<and> map_of (md_contracts md) (lit ''AssetTransfer'') = Some c
    \<and> map mt_name (ct_transactions c) = map lit [''InitLedger'', ''CreateAsset'', ''ReadAsset'', ''UpdateAsset'',
         ''DeleteAsset'', ''AssetExists'', ''TransferAsset'', ''GetAllAssets'', ''ReadTransient'']
    \<and> map par_name (mt_parameters (ct_transactions c ! 1)) = map lit [''id'', ''color'', ''size'', ''owner'', ''appraisedValue'']
    \<and> mt_returns (ct_transactions c ! 2) = Some (json_object [(lit ''$ref'', JString (ref_path (lit ''Asset'')))])
    \<and> lit ''Asset'' \<in> dom (map_of (comp_schemas (md_components md)))
    \<and> lit ''QueryResult'' \<in> dom (map_of (comp_schemas (md_components md)))"
proof -
  let ?D = asset_decls
  obtain md c where m: "gen_metadata asset_casing ex_rt ?D v asset_ex = Some md"
      "map_of (md_contracts md) (ex_contract_name asset_ex) = Some c"
      "map mt_name (ct_transactions c) = map tm_wire_name (ex_txs asset_ex)"
      "map (\<lambda>t. map (\<lambda>p. (par_name p, par_schema p)) (mt_parameters t)) (ct_transactions c)
        = map (\<lambda>tx. map (\<lambda>(i, t). (param_name asset_casing i, schema ?D (ex_rt t))) (tm_params tx)) (ex_txs asset_ex)"
      "map mt_returns (ct_transactions c) = map (\<lambda>tx. map_option (\<lambda>t. schema ?D (ex_rt t)) (tm_ok_ty tx)) (ex_txs asset_ex)"
      "\<forall>t\<in>set (component_types (ex_txs asset_ex)). registers (comp_schemas (md_components md)) (schema ?D (ex_rt t))"
    using metadata_routes [where ex = asset_ex and rt = ex_rt and C = asset_casing and v = v, OF asset_decls_ok] by blast
  have len: "length (ct_transactions c) = length asset_txs" using m(3) by (metis asset_ex_def expansion.select_convs(5) length_map)
  have nth: "1 < length asset_txs" "2 < length asset_txs" by (simp_all add: asset_txs_def)
  have "map (\<lambda>p. (par_name p, par_schema p)) (mt_parameters (ct_transactions c ! 1))
      = map (\<lambda>(i, t). (param_name asset_casing i, schema ?D (ex_rt t))) (tm_params (asset_txs ! 1))"
    using arg_cong [OF m(4), of "\<lambda>l. l ! 1"] len nth by (simp add: asset_ex_def)
  from arg_cong [OF this, of "map fst"] have params: "map par_name (mt_parameters (ct_transactions c ! 1))
      = map lit [''id'', ''color'', ''size'', ''owner'', ''appraisedValue'']"
    by (simp add: o_def asset_txs_def asset_tx_def param_name_def asset_casing_def plain_casing_def)
  have returns: "mt_returns (ct_transactions c ! 2) = Some (schema ?D (RData (lit ''Asset'')))"
    using arg_cong [OF m(5), of "\<lambda>l. l ! 2"] len nth by (simp add: asset_ex_def asset_txs_def asset_tx_def path_ty_def)
  have decl: "map_of ?D (lit ''Asset'') = Some asset_data" "map_of ?D (lit ''QueryResult'') = Some query_result_data"
    by (simp_all add: asset_decls_def)
  have types: "path_ty ''Asset'' \<in> set (component_types (ex_txs asset_ex))"
      "vec_ty (path_ty ''QueryResult'') \<in> set (component_types (ex_txs asset_ex))"
    by (simp_all add: component_types_def asset_ex_def asset_txs_def asset_tx_def)
  from m(6) types(1) have "registers (comp_schemas (md_components md)) (schema ?D (RData (lit ''Asset'')))"
    by (auto simp: path_ty_def)
  then have asset: "lit ''Asset'' \<in> dom (map_of (comp_schemas (md_components md)))"
    unfolding registers_data [OF decl(1)] by (simp add: asset_data_def)
  from m(6) types(2) have "registers (comp_schemas (md_components md)) (schema ?D (RVec (RData (lit ''QueryResult''))))"
    by (auto simp: path_ty_def vec_ty_def simp del: schema.simps)
  then have "registers (comp_schemas (md_components md)) (schema ?D (RData (lit ''QueryResult'')))"
    by (cases "lit ''items'' < lit ''type''") (simp_all add: registers_def json_object_def json_str_def decl)
  then have query: "lit ''QueryResult'' \<in> dom (map_of (comp_schemas (md_components md)))"
    unfolding registers_data [OF decl(2)] by (simp add: query_result_data_def)
  show ?thesis
    using asset_expands m(1-3) params returns asset query
    by (intro exI [of _ asset_ex] exI [of _ md] exI [of _ c])
      (simp add: asset_ex_def asset_txs_def asset_tx_def decl asset_data_def)
qed

end
