(* ===== verification/Json_Text.thy ===== *)
theory Json_Text imports Metadata_Json
begin

section \<open>The text of a JSON tree\<close>

text \<open>
  A writer and a reader of JSON text, for the hypotheses about serde_json, which is not part of the
  repository: trees are written in its compact form, and read with white space allowed between the tokens.
  Numbers are integers. The reader's recursion is bounded by the length of the text, which is always
  enough. \<open>text_ok\<close> is the law the theories rely on: a tree whose integers fit
  \<open>i64\<close> or \<open>u64\<close> and that is not nested too deep is read back from its text.
\<close>

subsection \<open>The law\<close>

record json_text =
  to_text :: "json \<Rightarrow> str + bytes"
  of_text :: "bytes \<Rightarrow> str + json"

fun json_depth :: "json \<Rightarrow> nat" where
  "json_depth (JArray js) = Suc (fold max (map json_depth js) 0)"
| "json_depth (JObject kvs) = Suc (fold max (map (\<lambda>(k, j). json_depth j) kvs) 0)"
| "json_depth _ = 0"

fun numbers_fit :: "json \<Rightarrow> bool" where
  "numbers_fit (JNumber i) = (- (2 ^ 63) \<le> i \<and> i < 2 ^ 64)"
| "numbers_fit (JArray js) = list_all numbers_fit js"
| "numbers_fit (JObject kvs) = list_all (\<lambda>(k, j). numbers_fit j) kvs"
| "numbers_fit _ = True"

definition text_ok :: "json_text \<Rightarrow> bool" where
  "text_ok X \<longleftrightarrow> (\<forall>j. numbers_fit j \<longrightarrow> json_depth j < 128 \<longrightarrow>
     (\<exists>b. to_text X j = Inr b \<and> b \<noteq> [] \<and> of_text X b = Inr j))"

subsection \<open>Strings\<close>

abbreviation quote :: uchr where "quote \<equiv> uc (CHR 0x22)"

abbreviation backslash :: uchr where "backslash \<equiv> uc (CHR 0x5C)"

definition short_escapes :: "(nat \<times> uchr) list" where
  "short_escapes = [(0x22, quote), (0x5C, backslash), (8, uc (CHR ''b'')), (9, uc (CHR ''t'')), (10, uc (CHR ''n'')),
     (12, uc (CHR ''f'')), (13, uc (CHR ''r''))]"

definition hex_chr :: "nat \<Rightarrow> uchr" where
  "hex_chr d = (if d < 10 then uchr_of (48 + d) else uchr_of (87 + d))"

definition hex_value :: "uchr \<Rightarrow> nat option" where
  "hex_value c = (let n = code_point c in
     if 48 \<le> n \<and> n \<le> 57 then Some (n - 48)
     else if 97 \<le> n \<and> n \<le> 102 then Some (n - 87)
     else if 65 \<le> n \<and> n \<le> 70 then Some (n - 55) else None)"

definition escape_chr :: "uchr \<Rightarrow> str" where
  "escape_chr c = (case map_of short_escapes (code_point c) of
     Some e \<Rightarrow> [backslash, e]
   | None \<Rightarrow> if code_point c < 32
       then backslash # lit ''u00'' @ [hex_chr (code_point c div 16), hex_chr (code_point c mod 16)] else [c])"

definition hex4 :: "uchr \<Rightarrow> uchr \<Rightarrow> uchr \<Rightarrow> uchr \<Rightarrow> uchr option" where
  "hex4 a b c d = (case (hex_value a, hex_value b, hex_value c, hex_value d) of
     (Some w, Some x, Some y, Some z) \<Rightarrow>
       let n = ((w * 16 + x) * 16 + y) * 16 + z in if scalar_value n then Some (uchr_of n) else None
   | _ \<Rightarrow> None)"

text \<open>The characters up to the closing quote, and what follows it.\<close>

fun read_chars :: "str \<Rightarrow> (str \<times> str) option" where
  "read_chars [] = None"
| "read_chars (c # s) =
     (if c = quote then Some ([], s)
      else if c = backslash then (case s of
          [] \<Rightarrow> None
        | e # s' \<Rightarrow>
            if e = uc (CHR ''u'') then (case s' of
                h3 # h2 # h1 # h0 # s'' \<Rightarrow> (case hex4 h3 h2 h1 h0 of
                    None \<Rightarrow> None
                  | Some x \<Rightarrow> map_option (map_prod (Cons x) id) (read_chars s''))
              | _ \<Rightarrow> None)
            else (case find (\<lambda>(n, e'). e' = e) short_escapes of
                None \<Rightarrow> None
              | Some (n, _) \<Rightarrow> map_option (map_prod (Cons (uchr_of n)) id) (read_chars s')))
      else if code_point c < 32 then None
      else map_option (map_prod (Cons c) id) (read_chars s))"

declare read_chars.simps [simp del]

lemma hex_value_hex_chr: "d < 16 \<Longrightarrow> hex_value (hex_chr d) = Some d"
  by (simp add: hex_value_def hex_chr_def scalar_value_def)

lemma hex4_control:
  assumes "n < 32"
  shows "hex4 (uc (CHR ''0'')) (uc (CHR ''0'')) (hex_chr (n div 16)) (hex_chr (n mod 16)) = Some (uchr_of n)"
proof -
  have "hex_value (uc (CHR ''0'')) = Some 0" by (simp add: hex_value_def)
  moreover have "n div 16 * 16 + n mod 16 = n" by simp
  ultimately show ?thesis
    using assms by (simp add: hex4_def hex_value_hex_chr Let_def scalar_value_def)
qed

lemma short_escape_read:
  assumes "map_of short_escapes n = Some e"
  shows "e \<noteq> uc (CHR ''u'') \<and> find (\<lambda>(m, e'). e' = e) short_escapes = Some (n, e)"
  using assms by (auto simp: short_escapes_def split: if_splits)

lemma read_escaped: "read_chars (escape_chr c @ s) = map_option (map_prod (Cons c) id) (read_chars s)"
proof (cases "map_of short_escapes (code_point c)")
  case (Some e)
  from short_escape_read [OF Some] show ?thesis
    by (simp add: escape_chr_def Some read_chars.simps(2) [of backslash])
next
  case None
  then have plain: "c \<noteq> quote" "c \<noteq> backslash" by (auto simp: short_escapes_def)
  show ?thesis
  proof (cases "code_point c < 32")
    case True
    then show ?thesis
      using hex4_control [OF True] by (simp add: escape_chr_def None read_chars.simps(2) [of backslash] lit_Cons)
  next
    case False
    with plain show ?thesis by (simp add: escape_chr_def None read_chars.simps(2) [of c])
  qed
qed

lemma read_chars_escaped: "read_chars (concat (map escape_chr s) @ quote # rest) = Some (s, rest)"
  by (induction s) (simp_all add: read_escaped read_chars.simps(2) [of quote])

definition write_string :: "str \<Rightarrow> str" where
  "write_string s = quote # concat (map escape_chr s) @ [quote]"

subsection \<open>The writer\<close>

fun commas :: "str list \<Rightarrow> str" where
  "commas [] = []"
| "commas [x] = x"
| "commas (x # xs) = x @ uc (CHR '','') # commas xs"

fun write_json :: "json \<Rightarrow> str" where
  "write_json JNull = lit ''null''"
| "write_json (JBool b) = show_bool b"
| "write_json (JNumber i) = show_int i"
| "write_json (JString s) = write_string s"
| "write_json (JArray js) = uc (CHR ''['') # commas (map write_json js) @ [uc (CHR '']'')]"
| "write_json (JObject kvs) =
     uc (CHR ''{'') # commas (map (\<lambda>(k, j). write_string k @ uc (CHR '':'') # write_json j) kvs) @ [uc (CHR ''}'')]"

subsection \<open>The reader\<close>

definition json_space :: "uchr \<Rightarrow> bool" where
  "json_space c \<longleftrightarrow> code_point c \<in> {9, 10, 13, 32}"

definition skip :: "str \<Rightarrow> str" where
  "skip s = dropWhile json_space s"

definition strip :: "str \<Rightarrow> str \<Rightarrow> str option" where
  "strip p s = (if take (length p) s = p then Some (drop (length p) s) else None)"

definition read_nat :: "str \<Rightarrow> (nat \<times> str) option" where
  "read_nat s = (let ds = takeWhile (\<lambda>c. to_digit c \<noteq> None) s in
     if ds = [] then None
     else Some (digits_value 0 (map (\<lambda>c. the (to_digit c)) ds), dropWhile (\<lambda>c. to_digit c \<noteq> None) s))"

definition read_int :: "str \<Rightarrow> (int \<times> str) option" where
  "read_int s = (case strip (lit ''-'') s of
     Some s' \<Rightarrow> map_option (map_prod (\<lambda>n. - int n) id) (read_nat s')
   | None \<Rightarrow> map_option (map_prod int id) (read_nat s))"

fun read_json :: "nat \<Rightarrow> str \<Rightarrow> (json \<times> str) option"
and read_elements :: "nat \<Rightarrow> str \<Rightarrow> (json list \<times> str) option"
and read_members :: "nat \<Rightarrow> str \<Rightarrow> ((str \<times> json) list \<times> str) option" where
  "read_json 0 s = None"
| "read_json (Suc n) s = (case skip s of
     [] \<Rightarrow> None
   | c # r \<Rightarrow>
       if c = uc (CHR ''['') then (case skip r of
           [] \<Rightarrow> None
         | d # r' \<Rightarrow> if d = uc (CHR '']'') then Some (JArray [], r')
             else map_option (map_prod JArray id) (read_elements n (d # r')))
       else if c = uc (CHR ''{'') then (case skip r of
           [] \<Rightarrow> None
         | d # r' \<Rightarrow> if d = uc (CHR ''}'') then Some (JObject [], r')
             else map_option (map_prod JObject id) (read_members n (d # r')))
       else if c = quote then map_option (map_prod JString id) (read_chars r)
       else (case strip (lit ''null'') (c # r) of
           Some r' \<Rightarrow> Some (JNull, r')
         | None \<Rightarrow> (case strip (lit ''true'') (c # r) of
             Some r' \<Rightarrow> Some (JBool True, r')
           | None \<Rightarrow> (case strip (lit ''false'') (c # r) of
               Some r' \<Rightarrow> Some (JBool False, r')
             | None \<Rightarrow> map_option (map_prod JNumber id) (read_int (c # r))))))"
| "read_elements 0 s = None"
| "read_elements (Suc n) s = (case read_json n s of
     None \<Rightarrow> None
   | Some (j, r) \<Rightarrow> (case skip r of
       [] \<Rightarrow> None
     | c # r' \<Rightarrow>
         if c = uc (CHR '','') then map_option (map_prod (Cons j) id) (read_elements n r')
         else if c = uc (CHR '']'') then Some ([j], r') else None))"
| "read_members 0 s = None"
| "read_members (Suc n) s = (case skip s of
     [] \<Rightarrow> None
   | q # r \<Rightarrow> if q \<noteq> quote then None else (case read_chars r of
       None \<Rightarrow> None
     | Some (k, r1) \<Rightarrow> (case skip r1 of
         [] \<Rightarrow> None
       | d # r2 \<Rightarrow> if d \<noteq> uc (CHR '':'') then None else (case read_json n r2 of
           None \<Rightarrow> None
         | Some (j, r3) \<Rightarrow> (case skip r3 of
             [] \<Rightarrow> None
           | c # r4 \<Rightarrow>
               if c = uc (CHR '','') then map_option (map_prod (Cons (k, j)) id) (read_members n r4)
               else if c = uc (CHR ''}'') then Some ([(k, j)], r4) else None)))))"

definition json_of_text :: "bytes \<Rightarrow> str + json" where
  "json_of_text b = (case from_utf8 b of
     Inl e \<Rightarrow> Inl (utf8_error_display e)
   | Inr s \<Rightarrow> (case read_json (length s) s of
       Some (j, r) \<Rightarrow> if skip r = [] then Inr j else Inl (lit ''trailing characters'')
     | None \<Rightarrow> Inl (lit ''invalid JSON'')))"

definition compact_json :: json_text where
  "compact_json = \<lparr>to_text = (\<lambda>j. Inr (str_bytes (write_json j))), of_text = json_of_text\<rparr>"

subsection \<open>Reading what was written\<close>

lemma code_points: "c = d \<Longrightarrow> code_point c = code_point d"
  by simp

lemma skip_id: "s = [] \<or> \<not> json_space (hd s) \<Longrightarrow> skip s = s"
  by (cases s) (auto simp: skip_def)

lemma strip_same [simp]: "strip p (p @ s) = Some s"
  by (simp add: strip_def)

lemma strip_other: "s = [] \<or> hd s \<noteq> hd p \<Longrightarrow> p \<noteq> [] \<Longrightarrow> strip p s = None"
  by (cases p; cases s) (auto simp: strip_def)

definition no_digit_first :: "str \<Rightarrow> bool" where
  "no_digit_first s \<longleftrightarrow> s = [] \<or> to_digit (hd s) = None"

lemma read_nat_shown:
  assumes "no_digit_first rest"
  shows "read_nat (show_nat n @ rest) = Some (n, rest)"
proof -
  obtain ds where ds: "show_nat n = map digit_chr ds" "\<forall>d\<in>set ds. d < 10" "digits_value 0 ds = n"
    using show_nat_digits_value by blast
  have vals: "map (\<lambda>c. the (to_digit c)) (map digit_chr ds) = ds"
    using ds(2) by (induction ds) auto
  have "takeWhile (\<lambda>c. to_digit c \<noteq> None) (map digit_chr ds @ rest) = map digit_chr ds"
    "dropWhile (\<lambda>c. to_digit c \<noteq> None) (map digit_chr ds @ rest) = rest"
    using ds(2) assms by (induction ds; cases rest; simp add: no_digit_first_def)+
  moreover have "ds \<noteq> []" using ds(1) show_nat_nonempty [of n] by auto
  ultimately show ?thesis using ds(1,3) vals by (simp add: read_nat_def)
qed

lemma hd_show_nat: "\<exists>d<10. hd (show_nat n) = digit_chr d"
  using show_nat_digits [of "hd (show_nat n)" n] by simp

lemma read_int_shown:
  assumes "no_digit_first rest"
  shows "read_int (show_int i @ rest) = Some (i, rest)"
proof (cases "i < 0")
  case True
  then show ?thesis using read_nat_shown [OF assms] by (simp add: show_int_def read_int_def)
next
  case False
  obtain d where "d < 10" "hd (show_nat (nat i)) = digit_chr d" using hd_show_nat by blast
  then have "strip (lit ''-'') (show_nat (nat i) @ rest) = None"
    using uc_sign_not_digit by (intro strip_other) (auto simp: lit_Cons)
  with False show ?thesis using read_nat_shown [OF assms] by (simp add: show_int_def read_int_def)
qed

text \<open>The first character of a written tree tells its kind.\<close>

lemma hd_write_json:
  "write_json j \<noteq> []"
  "\<not> json_space (hd (write_json j))"
  "hd (write_json j) \<noteq> uc (CHR '']'')" "hd (write_json j) \<noteq> uc (CHR ''}'')"
proof -
  have num: "show_int i \<noteq> [] \<and> (hd (show_int i) = uc (CHR ''-'') \<or> (\<exists>d<10. hd (show_int i) = digit_chr d))" for i
    using hd_show_nat by (auto simp: show_int_def lit_Cons)
  then show "write_json j \<noteq> []" by (cases j) (auto simp: show_bool_def write_string_def)
  have "hd (write_json j) \<in> uc ` {CHR ''n'', CHR ''t'', CHR ''f'', CHR 0x22, CHR ''['', CHR ''{'', CHR ''-''}
      \<or> (\<exists>d<10. hd (write_json j) = digit_chr d)"
    by (cases j; use num in \<open>auto simp: show_bool_def write_string_def lit_Cons\<close>)
  then show "\<not> json_space (hd (write_json j))" and "hd (write_json j) \<noteq> uc (CHR '']'')"
    and "hd (write_json j) \<noteq> uc (CHR ''}'')"
    by (auto simp: json_space_def uchr_eq_iff)
qed

lemma skip_write [simp]: "skip (write_json j @ rest) = write_json j @ rest"
  using hd_write_json [of j] by (intro skip_id) auto

lemma skip_char: "\<not> json_space c \<Longrightarrow> skip (c # s) = c # s"
  by (simp add: skip_def)

lemma no_space [simp]:
  "\<not> json_space quote" "\<not> json_space (uc (CHR '',''))" "\<not> json_space (uc (CHR '':''))" "\<not> json_space (uc (CHR ''[''))"
  "\<not> json_space (uc (CHR '']''))" "\<not> json_space (uc (CHR ''{''))" "\<not> json_space (uc (CHR ''}''))"
  by (simp_all add: json_space_def)

lemma read_number:
  assumes "no_digit_first rest"
  shows "read_json (Suc n) (show_int i @ rest) = Some (JNumber i, rest)"
proof -
  obtain c r where c: "show_int i @ rest = c # r" "c = uc (CHR ''-'') \<or> (\<exists>d<10. c = digit_chr d)"
  proof -
    have "show_int i @ rest \<noteq> []" by simp
    moreover have "hd (show_int i @ rest) = uc (CHR ''-'') \<or> (\<exists>d<10. hd (show_int i @ rest) = digit_chr d)"
      using hd_show_nat [of "nat i"] by (auto simp: show_int_def lit_Cons)
    ultimately show ?thesis using that by (metis list.exhaust_sel)
  qed
  have other: "c \<noteq> uc (CHR ''['')" "c \<noteq> uc (CHR ''{'')" "c \<noteq> quote" "c \<noteq> uc (CHR ''n'')" "c \<noteq> uc (CHR ''t'')" "c \<noteq> uc (CHR ''f'')"
    using c(2) by (auto simp: uchr_eq_iff)
  have words: "strip (lit ''null'') (c # r) = None" "strip (lit ''true'') (c # r) = None" "strip (lit ''false'') (c # r) = None"
    by (rule strip_other; simp add: lit_Cons other)+
  have "skip (c # r) = c # r" using skip_write [of "JNumber i" rest] c(1) by simp
  moreover have "read_int (c # r) = Some (i, rest)" using read_int_shown [OF assms, of i] c(1) by simp
  ultimately show ?thesis unfolding c(1) read_json.simps by (simp add: other words)
qed

lemma elements_read:
  assumes "\<And>j n rest. j \<in> set js \<Longrightarrow> length (write_json j) \<le> n \<Longrightarrow> no_digit_first rest \<Longrightarrow>
      read_json n (write_json j @ rest) = Some (j, rest)"
    and "js \<noteq> []" and "length (commas (map write_json js)) < n"
  shows "read_elements n (commas (map write_json js) @ uc (CHR '']'') # rest) = Some (js, rest)"
  using assms
proof (induction js arbitrary: n)
  case (Cons j js)
  obtain m where n: "n = Suc m" using Cons.prems(3) by (cases n) auto
  have after: "no_digit_first (uc (CHR '','') # s)" "no_digit_first (uc (CHR '']'') # s)" for s
    by (simp_all add: no_digit_first_def to_digit_def)
  show ?case
  proof (cases js)
    case Nil
    with Cons.prems(1) [of j m "uc (CHR '']'') # rest"] Cons.prems(3) after n show ?thesis by (simp add: skip_char)
  next
    case (Cons k ks)
    let ?tail = "commas (map write_json js)"
    have written: "commas (map write_json (j # js)) = write_json j @ uc (CHR '','') # ?tail" using Cons by simp
    with Cons.prems(3) n have "length (write_json j) \<le> m" "length ?tail < m"
      using hd_write_json(1) [of j] by (auto simp: Suc_le_eq)
    with Cons.prems(1) [of j m] Cons.IH [of m] Cons.prems(1) Cons after n written show ?thesis by (simp add: skip_char)
  qed
qed simp

lemma read_members_step:
  "read_members (Suc n) (write_string k @ uc (CHR '':'') # s) = (case read_json n s of
     None \<Rightarrow> None
   | Some (j, r) \<Rightarrow> (case skip r of
       [] \<Rightarrow> None
     | c # r' \<Rightarrow>
         if c = uc (CHR '','') then map_option (map_prod (Cons (k, j)) id) (read_members n r')
         else if c = uc (CHR ''}'') then Some ([(k, j)], r') else None))"
  by (simp add: write_string_def skip_char read_chars_escaped)

lemma members_read:
  assumes "\<And>k j n rest. (k, j) \<in> set kvs \<Longrightarrow> length (write_json j) \<le> n \<Longrightarrow> no_digit_first rest \<Longrightarrow>
      read_json n (write_json j @ rest) = Some (j, rest)"
    and "kvs \<noteq> []" and "length (commas (map (\<lambda>(k, j). write_string k @ uc (CHR '':'') # write_json j) kvs)) < n"
  shows "read_members n (commas (map (\<lambda>(k, j). write_string k @ uc (CHR '':'') # write_json j) kvs) @ uc (CHR ''}'') # rest)
    = Some (kvs, rest)"
  using assms
proof (induction kvs arbitrary: n)
  case (Cons kv kvs)
  obtain k j where kv: "kv = (k, j)" by (cases kv)
  obtain m where n: "n = Suc m" using Cons.prems(3) by (cases n) auto
  have after: "no_digit_first (uc (CHR '','') # s)" "no_digit_first (uc (CHR ''}'') # s)" for s
    by (simp_all add: no_digit_first_def to_digit_def)
  show ?case
  proof (cases kvs)
    case Nil
    with Cons.prems(1) [of k j m "uc (CHR ''}'') # rest"] Cons.prems(3) after n kv show ?thesis
      by (simp add: skip_char write_string_def read_chars_escaped)
  next
    case (Cons kv' kvs')
    let ?one = "\<lambda>(k, j). write_string k @ uc (CHR '':'') # write_json j"
    let ?tail = "commas (map ?one kvs)"
    have written: "commas (map ?one (kv # kvs)) = write_string k @ uc (CHR '':'') # write_json j @ uc (CHR '','') # ?tail"
      using Cons kv by simp
    with Cons.prems(3) n have "length (write_json j) \<le> m" "length ?tail < m" by auto
    moreover have "read_members m (?tail @ uc (CHR ''}'') # rest) = Some (kvs, rest)" if "length ?tail < m"
      using Cons.prems(1) Cons that by (intro Cons.IH) auto
    ultimately show ?thesis
      using Cons.prems(1) [of k j m] after kv unfolding n written
      by (simp add: read_members_step skip_char del: read_members.simps)
  qed
qed simp

lemma read_written:
  "length (write_json j) \<le> n \<Longrightarrow> no_digit_first rest \<Longrightarrow> read_json n (write_json j @ rest) = Some (j, rest)"
proof (induction j arbitrary: n rest)
  case JNull
  then obtain m where "n = Suc m" by (cases n) (auto simp: lit_Cons)
  then show ?case using skip_write [of JNull rest] strip_same [of "lit ''null''" rest] by (simp add: lit_Cons)
next
  case (JBool b)
  then obtain m where n: "n = Suc m" by (cases n) (auto simp: show_bool_def lit_Cons split: if_splits)
  have "strip (lit ''null'') (show_bool b @ rest) = None" "strip (lit ''true'') (show_bool False @ rest) = None"
    by (auto simp: show_bool_def lit_Cons intro!: strip_other)
  with n show ?case
    using skip_write [of "JBool b" rest] strip_same [of "lit ''true''" rest] strip_same [of "lit ''false''" rest]
    by (cases b) (simp_all add: show_bool_def lit_Cons)
next
  case (JNumber i)
  then obtain m where "n = Suc m" using hd_write_json(1) [of "JNumber i"] by (cases n) auto
  with read_number [OF JNumber.prems(2)] show ?case by simp
next
  case (JString s)
  then obtain m where "n = Suc m" by (cases n) (auto simp: write_string_def)
  then show ?case by (simp add: write_string_def skip_char read_chars_escaped)
next
  case (JArray js)
  then obtain m where n: "n = Suc m" by (cases n) auto
  show ?case
  proof (cases "js = []")
    case False
    let ?text = "commas (map write_json js)"
    from False obtain j js' where js: "js = j # js'" by (cases js) auto
    have ne: "?text \<noteq> []" "hd ?text \<noteq> uc (CHR '']'')" "\<not> json_space (hd ?text)"
      using hd_write_json [of j] unfolding js by (cases js'; simp)+
    have "read_elements m (?text @ uc (CHR '']'') # rest) = Some (js, rest)"
      using JArray n False by (intro elements_read) auto
    with n ne show ?thesis by (cases ?text) (auto simp: skip_char)
  qed (use n in \<open>simp add: skip_char\<close>)
next
  case (JObject kvs)
  then obtain m where n: "n = Suc m" by (cases n) auto
  show ?case
  proof (cases "kvs = []")
    case False
    let ?text = "commas (map (\<lambda>(k, j). write_string k @ uc (CHR '':'') # write_json j) kvs)"
    from False obtain k j kvs' where kvs: "kvs = (k, j) # kvs'" by (cases kvs) auto
    obtain s where written: "?text = quote # s" unfolding kvs by (cases kvs') (auto simp: write_string_def)
    have "read_members m (?text @ uc (CHR ''}'') # rest) = Some (kvs, rest)"
      using JObject n False by (intro members_read) (auto simp: snds.simps)
    with n written show ?thesis by (simp add: skip_char)
  qed (use n in \<open>simp add: skip_char\<close>)
qed

lemma json_of_written [simp]: "json_of_text (str_bytes (write_json j)) = Inr j"
  using read_written [of j "length (write_json j)" "[]"] by (simp add: json_of_text_def no_digit_first_def skip_def)

lemma compact_json_ok: "text_ok compact_json"
  using hd_write_json(1) by (simp add: text_ok_def compact_json_def)

end
