(* ===== verification/Asset_Json.thy ===== *)
theory Asset_Json imports Asset_Transfer Json_Text
begin

section \<open>The JSON of the asset transfer chaincode\<close>

text \<open>
  \<open>derive(Serialize, Deserialize)\<close> on the structs of \<open>examples/asset-transfer/src/main.rs\<close>, with their
  \<open>rename\<close> attributes: the trees of an \<open>Asset\<close> and of a \<open>QueryResult\<close>. With a reader and writer of JSON text
  (serde_json, theory \<open>Json_Text\<close>) they give the encoding that theory \<open>Asset_Transfer\<close> has as a parameter.
  The trees are the ones the derived schemas describe; so what the chaincode answers over
  the wire conforms to the metadata it serves over the wire, which is proved on the texts of both.
\<close>

subsection \<open>The structs\<close>

definition read_uint :: "int_ty \<Rightarrow> json \<Rightarrow> int option" where
  "read_uint t j = (case j of
     JNumber i \<Rightarrow> if int_ty_min t \<le> i \<and> i \<le> int_ty_max t then Some i else None
   | _ \<Rightarrow> None)"

definition asset_tree :: "asset \<Rightarrow> json" where
  "asset_tree a = JObject [(lit ''ID'', JString (as_id a)), (lit ''color'', JString (as_color a)),
     (lit ''size'', JNumber (as_size a)), (lit ''owner'', JString (as_owner a)),
     (lit ''appraisedValue'', JNumber (as_appraised_value a))]"

definition asset_of_tree :: "json \<Rightarrow> asset option" where
  "asset_of_tree j =
     Option.bind (struct_members [lit ''ID'', lit ''color'', lit ''size'', lit ''owner'', lit ''appraisedValue''] j) (\<lambda>kvs.
     Option.bind (read_member read_string None (lit ''ID'') kvs) (\<lambda>id.
     Option.bind (read_member read_string None (lit ''color'') kvs) (\<lambda>color.
     Option.bind (read_member (read_uint U32) None (lit ''size'') kvs) (\<lambda>size.
     Option.bind (read_member read_string None (lit ''owner'') kvs) (\<lambda>owner.
     Option.bind (read_member (read_uint U64) None (lit ''appraisedValue'') kvs) (\<lambda>appraised_value.
       Some \<lparr>as_id = id, as_color = color, as_size = size, as_owner = owner, as_appraised_value = appraised_value\<rparr>))))))"

definition query_result_tree :: "query_result \<Rightarrow> json" where
  "query_result_tree q = JObject [(lit ''Key'', JString (qres_key q)), (lit ''Record'', asset_tree (qres_record q))]"

definition query_result_of_tree :: "json \<Rightarrow> query_result option" where
  "query_result_of_tree j =
     Option.bind (struct_members [lit ''Key'', lit ''Record''] j) (\<lambda>kvs.
     Option.bind (read_member read_string None (lit ''Key'') kvs) (\<lambda>key.
     Option.bind (read_member asset_of_tree None (lit ''Record'') kvs) (\<lambda>record.
       Some \<lparr>qres_key = key, qres_record = record\<rparr>)))"

interpretation asset_json: json_type asset_ok "\<lambda>a. a" asset_tree asset_of_tree
  by unfold_locales (simp add: asset_tree_def asset_of_tree_def member_simps asset_ok_def read_uint_def int_ty_min_def)

interpretation query_result_json: json_type "\<lambda>q. asset_ok (qres_record q)" "\<lambda>q. q" query_result_tree query_result_of_tree
  by unfold_locales (simp add: query_result_tree_def query_result_of_tree_def member_simps asset_json.read_write)

text \<open>\<open>serde_json::to_vec\<close> and \<open>from_slice\<close>; \<open>bad\<close> is the text of serde's error on a tree that is no asset.\<close>

definition serde_assets :: "(json \<Rightarrow> str) \<Rightarrow> json_text \<Rightarrow> asset_json" where
  "serde_assets bad X = \<lparr>
     aj_to_vec = (\<lambda>a. to_text X (asset_tree a)),
     aj_from_slice = (\<lambda>b. res_bind (of_text X b) (\<lambda>j. case asset_of_tree j of None \<Rightarrow> Inl (bad j) | Some a \<Rightarrow> Inr a)),
     aj_results_to_vec = (\<lambda>qs. to_text X (JArray (map query_result_tree qs)))\<rparr>"

subsection \<open>Trees that are not deep\<close>

definition flat :: "nat \<Rightarrow> json \<Rightarrow> bool" where
  "flat d j \<longleftrightarrow> numbers_fit j \<and> json_depth j \<le> d"

lemma fold_max_le: "fold max xs a \<le> (d :: nat) \<longleftrightarrow> a \<le> d \<and> (\<forall>x\<in>set xs. x \<le> d)"
  by (induction xs arbitrary: a) auto

lemma flat_simps [simp]:
  "flat d JNull" "flat d (JBool b)" "flat d (JString s)"
  "flat d (JNumber i) \<longleftrightarrow> - (2 ^ 63) \<le> i \<and> i < 2 ^ 64"
  "flat (Suc d) (JArray js) \<longleftrightarrow> (\<forall>j\<in>set js. flat d j)"
  "flat (Suc d) (JObject kvs) \<longleftrightarrow> (\<forall>kv\<in>set kvs. flat d (snd kv))"
  by (auto simp: flat_def fold_max_le list_all_iff)

lemma flat_mono: "flat d j \<Longrightarrow> d \<le> e \<Longrightarrow> flat e j"
  by (auto simp: flat_def)

lemma flat_text: "text_ok X \<Longrightarrow> flat d j \<Longrightarrow> d < 128 \<Longrightarrow> \<exists>b. to_text X j = Inr b \<and> b \<noteq> [] \<and> of_text X b = Inr j"
  by (auto simp: text_ok_def flat_def)

lemma flat_object: "(\<And>kv. kv \<in> set kvs \<Longrightarrow> flat d (snd kv)) \<Longrightarrow> flat (Suc d) (json_object kvs)"
  using fold_bt_insert_set [of fst snd kvs "[]"] by (auto simp: json_object_def case_prod_unfold)

lemma flat_opt_member [simp]: "(\<forall>kv\<in>set (opt_member k f m). flat d (snd kv)) \<longleftrightarrow> (\<forall>a. m = Some a \<longrightarrow> flat d (f a))"
  by (cases m) (simp_all add: opt_member_def)

lemma flat_schema: "declared D t \<Longrightarrow> flat (Suc (Suc (size t))) (schema D t)"
proof (induction t)
  case (RVec t)
  then show ?case by (auto simp: declared_vec json_str_def intro!: flat_object)
next
  case (RData p)
  then show ?case by (auto simp: declared_def intro!: flat_object)
qed (auto simp: type_schema_def json_str_def intro!: flat_object)

lemma flat_struct:
  assumes "\<And>f. f \<in> set (dt_fields dt) \<Longrightarrow> declared D (fd_type f) \<and> size (fd_type f) \<le> n"
  shows "flat (n + 4) (struct_schema D dt)"
proof -
  have "flat (Suc (Suc n)) (schema D (fd_type f))" if "f \<in> set (dt_fields dt)" for f
    using assms [OF that] flat_schema flat_mono by (meson Suc_le_mono)
  then have "flat (Suc (Suc (Suc n))) (JObject (fold (\<lambda>f. bt_insert (fd_name f) (schema D (fd_type f))) (dt_fields dt) []))"
    using fold_bt_insert_set [of fd_name "\<lambda>f. schema D (fd_type f)" "dt_fields dt" "[]"] by auto
  then have "flat (Suc (Suc (Suc (Suc n)))) (struct_schema D dt)"
    unfolding struct_schema_def Let_def by (intro flat_object) (auto simp: json_str_def)
  then show ?thesis by (simp add: numeral_eq_Suc)
qed

lemma non_empty_iff: "non_empty xs = Some ys \<longleftrightarrow> xs \<noteq> [] \<and> ys = xs"
  by (auto simp: non_empty_def)

lemma flat_info: "flat (Suc d) (info_json i)"
  by (simp add: info_json_def ball_Un)

lemma flat_parameter: "flat d (par_schema p) \<Longrightarrow> flat (Suc d) (parameter_json p)"
  by (simp add: parameter_json_def ball_Un)

lemma flat_transaction:
  assumes "\<forall>j\<in>set (tx_schemas t). flat d j"
  shows "flat (Suc (Suc (Suc d))) (transaction_json t)"
proof -
  have "flat (Suc d) (parameter_json p)" if "p \<in> set (mt_parameters t)" for p
    using assms that by (intro flat_parameter) (auto simp: tx_schemas_def)
  moreover have "flat (Suc (Suc d)) j" if "mt_returns t = Some j" for j
    by (rule flat_mono [of d j]) (use assms that in \<open>auto simp: tx_schemas_def\<close>)
  ultimately have "\<forall>a. non_empty (mt_parameters t) = Some a \<longrightarrow> flat (Suc (Suc d)) (JArray (map parameter_json a))"
      "\<forall>a. mt_returns t = Some a \<longrightarrow> flat (Suc (Suc d)) a"
    by (simp_all add: non_empty_iff)
  then show ?thesis
    unfolding transaction_json_def flat_simps set_append ball_Un flat_opt_member by simp
qed

lemma flat_contract:
  assumes "\<forall>t\<in>set (ct_transactions c). flat d (transaction_json t)"
  shows "flat (Suc (Suc d)) (contract_json c)"
  using assms flat_info by (simp add: contract_json_def)

lemma flat_components:
  assumes "\<forall>kv\<in>set (comp_schemas c). flat d (snd kv)"
  shows "flat (Suc (Suc d)) (components_json c)"
  using assms by (auto simp: components_json_def write_map_def non_empty_def split: if_splits)

text \<open>The document of a contract whose types nest at most \<open>n\<close> vectors.\<close>

lemma flat_metadata:
  assumes md: "gen_metadata C rt D v ex = Some md" and D: "decls_ok D"
    and ty: "\<And>tx t. tx \<in> set (ex_txs ex) \<Longrightarrow> t \<in> set (tx_types tx) \<Longrightarrow> declared D (rt t) \<and> size (rt t) \<le> n"
    and fields: "\<And>dt f. dt \<in> ran (map_of D) \<Longrightarrow> f \<in> set (dt_fields dt) \<Longrightarrow> size (fd_type f) \<le> n"
  shows "flat (n + 9) (metadata_json md)"
proof -
  obtain c where c: "md_contracts md = [(ex_contract_name ex, c)]" "ct_transactions c = map (tx_builder C rt D) (ex_txs ex)"
    using gen_metadata_sel [OF md] by blast
  have "flat (n + 5) (transaction_json (tx_builder C rt D tx))" if "tx \<in> set (ex_txs ex)" for tx
  proof -
    have "flat (Suc (Suc n)) (schema D (rt t))" if "t \<in> set (tx_types tx)" for t
      using ty [OF \<open>tx \<in> set (ex_txs ex)\<close> that] flat_schema flat_mono by (meson Suc_le_mono)
    then have "flat (Suc (Suc (Suc (Suc (Suc n))))) (transaction_json (tx_builder C rt D tx))"
      by (intro flat_transaction) (auto simp: tx_builder_schemas)
    then show ?thesis by (simp add: numeral_eq_Suc)
  qed
  then have contract: "flat (n + 7) (contract_json c)"
    using flat_contract [of c "n + 5"] by (auto simp: c(2) numeral_eq_Suc)
  have reg: "well_registered D (comp_schemas (md_components md))"
    using md D ty by (intro gen_metadata_registers(1)) blast+
  have "flat (n + 4) (snd kv)" if "kv \<in> set (comp_schemas (md_components md))" for kv
  proof -
    obtain k j where kv: "kv = (k, j)" by fastforce
    from reg that obtain dt where "dt \<in> ran (map_of D)" "j = struct_schema D dt"
      by (auto simp: kv well_registered_def bt.entries_get)
    with D fields show ?thesis by (auto simp: kv decls_ok_def intro!: flat_struct)
  qed
  then have "flat (Suc (Suc (n + 4))) (components_json (md_components md))" by (intro flat_components) blast
  then have "flat (n + 8) (components_json (md_components md))" by (rule flat_mono) simp
  moreover have "flat (n + 8) (write_map contract_json (md_contracts md))" "flat (n + 8) (info_json (md_info md))"
    using contract flat_info [of "n + 7" "md_info md"] by (simp_all add: write_map_def c(1) numeral_eq_Suc)
  ultimately show ?thesis
    by (auto simp: metadata_json_def ball_Un numeral_eq_Suc)
qed

subsection \<open>The encoding satisfies its law\<close>

lemma flat_asset: "asset_ok a \<Longrightarrow> flat (Suc d) (asset_tree a)"
  by (simp add: asset_tree_def asset_ok_def int_ty_max_def)

lemma serde_assets_ok:
  assumes "text_ok X"
  shows "json_ok (serde_assets bad X)"
  unfolding json_ok_def
proof (intro allI impI)
  fix a assume "asset_ok a"
  with flat_text [OF assms flat_asset [of a 0]] asset_json.read_write [of a]
  show "\<exists>b. aj_to_vec (serde_assets bad X) a = Inr b \<and> b \<noteq> [] \<and> aj_from_slice (serde_assets bad X) b = Inr a"
    by (auto simp: serde_assets_def)
qed

subsection \<open>The trees and the derived schemas\<close>

definition asset_sval :: "asset \<Rightarrow> sval" where
  "asset_sval a = SStruct [Some (SString (as_id a)), Some (SString (as_color a)), Some (SInt (as_size a)),
     Some (SString (as_owner a)), Some (SInt (as_appraised_value a))]"

definition query_result_sval :: "query_result \<Rightarrow> sval" where
  "query_result_sval q = SStruct [Some (SString (qres_key q)), Some (asset_sval (qres_record q))]"

lemma asset_decls_of: "map_of asset_decls (lit ''Asset'') = Some asset_data" "map_of asset_decls (lit ''QueryResult'') = Some query_result_data"
  by (simp_all add: asset_decls_def)

lemma asset_value:
  "sval_ok asset_decls (RData (lit ''Asset'')) (asset_sval a) \<longleftrightarrow> asset_ok a"
  "schema_json skips asset_decls (RData (lit ''Asset'')) (asset_sval a) = asset_tree a"
  "no_nulls skips asset_decls (RData (lit ''Asset'')) (asset_sval a)"
  by (auto simp: asset_decls_of asset_sval_def asset_data_def asset_ok_def asset_tree_def int_ty_min_def)

lemma query_result_value:
  "sval_ok asset_decls (RData (lit ''QueryResult'')) (query_result_sval q) \<longleftrightarrow> asset_ok (qres_record q)"
  "schema_json skips asset_decls (RData (lit ''QueryResult'')) (query_result_sval q) = query_result_tree q"
  "no_nulls skips asset_decls (RData (lit ''QueryResult'')) (query_result_sval q)"
  by (simp_all add: asset_decls_of(2) query_result_sval_def query_result_data_def asset_value query_result_tree_def
      del: sval_ok.simps(5) schema_json.simps(5) no_nulls.simps(2) add: sval_ok.simps(5) [of _ "lit ''QueryResult''"]
        schema_json.simps(5) [of _ _ "lit ''QueryResult''"] no_nulls.simps(2) [of _ _ "lit ''QueryResult''"])

lemma asset_names_ok: "names_ok asset_decls"
  by (auto simp: names_ok_def asset_decls_def asset_data_def query_result_data_def ran_def split: if_splits intro!: inj_onI)

lemma asset_typed:
  assumes "tx \<in> set (ex_txs asset_ex)" and "t \<in> set (tx_types tx)"
  shows "declared asset_decls (ex_rt t) \<and> size (ex_rt t) \<le> 1"
  using assms asset_decls_ok(2) [of t]
  by (auto simp: component_types_concat asset_ex_def asset_txs_def asset_tx_def tx_types_def path_ty_def vec_ty_def)

lemma asset_accepts:
  assumes md: "gen_metadata asset_casing ex_rt asset_decls v asset_ex = Some md"
    and t: "tx \<in> set (ex_txs asset_ex)" "t \<in> set (tx_types tx)"
    and val: "sval_ok asset_decls (ex_rt t) val" "no_nulls (\<lambda>_ _. False) asset_decls (ex_rt t) val"
  shows "accepts (comp_schemas (md_components md)) (schema asset_decls (ex_rt t)) (schema_json (\<lambda>_ _. False) asset_decls (ex_rt t) val)"
proof -
  let ?cs = "comp_schemas (md_components md)"
  have ty: "\<And>tx t. tx \<in> set (ex_txs asset_ex) \<Longrightarrow> t \<in> set (tx_types tx) \<Longrightarrow> declared asset_decls (ex_rt t)"
    using asset_typed by blast
  have "components_for asset_decls ?cs"
    using gen_metadata_registers(1,2) [OF md asset_decls_ok(1) ty] asset_decls_ok(1) asset_names_ok
    by (simp add: components_for_def)
  moreover have "registers ?cs (schema asset_decls (ex_rt t))"
    using gen_metadata_registers(3) [OF md asset_decls_ok(1) ty t] .
  ultimately show ?thesis
    using accepted_iff [of asset_decls ?cs "ex_rt t" val "\<lambda>_ _. False"] ty [OF t] val by blast
qed

subsection \<open>The text of an asset\<close>

text \<open>Characters that are written as they are.\<close>

definition plain :: "char \<Rightarrow> bool" where
  "plain c \<longleftrightarrow> (32 :: nat) \<le> of_char c \<and> c \<noteq> CHR 0x22 \<and> c \<noteq> CHR 0x5C"

lemma escape_plain: "list_all plain s \<Longrightarrow> concat (map escape_chr (lit s)) = lit s"
proof (induction s)
  case (Cons c s)
  have "of_char c \<noteq> (0x22 :: nat)" "of_char c \<noteq> (0x5C :: nat)"
    using Cons.prems of_char_eq_iff [where 'a = nat, of c "CHR 0x22"] of_char_eq_iff [where 'a = nat, of c "CHR 0x5C"] by (auto simp: plain_def)
  with Cons show ?case by (simp add: escape_chr_def short_escapes_def plain_def lit_Cons)
qed simp

lemma show_nats: "show_nat 5 = lit ''5''" "show_nat 300 = lit ''300''"
  by (auto simp: show_nat.simps digit_chr_def lit_Cons scalar_value_def intro!: code_point_inject [THEN iffD1])

text \<open>The text the test \<open>asset_json_matches_go_sample_shape\<close> of \<open>main.rs\<close> expects.\<close>

lemma asset_text:
  \<open>write_json (asset_tree \<lparr>as_id = lit ''asset1'', as_color = lit ''blue'', as_size = 5, as_owner = lit ''Tomoko'', as_appraised_value = 300\<rparr>)
    = lit ''{"ID":"asset1","color":"blue","size":5,"owner":"Tomoko","appraisedValue":300}''\<close>
  by (simp add: asset_tree_def write_string_def escape_plain plain_def show_int_def show_nats) (simp add: lit_Cons)

subsection \<open>What the chaincode answers\<close>

text \<open>A transaction with these text arguments completes successfully with payload \<open>b\<close>.\<close>

definition answers :: "prost \<Rightarrow> chaincode \<Rightarrow> mock_peer \<Rightarrow> str list \<Rightarrow> bytes \<Rightarrow> bool" where
  "answers P cc mp texts b \<longleftrightarrow> (\<forall>je d txid. \<exists>m mp'.
     run_transaction P je cc (mock_serve P) d (start_tx P txid texts None) mp = Some (m, mp')
     \<and> cm_kind m = MT_Completed \<and> decode (c_response P) (cm_payload m) = Inr (into_proto (success b)))"

lemma answers_metadata:
  assumes "prost_ok P" and "cc_metadata cc = Some (Inr b)"
  shows "answers P cc mp [METADATA_FUNCTION] b"
  using metadata_is_served_by_the_shim [OF assms, of "start_tx P txid [METADATA_FUNCTION] None" for txid] assms(1)
  unfolding answers_def by (fastforce simp: start_tx_def Let_def)

lemma answers_read_asset:
  assumes P: "prost_ok P" and J: "json_ok J" and inv: "assets_inv J mp"
    and cc: "asset_chaincode P J to_json v = Some cc" and a: "assets J mp k = Some a"
  shows "\<exists>b. aj_to_vec J a = Inr b \<and> answers P cc mp [lit ''ReadAsset'', k] b"
proof -
  have "asset_ok a" using assets_stored [OF inv a] by blast
  with J obtain b where b: "aj_to_vec J a = Inr b" by (auto simp: json_ok_def)
  have "op_ok (ReadAsset k)" by simp
  note run = run_op_transaction [OF P J inv this cc]
  have "answers P cc mp [lit ''ReadAsset'', k] b"
    unfolding answers_def
  proof (intro allI)
    fix je d txid
    from run [of je d txid] a b show "\<exists>m mp'. run_transaction P je cc (mock_serve P) d (start_tx P txid [lit ''ReadAsset'', k] None) mp = Some (m, mp')
        \<and> cm_kind m = MT_Completed \<and> decode (c_response P) (cm_payload m) = Inr (into_proto (success b))"
      by (auto simp: op_message_def spec_response_def asset_txs_def asset_tx_def)
  qed
  with b show ?thesis by blast
qed

lemma answers_get_all_assets:
  assumes P: "prost_ok P" and peer: "0 < mp_range_batch mp" "bt_ok (mp_state mp)" and inv: "assets_inv J mp"
    and cc: "asset_chaincode P J to_json v = Some cc"
    and total: "\<And>qs. (\<And>q. q \<in> set qs \<Longrightarrow> asset_ok (qres_record q)) \<Longrightarrow> \<exists>b. aj_results_to_vec J qs = Inr b"
  shows "\<exists>ks b. set ks = dom (assets J mp) \<and> sorted_wrt (<) ks
    \<and> aj_results_to_vec J (map (\<lambda>k. \<lparr>qres_key = k, qres_record = the (assets J mp k)\<rparr>) ks) = Inr b
    \<and> answers P cc mp [lit ''GetAllAssets''] b"
proof -
  obtain ks where ks: "set ks = dom (assets J mp)" "sorted_wrt (<) ks"
    using run_get_all_assets [OF P peer inv] by blast
  let ?qs = "\<lambda>ks. map (\<lambda>k. \<lparr>qres_key = k, qres_record = the (assets J mp k)\<rparr>) ks"
  have "asset_ok (qres_record q)" if "q \<in> set (?qs ks)" for q
    using that ks(1) assets_stored [OF inv] by auto
  with total obtain b where b: "aj_results_to_vec J (?qs ks) = Inr b" by blast
  have "answers P cc mp [lit ''GetAllAssets''] b"
    unfolding answers_def
  proof (intro allI)
    fix je d txid
    obtain stub where stub: "stub_new P (lit ''testchannel'') txid
        \<lparr>ci_args = map str_bytes [lit ''GetAllAssets''], ci_decorations = fmempty, ci_is_init = False\<rparr> None = Inr stub"
      by (simp add: stub_new_def)
    have "calls (asset_lib J) ex_rt asset_decls asset_ex (asset_txs ! 7) (lit ''GetAllAssets'') [] []"
      by (auto simp: calls_def asset_ex_def asset_txs_def asset_tx_def METADATA_FUNCTION_def lit_Cons)
    note call = run_contract_call [OF P cc [unfolded asset_chaincode_def] this stub]
    from run_get_all_assets [OF P peer inv] obtain ks' mp' where
      run: "run_io (mock_env P d (lit ''testchannel'') txid) mp None (get_all_assets P J) = Some (Inr (Inr (?qs ks')), mp', None)"
      and "set ks' = dom (assets J mp)" "sorted_wrt (<) ks'" by blast
    with ks have "ks' = ks" by (metis strict_sorted_equal)
    with run have "run_io (mock_env P d (lit ''testchannel'') txid) mp None (asset_methods P J (tm_ident (asset_txs ! 7)) stub [])
        = Some (Inr (Inr (VData (AResults (?qs ks)))), mp', None)"
      by (simp add: asset_methods_def asset_txs_def asset_tx_def)
    from call [OF this, of je] b P show "\<exists>m mp'. run_transaction P je cc (mock_serve P) d (start_tx P txid [lit ''GetAllAssets''] None) mp = Some (m, mp')
        \<and> cm_kind m = MT_Completed \<and> decode (c_response P) (cm_payload m) = Inr (into_proto (success b))"
      by (auto simp: method_response_def ok_rty_def asset_txs_def asset_tx_def vec_ty_def path_ty_def asset_lib_def)
  qed
  with ks b show ?thesis by blast
qed

lemma asset_metadata_served:
  assumes X: "text_ok X" and cc: "asset_chaincode P J (\<lambda>md. to_text X (metadata_json md)) v = Some cc"
  shows "\<exists>md c b j. gen_metadata asset_casing ex_rt asset_decls v asset_ex = Some md
    \<and> md_contracts md = [(lit ''AssetTransfer'', c)] \<and> ct_transactions c = map (tx_builder asset_casing ex_rt asset_decls) asset_txs
    \<and> cc_metadata cc = Some (Inr b) \<and> of_text X b = Inr j \<and> metadata_of_json j = Some md"
proof -
  from contract_chaincode_invoke(3) [OF cc [unfolded asset_chaincode_def]] obtain md where
    md: "gen_metadata asset_casing ex_rt asset_decls v asset_ex = Some md" "cc_metadata cc = Some (to_text X (metadata_json md))" by blast
  obtain c where c: "md_contracts md = [(lit ''AssetTransfer'', c)]" "ct_transactions c = map (tx_builder asset_casing ex_rt asset_decls) asset_txs"
    using gen_metadata_sel [OF md(1)] by (auto simp: asset_ex_def)
  have "flat (1 + 9) (metadata_json md)"
  proof (rule flat_metadata [OF md(1) asset_decls_ok(1)])
    show "\<And>tx t. tx \<in> set (ex_txs asset_ex) \<Longrightarrow> t \<in> set (tx_types tx) \<Longrightarrow> declared asset_decls (ex_rt t) \<and> size (ex_rt t) \<le> 1"
      by (rule asset_typed)
    show "size (fd_type f) \<le> 1" if "dt \<in> ran (map_of asset_decls)" "f \<in> set (dt_fields dt)" for dt f
      using that by (auto simp: asset_decls_def asset_data_def query_result_data_def ran_def split: if_splits)
  qed
  from flat_text [OF X this] obtain b where b: "to_text X (metadata_json md) = Inr b" "of_text X b = Inr (metadata_json md)" by auto
  have "without_null_returns md = md"
    by (rule gen_metadata_no_null [OF md(1)])
      (auto simp: asset_ex_def asset_txs_def asset_tx_def path_ty_def vec_ty_def asset_decls_of declared_def)
  then have "metadata_of_json (metadata_json md) = Some md"
    using metadata_json.read_write [OF gen_metadata_ok [OF md(1) asset_decls_ok(1)]] asset_typed by simp
  with md b c show ?thesis by auto
qed

lemma asset_returns:
  assumes md: "gen_metadata asset_casing ex_rt asset_decls v asset_ex = Some md"
    and c: "ct_transactions c = map (tx_builder asset_casing ex_rt asset_decls) asset_txs"
    and tx: "tx \<in> set asset_txs" "tm_ok_ty tx = Some t"
  shows "\<exists>t'\<in>set (ct_transactions c). mt_name t' = tm_wire_name tx \<and> mt_returns t' = Some (schema asset_decls (ex_rt t))
    \<and> (\<forall>val. sval_ok asset_decls (ex_rt t) val \<and> no_nulls (\<lambda>_ _. False) asset_decls (ex_rt t) val
        \<longrightarrow> accepts (comp_schemas (md_components md)) (schema asset_decls (ex_rt t)) (schema_json (\<lambda>_ _. False) asset_decls (ex_rt t) val))"
  using tx c asset_accepts [OF md, of tx t]
  by (intro bexI [of _ "tx_builder asset_casing ex_rt asset_decls tx"]) (auto simp: tx_builder_sel asset_ex_def tx_types_def)

lemma serde_assets_sel:
  "aj_to_vec (serde_assets bad X) a = to_text X (asset_tree a)"
  "aj_results_to_vec (serde_assets bad X) qs = to_text X (JArray (map query_result_tree qs))"
  by (simp_all add: serde_assets_def)

lemma flat_query_results:
  "(\<And>q. q \<in> set qs \<Longrightarrow> asset_ok (qres_record q)) \<Longrightarrow> flat 3 (JArray (map query_result_tree qs))"
  by (auto simp: numeral_eq_Suc query_result_tree_def intro: flat_asset)

lemma asset_rts:
  "ex_rt (path_ty ''Asset'') = RData (lit ''Asset'')" "ex_rt (vec_ty (path_ty ''QueryResult'')) = RVec (RData (lit ''QueryResult''))"
  by (simp_all add: path_ty_def vec_ty_def)

lemma query_results_value:
  "sval_ok asset_decls (RVec (RData (lit ''QueryResult''))) (SVec (map query_result_sval qs)) \<longleftrightarrow> (\<forall>q\<in>set qs. asset_ok (qres_record q))"
  "schema_json skips asset_decls (RVec (RData (lit ''QueryResult''))) (SVec (map query_result_sval qs)) = JArray (map query_result_tree qs)"
  "no_nulls skips asset_decls (RVec (RData (lit ''QueryResult''))) (SVec (map query_result_sval qs))"
  by (simp_all add: list_all_iff query_result_value del: sval_ok.simps(5) schema_json.simps(5) no_nulls.simps(2))

lemma read_asset_conforms:
  assumes P: "prost_ok P" and X: "text_ok X" and cc: "asset_chaincode P (serde_assets bad X) to_json v = Some cc"
    and inv: "assets_inv (serde_assets bad X) mp" and a: "assets (serde_assets bad X) mp k = Some a"
    and accepted: "\<And>val. sval_ok asset_decls (ex_rt (path_ty ''Asset'')) val \<Longrightarrow>
        no_nulls (\<lambda>_ _. False) asset_decls (ex_rt (path_ty ''Asset'')) val \<Longrightarrow>
        accepts cs s (schema_json (\<lambda>_ _. False) asset_decls (ex_rt (path_ty ''Asset'')) val)"
  shows "\<exists>b j. answers P cc mp [lit ''ReadAsset'', k] b \<and> of_text X b = Inr j \<and> accepts cs s j \<and> asset_of_tree j = Some a"
proof -
  have ok: "asset_ok a" using assets_stored [OF inv a] by blast
  from answers_read_asset [OF P serde_assets_ok [OF X] inv cc a] obtain b where
    b: "to_text X (asset_tree a) = Inr b" "answers P cc mp [lit ''ReadAsset'', k] b"
    by (auto simp: serde_assets_sel)
  with flat_text [OF X flat_asset [OF ok, of 0]] have "of_text X b = Inr (asset_tree a)" by auto
  moreover have "accepts cs s (asset_tree a)"
    using accepted [of "asset_sval a"] ok by (simp only: asset_rts asset_value simp_thms)
  ultimately show ?thesis using b(2) asset_json.read_write [OF ok] by blast
qed

lemma get_all_assets_conforms:
  assumes P: "prost_ok P" and X: "text_ok X" and cc: "asset_chaincode P (serde_assets bad X) to_json v = Some cc"
    and inv: "assets_inv (serde_assets bad X) mp" and peer: "0 < mp_range_batch mp" "bt_ok (mp_state mp)"
    and accepted: "\<And>val. sval_ok asset_decls (ex_rt (vec_ty (path_ty ''QueryResult''))) val \<Longrightarrow>
        no_nulls (\<lambda>_ _. False) asset_decls (ex_rt (vec_ty (path_ty ''QueryResult''))) val \<Longrightarrow>
        accepts cs s (schema_json (\<lambda>_ _. False) asset_decls (ex_rt (vec_ty (path_ty ''QueryResult''))) val)"
  shows "\<exists>b j qs. answers P cc mp [lit ''GetAllAssets''] b \<and> of_text X b = Inr j \<and> accepts cs s j
      \<and> read_vec query_result_of_tree j = Some qs \<and> set (map qres_key qs) = dom (assets (serde_assets bad X) mp)
      \<and> (\<forall>q\<in>set qs. assets (serde_assets bad X) mp (qres_key q) = Some (qres_record q))"
proof -
  let ?J = "serde_assets bad X"
  have "\<exists>b. aj_results_to_vec ?J qs = Inr b" if "\<And>q. q \<in> set qs \<Longrightarrow> asset_ok (qres_record q)" for qs
    using flat_text [OF X flat_query_results [OF that]] by (auto simp: serde_assets_sel)
  from answers_get_all_assets [OF P peer inv cc this] obtain ks b where
    ks: "set ks = dom (assets ?J mp)" and b: "answers P cc mp [lit ''GetAllAssets''] b"
    and vec: "aj_results_to_vec ?J (map (\<lambda>k. \<lparr>qres_key = k, qres_record = the (assets ?J mp k)\<rparr>) ks) = Inr b" by blast
  let ?qs = "map (\<lambda>k. \<lparr>qres_key = k, qres_record = the (assets ?J mp k)\<rparr>) ks"
  have ok: "asset_ok (qres_record q)" if "q \<in> set ?qs" for q
    using that ks assets_stored [OF inv] by auto
  have "flat 3 (JArray (map query_result_tree ?qs))" by (rule flat_query_results) (rule ok)
  from flat_text [OF X this] vec have "of_text X b = Inr (JArray (map query_result_tree ?qs))"
    by (auto simp: serde_assets_sel)
  moreover have "accepts cs s (JArray (map query_result_tree ?qs))"
    using accepted [of "SVec (map query_result_sval ?qs)"] ok
    by (simp only: asset_rts query_results_value simp_thms) blast
  moreover have "read_vec query_result_of_tree (JArray (map query_result_tree ?qs)) = Some ?qs"
    using query_result_json.read_vec_write [of ?qs] ok by (simp add: list_all_iff)
  ultimately show ?thesis using b ks by (intro exI [of _ b] exI [of _ "JArray (map query_result_tree ?qs)"] exI [of _ ?qs]) auto
qed

subsection \<open>Property\<close>

text \<open>C18. What the sample chaincode answers conforms to the metadata it publishes. Both are read as the peer gets
  them, as texts: the one of \<open>GetMetadata\<close> reads back as a document whose contract has the transactions
  \<open>ReadAsset\<close> and \<open>GetAllAssets\<close>; the texts these answer with parse to trees that the documented result
  schemas accept, resolved in the document's own components, and that read back as the stored assets. The reader
  and writer of JSON text are any that satisfy \<open>text_ok\<close>.\<close>

theorem responses_conform_to_served_metadata:
  assumes "prost_ok P" and "text_ok X" and "asset_chaincode P (serde_assets bad X) (\<lambda>md. to_text X (metadata_json md)) v = Some cc"
    and "assets_inv (serde_assets bad X) mp" and "0 < mp_range_batch mp" and "bt_ok (mp_state mp)"
  shows "\<exists>b0 j0 md c t s t' s'. answers P cc mp [METADATA_FUNCTION] b0 \<and> of_text X b0 = Inr j0 \<and> metadata_of_json j0 = Some md
    \<and> md_contracts md = [(lit ''AssetTransfer'', c)]
    \<and> t \<in> set (ct_transactions c) \<and> mt_name t = lit ''ReadAsset'' \<and> mt_returns t = Some s
    \<and> (\<forall>k a. assets (serde_assets bad X) mp k = Some a \<longrightarrow>
        (\<exists>b j. answers P cc mp [lit ''ReadAsset'', k] b \<and> of_text X b = Inr j
          \<and> accepts (comp_schemas (md_components md)) s j \<and> asset_of_tree j = Some a))
    \<and> t' \<in> set (ct_transactions c) \<and> mt_name t' = lit ''GetAllAssets'' \<and> mt_returns t' = Some s'
    \<and> (\<exists>b j qs. answers P cc mp [lit ''GetAllAssets''] b \<and> of_text X b = Inr j
          \<and> accepts (comp_schemas (md_components md)) s' j \<and> read_vec query_result_of_tree j = Some qs
          \<and> set (map qres_key qs) = dom (assets (serde_assets bad X) mp)
          \<and> (\<forall>q\<in>set qs. assets (serde_assets bad X) mp (qres_key q) = Some (qres_record q)))"
proof -
  from asset_metadata_served [OF assms(2,3)] obtain md c b0 j0 where
    md: "gen_metadata asset_casing ex_rt asset_decls v asset_ex = Some md" "md_contracts md = [(lit ''AssetTransfer'', c)]"
    and txs: "ct_transactions c = map (tx_builder asset_casing ex_rt asset_decls) asset_txs"
    and doc: "cc_metadata cc = Some (Inr b0)" "of_text X b0 = Inr j0" "metadata_of_json j0 = Some md" by blast
  note returns = asset_returns [OF md(1) txs]
  have read_tx: "asset_txs ! 2 \<in> set asset_txs" "tm_ok_ty (asset_txs ! 2) = Some (path_ty ''Asset'')"
      "tm_wire_name (asset_txs ! 2) = lit ''ReadAsset''"
    by (simp_all add: asset_txs_def asset_tx_def)
  from returns [OF read_tx(1,2)] obtain t where
    t: "t \<in> set (ct_transactions c)" "mt_name t = lit ''ReadAsset''" "mt_returns t = Some (schema asset_decls (ex_rt (path_ty ''Asset'')))"
    and accepted: "\<And>val. sval_ok asset_decls (ex_rt (path_ty ''Asset'')) val \<Longrightarrow> no_nulls (\<lambda>_ _. False) asset_decls (ex_rt (path_ty ''Asset'')) val \<Longrightarrow>
      accepts (comp_schemas (md_components md)) (schema asset_decls (ex_rt (path_ty ''Asset''))) (schema_json (\<lambda>_ _. False) asset_decls (ex_rt (path_ty ''Asset'')) val)"
    unfolding read_tx(3) by blast
  note read = read_asset_conforms [OF assms(1-4) _ accepted]
  have all_tx: "asset_txs ! 7 \<in> set asset_txs" "tm_ok_ty (asset_txs ! 7) = Some (vec_ty (path_ty ''QueryResult''))"
      "tm_wire_name (asset_txs ! 7) = lit ''GetAllAssets''"
    by (simp_all add: asset_txs_def asset_tx_def)
  from returns [OF all_tx(1,2)] obtain t' where
    t': "t' \<in> set (ct_transactions c)" "mt_name t' = lit ''GetAllAssets''" "mt_returns t' = Some (schema asset_decls (ex_rt (vec_ty (path_ty ''QueryResult''))))"
    and accepted': "\<And>val. sval_ok asset_decls (ex_rt (vec_ty (path_ty ''QueryResult''))) val \<Longrightarrow> no_nulls (\<lambda>_ _. False) asset_decls (ex_rt (vec_ty (path_ty ''QueryResult''))) val \<Longrightarrow>
      accepts (comp_schemas (md_components md)) (schema asset_decls (ex_rt (vec_ty (path_ty ''QueryResult'')))) (schema_json (\<lambda>_ _. False) asset_decls (ex_rt (vec_ty (path_ty ''QueryResult''))) val)"
    unfolding all_tx(3) by blast
  note all = get_all_assets_conforms [OF assms(1-6) accepted']
  from answers_metadata [OF assms(1) doc(1)] doc(2,3) md(2) t t' read all show ?thesis by blast
qed

theorem responses_conform_to_served_metadata_witness:
  "\<exists>cc b0 b j. asset_chaincode wire_prost (serde_assets (\<lambda>_. []) compact_json) (\<lambda>md. to_text compact_json (metadata_json md)) [] = Some cc
    \<and> answers wire_prost cc (empty_peer\<lparr>mp_state := [(lit ''asset7'', str_bytes (write_json (asset_tree ex_asset)))]\<rparr>) [METADATA_FUNCTION] b0
    \<and> answers wire_prost cc (empty_peer\<lparr>mp_state := [(lit ''asset7'', str_bytes (write_json (asset_tree ex_asset)))]\<rparr>) [lit ''ReadAsset'', lit ''asset7''] b
    \<and> of_text compact_json b = Inr j \<and> asset_of_tree j = Some ex_asset"
proof -
  let ?J = "serde_assets (\<lambda>_. []) compact_json"
  obtain cc where cc: "asset_chaincode wire_prost ?J (\<lambda>md. to_text compact_json (metadata_json md)) [] = Some cc"
    using asset_chaincode_exists by blast
  have ok: "asset_ok ex_asset" by (simp add: ex_asset_def asset_ok_def int_ty_max_def)
  have "to_text compact_json (asset_tree ex_asset) = Inr (str_bytes (write_json (asset_tree ex_asset)))"
    by (simp add: compact_json_def)
  with flat_text [OF compact_json_ok flat_asset [OF ok, of 0]] asset_json.read_write [OF ok]
  have stored: "str_bytes (write_json (asset_tree ex_asset)) \<noteq> []" "aj_from_slice ?J (str_bytes (write_json (asset_tree ex_asset))) = Inr ex_asset"
    by (auto simp: serde_assets_def)
  let ?mp = "empty_peer\<lparr>mp_state := [(lit ''asset7'', str_bytes (write_json (asset_tree ex_asset)))]\<rparr>"
  have inv: "assets_inv ?J ?mp" using stored ok by (auto simp: assets_inv_def ledger_def ex_asset_def empty_peer_def)
  have peer: "0 < mp_range_batch ?mp" "bt_ok (mp_state ?mp)" by (simp_all add: empty_peer_def bt_ok_def)
  have a: "assets ?J ?mp (lit ''asset7'') = Some ex_asset"
    using stored by (simp add: assets_def ledger_def empty_peer_def)
  from responses_conform_to_served_metadata [OF wire_prost_ok compact_json_ok cc inv peer] cc a show ?thesis by blast
qed

end
