(* ===== verification/Sample_Program.thy ===== *)
theory Sample_Program imports Asset_Json Server
begin

section \<open>The sample program\<close>

text \<open>
  \<open>main\<close> of \<open>examples/asset-transfer/src/main.rs\<close> after its logging is set up: the server configured from
  the environment serves the chaincode. The theorem joins all layers: environment, server, connection, generated
  chaincode, stub, and the JSON of the assets.
\<close>

definition asset_main :: "(uchr \<Rightarrow> bool) \<Rightarrow> (str \<Rightarrow> str + 'a list) \<Rightarrow> environment \<Rightarrow> ('a \<Rightarrow> str + unit) \<Rightarrow> ('a \<Rightarrow> str) \<Rightarrow> bool \<Rightarrow>
    prost \<Rightarrow> chaincode \<Rightarrow> server_event list \<Rightarrow> shim_error + serving option" where
  "asset_main esc resolve env bind show_addr installed P cc es =
     res_bind (from_env esc resolve env) (\<lambda>server. start bind show_addr installed P (cc_metadata cc) server es)"

lemma main_connection:
  assumes "asset_main esc resolve env bind show_addr installed P cc es = Inr (Some g)" and "i < length (sg_connections g)"
  shows "\<exists>server d. from_env esc resolve env = Inr server
    \<and> sys_run P (cc_metadata cc) (moves_of i es) (sys_init P d (sv_chaincode_id server)) = Some (sg_connections g ! i)"
  using assms started_connection(1) [of bind show_addr installed P "cc_metadata cc" _ es g i]
  by (fastforce simp: asset_main_def res_bind_Inr_iff server_connect_def)

lemma handshake_registers:
  assumes "sys_run P meta handshake_actions (sys_init P d cc_id) = Some s"
  shows "quiet s \<and> s_pushed s = [(FromLoop, register_message P d cc_id)]"
  using assms by (auto simp: handshake_actions_def sys_init_def loop_push_def dispatch_def quiet_def session_simps)

lemma serve_moves:
  assumes "i < length (sg_connections g)" and "sys_run P meta as (sg_connections g ! i) = Some s"
  shows "serve_with_listener P meta shutdown server (map (Moves i) as @ es) g
    = serve_with_listener P meta shutdown server es (g\<lparr>sg_connections := (sg_connections g)[i := s]\<rparr>)"
  using assms
proof (induction as arbitrary: g)
  case Nil
  then have "s = sg_connections g ! i" by simp
  then show ?case by simp
next
  case (Cons a as)
  then obtain s' where s': "sys_step P meta a (sg_connections g ! i) = Some s'" "sys_run P meta as s' = Some s"
    by (auto simp: bind_eq_Some_conv)
  with Cons.IH [of "g\<lparr>sg_connections := (sg_connections g)[i := s']\<rparr>"] Cons.prems(1) show ?case by simp
qed

subsection \<open>Property\<close>

text \<open>C3. The sample program, started from its environment, implements the map of assets: each connection of its server
  whose handshake is done has registered under the configured id and answers any sequence of transactions, sent as text arguments,
  with the results of the abstract operations on the assets, kept as JSON text in the peer's world
  state, which ends as the resulting map; for every other connection the server holds, any signal it gets and any
  reader and writer of JSON text.\<close>

theorem sample_program_refines_spec:
  assumes "prost_ok P" and "text_ok X"
    and "asset_chaincode P (serde_assets bad X) (\<lambda>md. to_text X (metadata_json md)) v = Some cc"
    and "asset_main esc resolve env bind show_addr installed P cc es = Inr (Some g)"
    and "i < length (sg_connections g)" and "moves_of i es = handshake_actions"
    and "assets_inv (serde_assets bad X) mp" and "list_all (\<lambda>(t, op). op_ok op) history"
  shows "\<exists>server now ms mp'. from_env esc resolve env = Inr server
    \<and> s_pushed (sg_connections g ! i) = [(FromLoop, register_message P now (sv_chaincode_id server))]
    \<and> connection_transactions P je cc (mock_serve P) d (map (\<lambda>(t, op). op_message P t op) history) (sg_connections g ! i) mp
        = Some (ms, mp')
    \<and> map key_of ms = map (\<lambda>(t, op). (lit ''testchannel'', t)) history
    \<and> map (\<lambda>m. decode (c_response P) (cm_payload m)) ms
        = map (\<lambda>r. Inr (into_proto (spec_response (serde_assets bad X) r)))
            (fst (spec_run (map snd history) (assets (serde_assets bad X) mp)))
    \<and> assets (serde_assets bad X) mp' = snd (spec_run (map snd history) (assets (serde_assets bad X) mp))"
proof -
  from main_connection [OF assms(4,5)] obtain server now where server: "from_env esc resolve env = Inr server"
    and run: "sys_run P (cc_metadata cc) handshake_actions (sys_init P now (sv_chaincode_id server)) = Some (sg_connections g ! i)"
    unfolding assms(6) by blast
  from handshake_registers [OF run] have conn: "quiet (sg_connections g ! i)"
      "s_pushed (sg_connections g ! i) = [(FromLoop, register_message P now (sv_chaincode_id server))]" by simp_all
  from quiet_connection_refines_spec [OF assms(1) serde_assets_ok [OF assms(2)] assms(3,7,8) conn(1), of je d]
  show ?thesis using server conn(2) by blast
qed

text \<open>Two peers connect; the second one does its handshake, then SIGTERM ends the listening.\<close>

definition ex_peer_events :: "server_event list" where
  "ex_peer_events = [Connect None, Connect None] @ map (Moves 1) handshake_actions @ [Signalled Sigterm]"

lemma ex_peer_served:
  "\<exists>g. asset_main (\<lambda>_. False) (\<lambda>a. Inr [a]) ex_environment (\<lambda>_. Inr ()) id True P cc ex_peer_events = Inr (Some g)
    \<and> length (sg_connections g) = 2 \<and> moves_of 1 ex_peer_events = handshake_actions
    \<and> (\<forall>server. from_env (\<lambda>_. False) (\<lambda>a. Inr [a]) ex_environment = Inr server \<longrightarrow> sv_chaincode_id server = lit ''basic_1.0:cafe'')"
proof -
  have env: "from_env (\<lambda>_. False) (\<lambda>a. Inr [a]) ex_environment = Inr \<lparr>sv_chaincode_id = lit ''basic_1.0:cafe'',
      sv_address = lit ''0.0.0.0:7052'', sv_max_message_size = DEFAULT_MAX_MESSAGE_SIZE\<rparr>"
    by (simp add: from_env_def env_either_def ex_environment_def server_new_def)
  obtain s where s: "sys_run P (cc_metadata cc) handshake_actions (sys_init P None (lit ''basic_1.0:cafe'')) = Some s"
    using handshake_quiet by blast
  let ?conn = "sys_init P None (lit ''basic_1.0:cafe'')"
  let ?g = "\<lparr>sg_listening = True, sg_connections = [?conn, ?conn]\<rparr>"
  let ?server = "\<lparr>sv_chaincode_id = lit ''basic_1.0:cafe'', sv_address = lit ''0.0.0.0:7052'', sv_max_message_size = DEFAULT_MAX_MESSAGE_SIZE\<rparr>"
  have "serve_with_listener P (cc_metadata cc) (shutdown_signal True) ?server ex_peer_events serve_start
      = serve_with_listener P (cc_metadata cc) (shutdown_signal True) ?server (map (Moves 1) handshake_actions @ [Signalled Sigterm]) ?g"
    by (simp add: ex_peer_events_def serve_start_def server_connect_def)
  also have "\<dots> = Some \<lparr>sg_listening = False, sg_connections = [?conn, s]\<rparr>"
    using serve_moves [of 1 ?g P "cc_metadata cc" handshake_actions s "shutdown_signal True" ?server "[Signalled Sigterm]"] s
    by (simp add: shutdown_signal_def)
  finally have "asset_main (\<lambda>_. False) (\<lambda>a. Inr [a]) ex_environment (\<lambda>_. Inr ()) id True P cc ex_peer_events
      = Inr (Some \<lparr>sg_listening = False, sg_connections = [?conn, s]\<rparr>)"
    by (simp add: asset_main_def env start_def)
  moreover have "moves_of 1 ex_peer_events = handshake_actions"
    by (simp add: ex_peer_events_def handshake_actions_def)
  ultimately show ?thesis using env by simp
qed

theorem sample_program_refines_spec_witness:
  "\<exists>cc g ms mp'. asset_main (\<lambda>_. False) (\<lambda>a. Inr [a]) ex_environment (\<lambda>_. Inr ()) id True wire_prost cc ex_peer_events = Inr (Some g)
    \<and> connection_transactions wire_prost id cc (mock_serve wire_prost) None
        (map (\<lambda>(t, op). op_message wire_prost t op)
          [(lit ''t1'', CreateAsset ex_asset), (lit ''t2'', TransferAsset (lit ''asset7'') (lit ''Bob''))])
        (sg_connections g ! 1) empty_peer = Some (ms, mp')
    \<and> map (\<lambda>m. decode (c_response wire_prost) (cm_payload m)) ms
        = [Inr (into_proto (success [])), Inr (into_proto (success (str_bytes (lit ''Ada''))))]
    \<and> assets (serde_assets (\<lambda>_. []) compact_json) mp' = [lit ''asset7'' \<mapsto> ex_asset\<lparr>as_owner := lit ''Bob''\<rparr>]"
proof -
  let ?J = "serde_assets (\<lambda>_. []) compact_json"
  obtain cc where cc: "asset_chaincode wire_prost ?J (\<lambda>md. to_text compact_json (metadata_json md)) [] = Some cc"
    using asset_chaincode_exists by blast
  let ?history = "[(lit ''t1'', CreateAsset ex_asset), (lit ''t2'', TransferAsset (lit ''asset7'') (lit ''Bob''))]"
  obtain g where g: "asset_main (\<lambda>_. False) (\<lambda>a. Inr [a]) ex_environment (\<lambda>_. Inr ()) id True wire_prost cc ex_peer_events = Inr (Some g)"
      "1 < length (sg_connections g)" "moves_of 1 ex_peer_events = handshake_actions"
    using ex_peer_served [of wire_prost cc] by auto
  have inv: "assets_inv ?J empty_peer" by (simp add: assets_inv_def ledger_def empty_peer_def)
  have ok: "list_all (\<lambda>(t, op). op_ok op) ?history" by (simp add: ex_asset_def asset_ok_def int_ty_max_def)
  have empty: "assets ?J empty_peer = Map.empty" by (simp add: assets_def ledger_def empty_peer_def fun_eq_iff)
  have spec: "spec_run (map snd ?history) Map.empty
      = ([Inr Done, Inr (TheOwner (lit ''Ada''))], [lit ''asset7'' \<mapsto> ex_asset\<lparr>as_owner := lit ''Bob''\<rparr>])"
    by (simp add: ex_asset_def)
  from sample_program_refines_spec [OF wire_prost_ok compact_json_ok cc g inv ok, of id None]
  show ?thesis using g(1) unfolding empty spec
    by (intro exI [of _ cc] exI [of _ g]) (auto simp: spec_response_def simp del: connection_transactions.simps)
qed

end
