(* ===== verification/Interleaving.thy ===== *)
theory Interleaving imports Session Connection "HOL-Library.Sublist"
begin

section \<open>Programs in the concurrent connection\<close>

text \<open>
  Theory \<open>System\<close> leaves open what the user's code asks for, and theory \<open>Session\<close> runs one program
  with nothing in between. Here every transaction task runs its own program (the chaincode's
  \<open>init\<close> or \<open>invoke\<close> on the task's stub) and all of them, the loop, the transport and the
  peer move in any order: \<open>advance\<close> says which actions of a task its program allows and
  what is left of it afterwards. The theorems say that no interleaving can be told from a
  sequential run: what a transaction ends with is what its program gives when it is run alone
  against its own replies.
\<close>

subsection \<open>Runs with programs\<close>

text \<open>What is left of each task's program.\<close>

type_synonym programs = "nat \<Rightarrow> response io"

text \<open>The program a task runs on its stub.\<close>

definition entry :: "chaincode \<Rightarrow> bool \<times> stub \<Rightarrow> response io" where
  "entry cc bs = (if fst bs then cc_init cc else cc_invoke cc) (snd bs)"

text \<open>A call that waits gets its result when the step logs one.\<close>

definition resume :: "nat \<Rightarrow> sys \<Rightarrow> sys \<Rightarrow> programs \<Rightarrow> programs option" where
  "resume i s s' ks =
     (if length (tk_log (s_tasks s' ! i)) = length (tk_log (s_tasks s ! i)) then Some ks
      else case ks i of
        Req t b k \<Rightarrow> Some (ks(i := k (snd (last (tk_log (s_tasks s' ! i))))))
      | _ \<Rightarrow> None)"

fun advance :: "(str \<Rightarrow> str) \<Rightarrow> chaincode \<Rightarrow> action \<Rightarrow> sys \<Rightarrow> sys \<Rightarrow> programs \<Rightarrow> programs option" where
  "advance je cc (Prepare d i) s s' ks = (case tk_stub (s_tasks s' ! i) of
      None \<Rightarrow> Some ks
    | Some bs \<Rightarrow> Some (ks(i := entry cc bs)))"
| "advance je cc (Request i j t b) s s' ks = (case ks i of
      Req t' b' k \<Rightarrow> if j = 0 \<and> t = t' \<and> b = b' then Some ks else None
    | _ \<Rightarrow> None)"
| "advance je cc (Acquire d i j) s s' ks = resume i s s' ks"
| "advance je cc (StrandPush i j) s s' ks = resume i s s' ks"
| "advance je cc (Receive i j) s s' ks = resume i s s' ks"
| "advance je cc (Cancel i j) s s' ks = None"
| "advance je cc (EmitEvent i e) s s' ks = (case ks i of
      Step (Some e') m \<Rightarrow> if e = e' then Some (ks(i := m)) else None
    | _ \<Rightarrow> None)"
| "advance je cc (UserDone i outcome) s s' ks = (case ks i of
      Ret r \<Rightarrow> if outcome = Returned r then Some ks else None
    | Panic text \<Rightarrow> if outcome = Panicked (je text) then Some ks else None
    | _ \<Rightarrow> None)"
| "advance je cc _ s s' ks = Some ks"

inductive programmed :: "prost \<Rightarrow> (str \<Rightarrow> str) \<Rightarrow> chaincode \<Rightarrow> str \<Rightarrow> sys \<Rightarrow> programs \<Rightarrow> bool"
  for P je cc cc_id where
  init: "programmed P je cc cc_id (sys_init P d cc_id) (\<lambda>i. Panic [])"
| act: "programmed P je cc cc_id s ks \<Longrightarrow> sys_step P (cc_metadata cc) a s = Some s' \<Longrightarrow>
    advance je cc a s s' ks = Some ks' \<Longrightarrow> programmed P je cc cc_id s' ks'"
| silent: "programmed P je cc cc_id s ks \<Longrightarrow> ks i = Tau m \<Longrightarrow> programmed P je cc cc_id s (ks(i := m))"

lemma programmed_reachable: "programmed P je cc cc_id s ks \<Longrightarrow> reachable P (cc_metadata cc) cc_id s"
  by (induction rule: programmed.induct) (auto intro: reachable.intros)

text \<open>A schedule: \<open>Inl\<close> an action, \<open>Inr\<close> the task whose program makes a silent step.\<close>

fun schedule :: "prost \<Rightarrow> (str \<Rightarrow> str) \<Rightarrow> chaincode \<Rightarrow> (action + nat) list \<Rightarrow> sys \<times> programs \<Rightarrow> (sys \<times> programs) option" where
  "schedule P je cc [] sk = Some sk"
| "schedule P je cc (Inl a # as) (s, ks) = (case sys_step P (cc_metadata cc) a s of
      None \<Rightarrow> None
    | Some s' \<Rightarrow> (case advance je cc a s s' ks of
          None \<Rightarrow> None
        | Some ks' \<Rightarrow> schedule P je cc as (s', ks')))"
| "schedule P je cc (Inr i # as) (s, ks) = (case ks i of
      Step None m \<Rightarrow> schedule P je cc as (s, ks(i := m))
    | _ \<Rightarrow> None)"

lemma schedule_programmed:
  assumes "schedule P je cc as (s, ks) = Some (s', ks')" and "programmed P je cc cc_id s ks"
  shows "programmed P je cc cc_id s' ks'"
  using assms
proof (induction P je cc as "(s, ks)" arbitrary: s ks rule: schedule.induct)
  case (2 P je cc a as s ks)
  then show ?case by (auto split: option.splits intro: programmed.act)
next
  case (3 P je cc i as s ks)
  then show ?case by (auto split: io.splits option.splits intro: programmed.silent)
qed simp

subsection \<open>A program run against a script\<close>

text \<open>The calls a program made, each with its result, replayed.\<close>

type_synonym call = "(msg_type \<times> bytes) \<times> (shim_error + chaincode_message)"

fun script_env :: "call list env" where
  "script_env [] t b = None"
| "script_env ((q, r) # rest) t b = (if q = (t, b) then Some (r, rest) else None)"

text \<open>Replaying \<open>calls\<close> takes \<open>prog\<close> to \<open>m\<close> and leaves the event slot at \<open>ev\<close>.\<close>

definition replays :: "call list \<Rightarrow> response io \<Rightarrow> chaincode_event option \<Rightarrow> response io \<Rightarrow> bool" where
  "replays calls prog ev m \<longleftrightarrow>
     (\<forall>rest. run_io script_env (calls @ rest) None prog = run_io script_env rest ev m)"

lemma replays_start: "replays [] prog None prog"
  by (simp add: replays_def)

lemma replays_step: "replays calls prog ev (Step e m) \<Longrightarrow> replays calls prog (case e of None \<Rightarrow> ev | Some _ \<Rightarrow> e) m"
  by (simp add: replays_def)

lemma replays_call: "replays calls prog ev (Req t b k) \<Longrightarrow> replays (calls @ [((t, b), r)]) prog ev (k r)"
  by (simp add: replays_def)

text \<open>The program has ended, and this is the response its task reports.\<close>

fun ended :: "(str \<Rightarrow> str) \<Rightarrow> response io \<Rightarrow> response \<Rightarrow> bool" where
  "ended je (Ret r) resp \<longleftrightarrow> resp = outcome_response (Returned r)"
| "ended je (Panic text) resp \<longleftrightarrow> resp = outcome_response (Panicked (je text))"
| "ended je _ resp \<longleftrightarrow> False"

definition reported :: "(str \<Rightarrow> str) \<Rightarrow> str + response \<Rightarrow> response" where
  "reported je r = outcome_response (case r of Inl text \<Rightarrow> Panicked (je text) | Inr resp \<Rightarrow> Returned resp)"

lemma replays_ended:
  assumes "replays calls prog ev m" and "ended je m resp"
  shows "\<exists>r. run_io script_env calls None prog = Some (r, [], ev) \<and> resp = reported je r"
proof -
  from assms(1) have "run_io script_env calls None prog = run_io script_env [] ev m"
    unfolding replays_def by (metis append_Nil2)
  with assms(2) show ?thesis by (cases m) (auto simp: reported_def)
qed

subsection \<open>The invariant\<close>

text \<open>The requests task \<open>i\<close> has sent.\<close>

definition asked :: "sys \<Rightarrow> nat \<Rightarrow> (msg_type \<times> bytes) list" where
  "asked s i = map (\<lambda>om. (cm_kind (snd om), cm_payload (snd om))) (filter (\<lambda>om. fst om = FromStrand i 0) (s_pushed s))"

lemma asked_sel [simp]:
  "asked (set_task j t s) i = asked s i"
  "asked (push_out o' m s) i = asked s i @ (if o' = FromStrand i 0 then [(cm_kind m, cm_payload m)] else [])"
  "asked (drop_pending k s) i = asked s i" "asked (s\<lparr>s_loop := l\<rparr>) i = asked s i"
  "asked (s\<lparr>s_tasks := ts\<rparr>) i = asked s i" "asked (s\<lparr>s_pending := p\<rparr>) i = asked s i"
  "asked (s\<lparr>s_cells := c\<rparr>) i = asked s i" "asked (s\<lparr>s_out := ou\<rparr>) i = asked s i"
  "asked (s\<lparr>s_open := b\<rparr>) i = asked s i" "asked (s\<lparr>s_sent := se\<rparr>) i = asked s i"
  "asked (s\<lparr>s_next := n\<rparr>) i = asked s i" "asked (s\<lparr>s_owner := ow\<rparr>) i = asked s i"
  "asked (s\<lparr>s_seen := xs\<rparr>) i = asked s i"
  by (simp_all add: asked_def)

text \<open>Where the one strand of a task stands, for what is left of its program; and the
  requests sent whose results are not in yet.\<close>

fun waits :: "response io \<Rightarrow> strand \<Rightarrow> bool" where
  "waits m Idle \<longleftrightarrow> True"
| "waits (Req t b k) (WaitGate t' b') \<longleftrightarrow> t' = t \<and> b' = b"
| "waits (Req t b k) (SendReq c msg) \<longleftrightarrow> cm_kind msg = t \<and> cm_payload msg = b"
| "waits (Req t b k) (AwaitReply c) \<longleftrightarrow> True"
| "waits m x \<longleftrightarrow> False"

fun on_the_way :: "response io \<Rightarrow> strand \<Rightarrow> (msg_type \<times> bytes) list" where
  "on_the_way (Req t b k) (AwaitReply c) = [(t, b)]"
| "on_the_way m x = []"

text \<open>The end of a task: its program is done, and the terminal message is the one it earned.\<close>

fun concludes :: "prost \<Rightarrow> (str \<Rightarrow> str) \<Rightarrow> task \<Rightarrow> response io \<Rightarrow> chaincode_event option \<Rightarrow>
    chaincode_message list \<Rightarrow> phase \<Rightarrow> bool" where
  "concludes P je t m ev T Spawned \<longleftrightarrow> False"
| "concludes P je t m ev T Running \<longleftrightarrow> tk_event t = ev"
| "concludes P je t m ev T (Joined resp) \<longleftrightarrow> tk_event t = ev \<and> ended je m resp"
| "concludes P je t m ev T (Sending msg) \<longleftrightarrow>
     (\<exists>d resp. ended je m resp \<and> msg = completed_message P d (fst (tkey t)) (snd (tkey t)) resp ev)"
| "concludes P je t m ev T (Finished sent) \<longleftrightarrow>
     (\<exists>d resp. ended je m resp \<and> (sent \<longrightarrow> T = [completed_message P d (fst (tkey t)) (snd (tkey t)) resp ev]))"

definition explained :: "prost \<Rightarrow> (str \<Rightarrow> str) \<Rightarrow> response io \<Rightarrow> (msg_type \<times> bytes) list \<Rightarrow> chaincode_message list \<Rightarrow>
    task \<Rightarrow> response io \<Rightarrow> bool" where
  "explained P je prog A T t m \<longleftrightarrow> (\<exists>calls ev. map snd calls = map snd (tk_log t)
     \<and> replays calls prog ev m \<and> subseq A (map fst calls @ on_the_way m (tk_strands t 0))
     \<and> concludes P je t m ev T (tk_phase t))"

definition follows :: "prost \<Rightarrow> (str \<Rightarrow> str) \<Rightarrow> chaincode \<Rightarrow> (msg_type \<times> bytes) list \<Rightarrow> chaincode_message list \<Rightarrow>
    task \<Rightarrow> response io \<Rightarrow> bool" where
  "follows P je cc A T t m \<longleftrightarrow> (case tk_stub t of
      None \<Rightarrow> tk_log t = [] \<and> A = [] \<and> tk_event t = None \<and> (\<forall>j. tk_strands t j = Idle)
    | Some bs \<Rightarrow> (\<forall>j. j \<noteq> 0 \<longrightarrow> tk_strands t j = Idle) \<and> waits m (tk_strands t 0)
        \<and> explained P je (entry cc bs) A T t m)"

definition programs_inv :: "prost \<Rightarrow> (str \<Rightarrow> str) \<Rightarrow> chaincode \<Rightarrow> sys \<Rightarrow> programs \<Rightarrow> bool" where
  "programs_inv P je cc s ks \<longleftrightarrow>
     (\<forall>i<length (s_tasks s). follows P je cc (asked s i) (terminals s i) (s_tasks s ! i) (ks i))
   \<and> (\<forall>i\<ge>length (s_tasks s). asked s i = [])"


lemma programs_update:
  assumes inv: "programs_inv P je cc s ks" and i: "i < length (s_tasks s)" and tasks: "s_tasks s' = (s_tasks s)[i := t]"
    and mine: "follows P je cc (asked s' i) (terminals s' i) t (ks' i)"
    and rest: "\<And>j. j \<noteq> i \<Longrightarrow> asked s' j = asked s j \<and> terminals s' j = terminals s j \<and> ks' j = ks j"
  shows "programs_inv P je cc s' ks'"
proof -
  have "follows P je cc (asked s' j) (terminals s' j) (s_tasks s' ! j) (ks' j)" if j: "j < length (s_tasks s')" for j
  proof (cases "j = i")
    case True
    with mine i tasks show ?thesis by simp
  next
    case False
    with j inv tasks rest [OF False] show ?thesis by (simp add: programs_inv_def)
  qed
  moreover have "asked s' j = []" if "j \<ge> length (s_tasks s')" for j
    using that inv i tasks rest [of j] by (auto simp: programs_inv_def)
  ultimately show ?thesis by (simp add: programs_inv_def)
qed

lemma programs_frame:
  assumes "programs_inv P je cc s ks" "s_tasks s' = s_tasks s" "\<And>i. asked s' i = asked s i" "\<And>i. terminals s' i = terminals s i"
  shows "programs_inv P je cc s' ks"
  using assms by (simp add: programs_inv_def)

lemma follows_busy:
  assumes "follows P je cc A T t m" and "tk_strands t j \<noteq> Idle"
  obtains ty b k where "j = 0" "m = Req ty b k"
proof -
  from assms have "j = 0" "waits m (tk_strands t 0)" by (auto simp: follows_def split: option.splits)
  with assms(2) that show ?thesis by (cases m; cases "tk_strands t 0") auto
qed

lemma concludes_frame [simp]:
  "concludes P je (t\<lparr>tk_strands := f\<rparr>) m ev T p = concludes P je t m ev T p"
  "concludes P je (t\<lparr>tk_gate := g\<rparr>) m ev T p = concludes P je t m ev T p"
  "concludes P je (t\<lparr>tk_late := l\<rparr>) m ev T p = concludes P je t m ev T p"
  "concludes P je (t\<lparr>tk_phase := ph\<rparr>) m ev T p = concludes P je t m ev T p"
  "concludes P je (t\<lparr>tk_stub := st\<rparr>) m ev T p = concludes P je t m ev T p"
  "concludes P je (leave_request j r t) m ev T p = concludes P je t m ev T p"
  by (cases p; simp)+

lemma on_the_way_idle [simp]: "on_the_way m Idle = []" "on_the_way m (WaitGate t b) = []" "on_the_way m (SendReq c msg) = []"
  by (cases m; simp)+

lemma explained_silent:
  assumes "explained P je prog A T t (Tau m)" and "tk_strands t 0 = Idle"
  shows "explained P je prog A T t m"
proof -
  from assms obtain calls ev where *: "map snd calls = map snd (tk_log t)" "replays calls prog ev (Tau m)"
    "subseq A (map fst calls)" "concludes P je t (Tau m) ev T (tk_phase t)" by (auto simp: explained_def)
  moreover from *(4) have "concludes P je t m ev T (tk_phase t)" by (cases "tk_phase t") auto
  ultimately show ?thesis using replays_step [OF *(2)] assms(2) by (auto simp: explained_def)
qed

lemma explained_event:
  assumes "explained P je prog A T t (SetEvent e m)" and "tk_strands t 0 = Idle"
  shows "explained P je prog A T (t\<lparr>tk_event := Some e\<rparr>) m"
proof -
  from assms obtain calls ev where *: "map snd calls = map snd (tk_log t)" "replays calls prog ev (SetEvent e m)"
    "subseq A (map fst calls)" "concludes P je t (SetEvent e m) ev T (tk_phase t)" by (auto simp: explained_def)
  moreover from *(4) have "concludes P je (t\<lparr>tk_event := Some e\<rparr>) m (Some e) T (tk_phase t)" by (cases "tk_phase t") auto
  ultimately show ?thesis using replays_step [OF *(2)] assms(2)
    by (auto simp: explained_def intro!: exI [of _ calls] exI [of _ "Some e"])
qed

text \<open>The strand moves within its call.\<close>

lemma explained_moves:
  assumes "explained P je prog A T t m" and "on_the_way m (tk_strands t' 0) = on_the_way m (tk_strands t 0) @ B"
    and "tk_log t' = tk_log t" "tk_phase t' = tk_phase t" "tkey t' = tkey t" "tk_event t' = tk_event t"
  shows "explained P je prog (A @ B) T t' m"
proof -
  from assms(1) obtain calls ev where *: "map snd calls = map snd (tk_log t)" "replays calls prog ev m"
    "subseq A (map fst calls @ on_the_way m (tk_strands t 0))" "concludes P je t m ev T (tk_phase t)"
    by (auto simp: explained_def)
  moreover have "subseq (A @ B) (map fst calls @ on_the_way m (tk_strands t' 0))"
    using list_emb_append_mono [OF *(3) subseq_order.order_refl [of B]] assms(2) by simp
  moreover have "concludes P je t' m ev T (tk_phase t')" using *(4) assms(4-6) by (cases "tk_phase t") auto
  ultimately show ?thesis using assms(3) by (auto simp: explained_def)
qed

text \<open>The call ends with a result.\<close>

lemma explained_resumes:
  assumes "explained P je prog A T t (Req ty b k)"
  shows "explained P je prog A T (leave_request 0 r t) (k r)"
proof -
  from assms obtain calls ev where *: "map snd calls = map snd (tk_log t)" "replays calls prog ev (Req ty b k)"
    "subseq A (map fst calls @ on_the_way (Req ty b k) (tk_strands t 0))"
    "concludes P je t (Req ty b k) ev T (tk_phase t)" by (auto simp: explained_def)
  have "subseq (on_the_way (Req ty b k) (tk_strands t 0)) [(ty, b)]" by (cases "tk_strands t 0") auto
  then have "subseq (map fst calls @ on_the_way (Req ty b k) (tk_strands t 0)) (map fst calls @ [(ty, b)])"
    by (intro list_emb_append_mono) auto
  with *(3) have "subseq A (map fst (calls @ [((ty, b), r)]))" by (auto intro: subseq_order.order_trans)
  moreover have "concludes P je t (k r) ev T (tk_phase t)" using *(4) by (cases "tk_phase t") auto
  ultimately show ?thesis
    using *(1) replays_call [OF *(2), of r] by (auto simp: explained_def intro!: exI [of _ "calls @ [((ty, b), r)]"])
qed

text \<open>The task goes through its phases.\<close>

lemma explained_phase:
  assumes "explained P je prog A T t m"
    and "\<And>ev. concludes P je t m ev T (tk_phase t) \<Longrightarrow> concludes P je t' m ev T' (tk_phase t')"
    and "tk_log t' = tk_log t" "tk_strands t' = tk_strands t"
  shows "explained P je prog A T' t' m"
  using assms by (auto simp: explained_def)

lemma follows_running:
  assumes "follows P je cc A T t m" and "tk_stub t = Some bs"
  shows "explained P je (entry cc bs) A T t m" and "waits m (tk_strands t 0)" and "j \<noteq> 0 \<Longrightarrow> tk_strands t j = Idle"
  using assms by (simp_all add: follows_def)

lemma follows_silent:
  assumes "follows P je cc A T t (Tau m)"
  shows "follows P je cc A T t m"
proof (cases "tk_stub t")
  case None
  with assms show ?thesis by (simp add: follows_def)
next
  case (Some bs)
  with assms have "tk_strands t 0 = Idle" by (cases "tk_strands t 0") (auto simp: follows_def)
  with assms Some show ?thesis by (auto simp: follows_def intro: explained_silent)
qed

lemma follows_started:
  assumes "follows P je cc A T t m" and "tk_stub t = None"
  shows "follows P je cc A T (t\<lparr>tk_phase := Running, tk_stub := Some bs\<rparr>) (entry cc bs)"
  using assms by (auto simp: follows_def explained_def intro!: exI [of _ "[]"] replays_start)

lemma follows_resumes:
  assumes "follows P je cc A T t (Req ty b k)" and "tk_stub t = Some bs"
  shows "follows P je cc A T (leave_request 0 r t) (k r)"
  using assms explained_resumes [OF follows_running(1) [OF assms], of r] by (simp add: follows_def)

lemma follows_moves:
  assumes "follows P je cc A T t (Req ty b k)" and "tk_stub t = Some bs" and "waits (Req ty b k) x"
    and "on_the_way (Req ty b k) x = on_the_way (Req ty b k) (tk_strands t 0) @ B"
    and "tk_strands t' = (tk_strands t)(0 := x)" "tk_log t' = tk_log t" "tk_phase t' = tk_phase t"
      "tkey t' = tkey t" "tk_event t' = tk_event t" "tk_stub t' = tk_stub t"
  shows "follows P je cc (A @ B) T t' (Req ty b k)"
  using assms explained_moves [OF follows_running(1) [OF assms(1,2)], of t' B] by (simp add: follows_def)

lemma follows_event:
  assumes "follows P je cc A T t (SetEvent e m)" and "tk_stub t = Some bs"
  shows "follows P je cc A T (t\<lparr>tk_event := Some e\<rparr>) m"
proof -
  from assms have "tk_strands t 0 = Idle" by (cases "tk_strands t 0") (auto simp: follows_def)
  with assms show ?thesis by (auto simp: follows_def intro: explained_event)
qed

lemma follows_phase:
  assumes "follows P je cc A T t m"
    and "\<And>ev. concludes P je t m ev T (tk_phase t) \<Longrightarrow> concludes P je t' m ev T' (tk_phase t')"
    and "tk_log t' = tk_log t" "tk_strands t' = tk_strands t" "tk_stub t' = tk_stub t" "tk_stub t = None \<Longrightarrow> tk_event t' = None"
  shows "follows P je cc A T' t' m"
  using assms by (auto simp: follows_def intro: explained_phase split: option.splits)


subsection \<open>Preservation\<close>

lemma programs_task: "programs_inv P je cc s ks \<Longrightarrow> i < length (s_tasks s) \<Longrightarrow>
    follows P je cc (asked s i) (terminals s i) (s_tasks s ! i) (ks i)"
  by (simp add: programs_inv_def)

text \<open>A step that ends a call with a result, in the program and in the task.\<close>

lemma programs_resume:
  assumes inv: "programs_inv P je cc s ks" "stub_inv s" and i: "i < length (s_tasks s)"
    and busy: "tk_strands (s_tasks s ! i) j \<noteq> Idle"
    and tasks: "s_tasks s' = (s_tasks s)[i := leave_request j r (s_tasks s ! i)]"
    and adv: "resume i s s' ks = Some ks'"
    and rest: "\<And>i. asked s' i = asked s i" "\<And>i. terminals s' i = terminals s i"
  shows "programs_inv P je cc s' ks'"
proof -
  let ?t = "s_tasks s ! i"
  from inv(2) i busy obtain bs where stub: "tk_stub ?t = Some bs" by (auto simp: stub_inv_def)
  note mine = programs_task [OF inv(1) i]
  from follows_busy [OF mine busy] obtain ty b k where j: "j = 0" and k: "ks i = Req ty b k" .
  from adv tasks i k have ks': "ks' = ks(i := k r)" by (simp add: resume_def)
  from follows_resumes [of P je cc _ _ ?t ty b k bs r] mine k stub
  have "follows P je cc (asked s i) (terminals s i) (leave_request 0 r ?t) (k r)" by simp
  with j ks' rest show ?thesis
    by (intro programs_update [OF inv(1) i tasks]) simp_all
qed

text \<open>A step that moves the strand of a call.\<close>

lemma programs_move:
  assumes inv: "programs_inv P je cc s ks" and i: "i < length (s_tasks s)" and stub: "tk_stub (s_tasks s ! i) = Some bs"
    and k: "ks i = Req ty b k" "ks' = ks" and tasks: "s_tasks s' = (s_tasks s)[i := t]"
    and x: "waits (Req ty b k) x" "on_the_way (Req ty b k) x = on_the_way (Req ty b k) (tk_strands (s_tasks s ! i) 0) @ B"
    and t: "tk_strands t = (tk_strands (s_tasks s ! i))(0 := x)" "tk_log t = tk_log (s_tasks s ! i)"
      "tk_phase t = tk_phase (s_tasks s ! i)" "tkey t = tkey (s_tasks s ! i)" "tk_event t = tk_event (s_tasks s ! i)"
      "tk_stub t = tk_stub (s_tasks s ! i)"
    and rest: "\<And>j. asked s' j = asked s j @ (if j = i then B else [])" "\<And>j. terminals s' j = terminals s j"
  shows "programs_inv P je cc s' ks'"
proof -
  have "follows P je cc (asked s i @ B) (terminals s i) t (Req ty b k)"
    by (rule follows_moves [OF _ stub x t]) (use programs_task [OF inv i] k in simp)
  with k rest show ?thesis by (intro programs_update [OF inv i tasks]) simp_all
qed

text \<open>A step that takes the task to another phase.\<close>

lemma programs_phase:
  assumes inv: "programs_inv P je cc s ks" and ks': "ks' = ks" and i: "i < length (s_tasks s)" and tasks: "s_tasks s' = (s_tasks s)[i := t]"
    and t: "tk_log t = tk_log (s_tasks s ! i)" "tk_strands t = tk_strands (s_tasks s ! i)" "tk_stub t = tk_stub (s_tasks s ! i)"
      "tk_stub (s_tasks s ! i) = None \<Longrightarrow> tk_event t = tk_event (s_tasks s ! i) \<or> tk_event t = None"
    and ends: "\<And>ev. concludes P je (s_tasks s ! i) (ks i) ev (terminals s i) (tk_phase (s_tasks s ! i)) \<Longrightarrow>
      concludes P je t (ks i) ev (terminals s' i) (tk_phase t)"
    and rest: "\<And>j. asked s' j = asked s j" "\<And>j. j \<noteq> i \<Longrightarrow> terminals s' j = terminals s j"
  shows "programs_inv P je cc s' ks'"
proof -
  note mine = programs_task [OF inv i]
  have "follows P je cc (asked s i) (terminals s' i) t (ks i)"
    by (rule follows_phase [OF mine ends]) (use t mine in \<open>auto simp: follows_def\<close>)
  with rest ks' show ?thesis by (intro programs_update [OF inv i tasks]) simp_all
qed

lemma programs_inv_step:
  assumes rel: "sys_rel P (cc_metadata cc) a s s'" and adv: "advance je cc a s s' ks = Some ks'"
    and inv: "programs_inv P je cc s ks" and base: "stub_inv s" "terminal_inv s"
  shows "programs_inv P je cc s' ks'"
  using rel
proof cases
  case (spawn st m d)
  from spawn adv have ks': "ks' = ks" by simp
  from inv base(2) have "asked s (length (s_tasks s)) = []" by (simp add: programs_inv_def)
  with spawn inv show ?thesis by (auto simp: programs_inv_def ks' nth_append follows_def less_Suc_eq)
next
  case (answered i tk d m)
  from answered base(2) have "tk_stub tk = None" by (force simp: terminal_inv_def)
  moreover from answered adv this have "ks' = ks" by simp
  ultimately show ?thesis
    using answered by (auto intro!: programs_phase [OF inv, where i = i] simp: programs_task)
next
  case (started i tk d b stub)
  from started base(2) have "tk_stub tk = None" by (force simp: terminal_inv_def)
  moreover from started adv have "ks' = ks(i := entry cc (b, stub))" by simp
  ultimately show ?thesis
    using started follows_started [OF programs_task [OF inv, of i]] by (auto intro!: programs_update [OF inv, where i = i])
next
  case (requested i tk bs j t b)
  with adv obtain k where "ks i = Req t b k" "j = 0" "ks' = ks" by (auto split: io.splits if_splits)
  with requested show ?thesis by (intro programs_move [OF inv, where i = i and t = "s_tasks s' ! i" and x = "WaitGate t b" and B = "[]"]) auto
next
  case (registered i tk j t b c d)
  from follows_busy [OF programs_task [OF inv], of i j] registered obtain ty b' k where
    k: "j = 0" "ks i = Req ty b' k" by auto
  from registered base(1) obtain bs where "tk_stub tk = Some bs" by (fastforce simp: stub_inv_def)
  moreover from registered adv have "ks' = ks" by (simp add: resume_def)
  moreover from programs_task [OF inv, of i] registered k have "ty = t" "b' = b" by (auto simp: follows_def split: option.splits)
  ultimately show ?thesis using registered k by (intro programs_move [OF inv, where i = i and t = "s_tasks s' ! i" and x = "SendReq c (new_message d t b (fst (tkey tk)) (snd (tkey tk)))" and B = "[]"]) auto
next
  case (strand_sent i tk j c m)
  from follows_busy [OF programs_task [OF inv], of i j] strand_sent obtain ty b k where
    k: "j = 0" "ks i = Req ty b k" by auto
  from strand_sent base(1) obtain bs where "tk_stub tk = Some bs" by (fastforce simp: stub_inv_def)
  moreover from strand_sent adv have "ks' = ks" by (simp add: resume_def)
  moreover from programs_task [OF inv, of i] strand_sent k have "cm_kind m = ty" "cm_payload m = b"
    by (auto simp: follows_def split: option.splits)
  ultimately show ?thesis using strand_sent k by (intro programs_move [OF inv, where i = i and t = "s_tasks s' ! i" and x = "AwaitReply c" and B = "[(ty, b)]"]) auto
next
  case (refused i tk j t b c d)
  with adv show ?thesis by (intro programs_resume [OF inv base(1), where i = i and j = j]) simp_all
next
  case (strand_failed i tk j c m)
  with adv show ?thesis by (intro programs_resume [OF inv base(1), where i = i and j = j]) simp_all
next
  case (received i tk j c m)
  with adv show ?thesis by (intro programs_resume [OF inv base(1), where i = i and j = j]) simp_all
next
  case (sender_dropped i tk j c)
  with adv show ?thesis by (intro programs_resume [OF inv base(1), where i = i and j = j]) simp_all
next
  case (emitted i tk bs e)
  with adv obtain m where m: "ks i = SetEvent e m" "ks' = ks(i := m)" by (auto split: io.splits option.splits if_splits)
  from follows_event [of P je cc _ _ tk e m bs] programs_task [OF inv, of i] emitted m show ?thesis
    by (auto intro!: programs_update [OF inv, where i = i])
next
  case (joined i tk outcome)
  with adv have "ks' = ks" and "ended je (ks i) (outcome_response outcome)" by (auto split: io.splits if_splits)
  with joined show ?thesis by (auto intro!: programs_phase [OF inv, where i = i])
next
  case (cleaned i tk resp m d)
  then show ?thesis
    by (intro programs_phase [OF inv, where i = i and t = "s_tasks s' ! i"]) (use adv in auto)
next
  case (task_failed i tk m)
  then show ?thesis
    by (intro programs_phase [OF inv, where i = i and t = "s_tasks s' ! i"]) (use adv in auto)
next
  case (task_sent i tk m)
  from task_sent base(2) have "terminals s i = []" by (force simp: terminal_inv_def)
  with task_sent show ?thesis
    by (intro programs_phase [OF inv, where i = i and t = "s_tasks s' ! i"]) (use adv in auto)
qed (use adv inv in \<open>auto simp: programs_inv_def\<close>)


lemma programs_invariant:
  assumes "programmed P je cc cc_id s ks"
  shows "programs_inv P je cc s ks"
  using assms
proof (induction rule: programmed.induct)
  case (init d)
  show ?case by (simp add: programs_inv_def sys_init_def asked_def)
next
  case (act s ks a s' ks')
  from programmed_reachable [OF act(1)] have "stub_inv s" "terminal_inv s"
    using sent_invariant terminal_invariant by (auto simp: sent_inv_def)
  with act sys_step_rel [OF act(2)] show ?case by (blast intro: programs_inv_step)
next
  case (silent s ks i m)
  have "follows P je cc (asked s i) (terminals s i) (s_tasks s ! i) m" if "i < length (s_tasks s)"
    using follows_silent [of P je cc _ _ _ m] programs_task [OF silent(3) that] silent(2) by simp
  with silent(3) show ?case by (simp add: programs_inv_def)
qed

text \<open>A task's program is its strand 0.\<close>

definition one_strand :: "sys \<Rightarrow> bool" where
  "one_strand s \<longleftrightarrow> (\<forall>i j m. (FromStrand i j, m) \<in> set (s_pushed s) \<longrightarrow> j = 0)"

lemma one_strand_invariant:
  assumes "programmed P je cc cc_id s ks"
  shows "one_strand s"
  using assms
proof (induction rule: programmed.induct)
  case (init d)
  show ?case by (simp add: one_strand_def sys_init_def)
next
  case (act s ks a s' ks')
  from sys_step_rel [OF act(2)] show ?case
  proof cases
    case (strand_sent i tk j c m)
    with programs_task [OF programs_invariant [OF act(1)], of i] have "j = 0" by (auto elim: follows_busy [of _ _ _ _ _ _ _ j])
    with strand_sent act show ?thesis by (auto simp: one_strand_def)
  qed (use act in \<open>auto simp: one_strand_def\<close>)
qed

text \<open>In an orderly run the requests for a transaction are those of its task.\<close>

lemma requests_asked:
  assumes "one_strand s" "pushed_inv s" "order_inv s" and i: "i < length (s_tasks s)"
  shows "requests s (tkey (s_tasks s ! i)) = length (asked s i)"
proof -
  have "from_strand (fst om) \<and> key_of (snd om) = tkey (s_tasks s ! i) \<longleftrightarrow> fst om = FromStrand i 0"
    if "om \<in> set (s_pushed s)" for om
  proof (cases om)
    case (Pair o' m)
    show ?thesis
    proof (cases o')
      case (FromStrand i' j)
      with that Pair assms(1,2) have "j = 0" "i' < length (s_tasks s)" "key_of m = tkey (s_tasks s ! i')"
        by (auto simp: one_strand_def pushed_inv_def)
      with Pair FromStrand order_key_unique [OF assms(3) _ i] show ?thesis by auto
    qed (use Pair in simp_all)
  qed
  then have "filter (\<lambda>om. from_strand (fst om) \<and> key_of (snd om) = tkey (s_tasks s ! i)) (s_pushed s)
      = filter (\<lambda>om. fst om = FromStrand i 0) (s_pushed s)" by (rule filter_cong [OF refl])
  then show ?thesis by (simp add: requests_def asked_def split_def)
qed

lemma finished_explained:
  assumes "programs_inv P je cc s ks" and "i < length (s_tasks s)"
    and "tk_stub (s_tasks s ! i) = Some bs" and "tk_phase (s_tasks s ! i) = Finished True"
  shows "\<exists>calls d r ev. map snd calls = map snd (tk_log (s_tasks s ! i)) \<and> subseq (asked s i) (map fst calls)
    \<and> run_io script_env calls None (entry cc bs) = Some (r, [], ev)
    \<and> terminals s i = [completed_message P d (fst (tkey (s_tasks s ! i))) (snd (tkey (s_tasks s ! i))) (reported je r) ev]
    \<and> (\<forall>j. tk_strands (s_tasks s ! i) j = Idle)"
proof -
  let ?t = "s_tasks s ! i"
  note mine = programs_task [OF assms(1,2)]
  from follows_running [OF mine assms(3)] obtain calls ev where *: "map snd calls = map snd (tk_log ?t)"
    "replays calls (entry cc bs) ev (ks i)" "subseq (asked s i) (map fst calls @ on_the_way (ks i) (tk_strands ?t 0))"
    "concludes P je ?t (ks i) ev (terminals s i) (Finished True)" using assms(4) by (auto simp: explained_def)
  then obtain d resp where ended: "ended je (ks i) resp"
    and T: "terminals s i = [completed_message P d (fst (tkey ?t)) (snd (tkey ?t)) resp ev]" by auto
  from ended have idle: "tk_strands ?t j = Idle" for j
    by (rule contrapos_pp) (auto elim!: follows_busy [OF mine])
  from replays_ended [OF *(2) ended] obtain r where
    "run_io script_env calls None (entry cc bs) = Some (r, [], ev)" "resp = reported je r" by blast
  moreover from *(3) have "subseq (asked s i) (map fst calls)" by (simp add: idle)
  ultimately show ?thesis using *(1) T idle by blast
qed

subsection \<open>Two transactions at once\<close>

lemma schedule_actions:
  "schedule P je cc (map Inl as) (s, ks) = Some (s', ks') \<Longrightarrow> sys_run P (cc_metadata cc) as s = Some s'"
  by (induction as arbitrary: s ks) (auto split: option.splits)

text \<open>Two transactions that read one key each, all their steps interleaved.\<close>

definition two_at_once :: "action list" where
  "two_at_once =
     (let key = encode (c_get_state wire_prost) \<lparr>gs_key = lit ''a'', gs_collection = []\<rparr>;
          reply = (\<lambda>b tx. mock_send MT_Response b (lit ''testchannel'') (lit tx)) in
      handshake_actions @
       [Inbound None (start_tx wire_prost (lit ''t1'') [lit ''f''] None),
        Inbound None (start_tx wire_prost (lit ''t2'') [lit ''f''] None),
        Prepare None 1, Prepare None 0, Request 0 0 MT_GetState key, Request 1 0 MT_GetState key,
        Acquire None 1 0, Acquire None 0 0, StrandPush 0 0, StrandPush 1 0,
        Inbound None (reply [2] ''t2''), Inbound None (reply [1] ''t1''), Receive 0 0, Receive 1 0,
        UserDone 1 (Returned (success [2])), UserDone 0 (Returned (success [1])),
        CleanUp None 0, TaskPush 0, CleanUp None 1, TaskPush 1])"


lemma f_is_not_metadata: "str_bytes (lit ''f'') \<noteq> str_bytes METADATA_FUNCTION"
  by (simp add: METADATA_FUNCTION_def)

lemma one_call_started:
  "\<exists>stub. prepare_transaction wire_prost None None (start_tx wire_prost tx [lit ''f''] None) = RunUser False stub"
  using f_is_not_metadata by (simp add: prepare_transaction_def stub_new_def Let_def del: str_bytes_append)

lemma one_call_program: "entry reading_chaincode (False, stub) =
   Req MT_GetState (encode (c_get_state wire_prost) \<lparr>gs_key = lit ''a'', gs_collection = []\<rparr>)
   (\<lambda>r. Ret (response_from_result error_display (res_map success (res_map cm_payload r))))"
  by (auto simp: entry_def reading_chaincode_def sb_get_state_def get_data_def Let_def io_try_def core_request_def
      fun_eq_iff split: sum.split)


lemma key_of_start [simp]: "key_of (start_tx P txid args proposal) = (lit ''testchannel'', txid)"
  "key_of (mock_send t b ch tx) = (ch, tx)"
  by (simp_all add: key_of_def mock_send_def)

lemma two_at_once_ends:
  "\<exists>s ks stub. schedule wire_prost id reading_chaincode (map Inl two_at_once) (sys_init wire_prost None cid, \<lambda>i. Panic []) = Some (s, ks)
    \<and> all_orderly wire_prost None two_at_once (sys_init wire_prost None cid)
    \<and> length (s_tasks s) = 2 \<and> tk_stub (s_tasks s ! 0) = Some (False, stub) \<and> tk_phase (s_tasks s ! 0) = Finished True
    \<and> tkey (s_tasks s ! 0) = (lit ''testchannel'', lit ''t1'')
    \<and> asked s 0 = [(MT_GetState, encode (c_get_state wire_prost) \<lparr>gs_key = lit ''a'', gs_collection = []\<rparr>)]
    \<and> map classify_reply (replies s (lit ''testchannel'', lit ''t1'')) = [Inr (mock_send MT_Response [1] (lit ''testchannel'') (lit ''t1''))]"
proof -
  obtain s1 s2 where prep:
    "prepare_transaction wire_prost None None (start_tx wire_prost (lit ''t1'') [lit ''f''] None) = RunUser False s1"
    "prepare_transaction wire_prost None None (start_tx wire_prost (lit ''t2'') [lit ''f''] None) = RunUser False s2"
    using one_call_started by meson
  have meta: "cc_metadata reading_chaincode = None" by (simp add: reading_chaincode_def)
  note eval = two_at_once_def handshake_actions_def sys_init_def loop_push_def dispatch_def session_simps prep meta
  show ?thesis
   by (simp add: eval one_call_program resume_def LEDGER_REQUESTS_def classify_reply_def asked_def replies_def reply_kind_def)
     (simp add: eval LEDGER_REQUESTS_def is_tx_def reply_kind_def replies_def requests_def)
qed

subsection \<open>Property\<close>

text \<open>C5. Interleaving is invisible to a transaction: with any number of transactions, each running its own program,
  and the loop, the transport and the peer moving in any order (the peer may even go away), a task that has sent its
  terminal message has sent exactly one, the COMPLETED message of what its program gives when it is run alone, call
  by call, against the results its own calls got, with the event that run leaves; and when
  the peer is orderly those calls and results are the requests the task sent, in order, each with the
  peer's reply to it.\<close>

theorem interleaving_is_invisible:
  assumes "programmed P je cc cc_id s ks" and "i < length (s_tasks s)"
    and "tk_stub (s_tasks s ! i) = Some bs" and "tk_phase (s_tasks s ! i) = Finished True"
  shows "\<exists>calls d r ev. run_io script_env calls None (entry cc bs) = Some (r, [], ev)
    \<and> map snd calls = map snd (tk_log (s_tasks s ! i)) \<and> subseq (asked s i) (map fst calls)
    \<and> terminals s i = [completed_message P d (fst (tkey (s_tasks s ! i))) (snd (tkey (s_tasks s ! i))) (reported je r) ev]
    \<and> (orderly P (cc_metadata cc) cc_id s \<longrightarrow>
        calls = zip (asked s i) (map classify_reply (replies s (tkey (s_tasks s ! i)))))"
proof -
  let ?t = "s_tasks s ! i"
  obtain calls d r ev where
    *: "map snd calls = map snd (tk_log ?t)" "subseq (asked s i) (map fst calls)"
      "run_io script_env calls None (entry cc bs) = Some (r, [], ev)"
      "terminals s i = [completed_message P d (fst (tkey ?t)) (snd (tkey ?t)) (reported je r) ev]"
      "\<forall>j. tk_strands ?t j = Idle"
    using finished_explained [OF programs_invariant [OF assms(1)] assms(2-4)] by (elim exE conjE)
  have "calls = zip (asked s i) (map classify_reply (replies s (tkey ?t)))" if "orderly P (cc_metadata cc) cc_id s"
  proof -
    from programmed_reachable [OF assms(1)] have base: "gate_inv s" "pushed_inv s"
      using gate_invariant sent_invariant by (auto simp: sent_inv_def)
    have order: "order_inv s" by (rule order_invariant [OF that])
    from base(1) assms(2) have "gate_ok ?t" by (simp add: gate_inv_def)
    then have "tk_gate ?t \<noteq> Some j" for j by (rule gate_ok_not_holder) (simp add: *(5))
    then have "tk_gate ?t = None" by (cases "tk_gate ?t") blast+
    with order_task [OF order assms(2)] have log: "map snd (tk_log ?t) = map classify_reply (replies s (tkey ?t))"
      and "length (replies s (tkey ?t)) = requests s (tkey ?t)" by (simp_all add: order_ok_def)
    with requests_asked [OF one_strand_invariant [OF assms(1)] base(2) order assms(2)] arg_cong [where f = length, OF *(1)]
      arg_cong [where f = length, OF log]
    have "length (asked s i) = length (map fst calls)" by simp
    from subseq_same_length [OF *(2) this] have "asked s i = map fst calls" .
    then have "zip (asked s i) (map classify_reply (replies s (tkey ?t))) = zip (map fst calls) (map snd calls)"
      by (simp add: *(1) log)
    then show ?thesis by (simp only: zip_map_fst_snd)
  qed
  then show ?thesis using *(1-4) by (intro exI [of _ calls] exI [of _ d] exI [of _ r] exI [of _ ev]) simp
qed

theorem interleaving_is_invisible_witness:
  "\<exists>s ks d. programmed wire_prost id reading_chaincode (lit ''cc'') s ks \<and> length (s_tasks s) = 2
    \<and> terminals s 0 = [completed_message wire_prost d (lit ''testchannel'') (lit ''t1'') (success [1]) None]"
proof -
  obtain s ks stub where run: "schedule wire_prost id reading_chaincode (map Inl two_at_once) (sys_init wire_prost None (lit ''cc''), \<lambda>i. Panic []) = Some (s, ks)"
    "all_orderly wire_prost None two_at_once (sys_init wire_prost None (lit ''cc''))"
    and s: "length (s_tasks s) = 2" "tk_stub (s_tasks s ! 0) = Some (False, stub)" "tk_phase (s_tasks s ! 0) = Finished True"
      "tkey (s_tasks s ! 0) = (lit ''testchannel'', lit ''t1'')"
      "asked s 0 = [(MT_GetState, encode (c_get_state wire_prost) \<lparr>gs_key = lit ''a'', gs_collection = []\<rparr>)]"
      "map classify_reply (replies s (lit ''testchannel'', lit ''t1'')) = [Inr (mock_send MT_Response [1] (lit ''testchannel'') (lit ''t1''))]"
    using two_at_once_ends [of "lit ''cc''"] by (elim exE conjE)
  have prog: "programmed wire_prost id reading_chaincode (lit ''cc'') s ks"
    using schedule_programmed [OF run(1)] programmed.init by blast
  have ord: "orderly wire_prost (cc_metadata reading_chaincode) (lit ''cc'') s"
    using all_orderly_orderly [OF run(2) orderly.init] schedule_actions [OF run(1)] by (simp add: reading_chaincode_def)
  have "0 < length (s_tasks s)" using s(1) by simp
  from interleaving_is_invisible [OF prog this s(2,3)] ord obtain d r ev where
    "run_io script_env (zip (asked s 0) (map classify_reply (replies s (tkey (s_tasks s ! 0))))) None
       (entry reading_chaincode (False, stub)) = Some (r, [], ev)"
    "terminals s 0 = [completed_message wire_prost d (fst (tkey (s_tasks s ! 0))) (snd (tkey (s_tasks s ! 0))) (reported id r) ev]"
    by blast
  then have "terminals s 0 = [completed_message wire_prost d (lit ''testchannel'') (lit ''t1'') (success [1]) None]"
    by (auto simp: s one_call_program reported_def)
  with prog s(1) show ?thesis by blast
qed

end
