(* ===== verification/Test_Kv.thy ===== *)
theory Test_Kv imports Session Metadata_Json
begin

section \<open>The test chaincode against its specification\<close>

text \<open>
  The chaincodes \<open>TestKv\<close> and \<open>MetaKv\<close> of \<open>fabric-shim/tests/mock_peer.rs\<close>, which call most of the stub's
  methods, and an abstract key-value store: \<open>kv_spec\<close> says what each call answers and how it changes the
  store, errors included. The theorem says that any sequence of calls, run over a connection with the
  test peer behind it, is answered as the store answers it.
\<close>

subsection \<open>The chaincode\<close>

text \<open>\<open>args[i]\<close> on a slice: out of range it panics.\<close>

definition index_arg :: "str list \<Rightarrow> nat \<Rightarrow> (str \<Rightarrow> 'a io) \<Rightarrow> 'a io" where
  "index_arg args i f = (if i < length args then f (args ! i)
     else Panic (lit ''index out of bounds: the len is '' @ show_nat (length args) @ lit '' but the index is '' @ show_nat i))"

text \<open>\<open>join\<close> of strings with a separator of one character.\<close>

fun join_with :: "char \<Rightarrow> str list \<Rightarrow> str" where
  "join_with c [] = []"
| "join_with c [s] = s"
| "join_with c (s # ss) = s @ uc c # join_with c ss"

text \<open>\<open>.map(f)\<close> on an awaited \<open>Result\<close>.\<close>

definition awaited_map :: "('a \<Rightarrow> 'b) \<Rightarrow> ('e + 'a) io \<Rightarrow> ('e + 'b) io" where
  "awaited_map f m = io_bind m (\<lambda>r. Ret (res_map f r))"

definition joined_keys :: "kv list \<Rightarrow> response" where
  "joined_keys kvs = success (str_bytes (join_with (CHR '','') (map kv_key kvs)))"

definition joined_attributes :: "kv list \<Rightarrow> response" where
  "joined_attributes kvs =
     (case res_collect (\<lambda>kv. res_map (\<lambda>(_, attrs). join_with (CHR ''|'') attrs) (split_composite_key (kv_key kv))) kvs of
        Inr parts \<Rightarrow> success (str_bytes (join_with (CHR '','') parts))
      | Inl e \<Rightarrow> response_error (error_display e))"

definition kv_function :: "prost \<Rightarrow> (uchr \<Rightarrow> bool) \<Rightarrow> stub \<Rightarrow> str \<Rightarrow> str list \<Rightarrow> (shim_error + response) io" where
  "kv_function P esc stub function args =
     (let arg = index_arg args; done = awaited_map (\<lambda>_. success_empty) in
      if function = lit ''put'' then arg 0 (\<lambda>k. arg 1 (\<lambda>v. done (sb_put_state P k (str_bytes v))))
      else if function = lit ''get'' then arg 0 (\<lambda>k. awaited_map success (sb_get_state P k))
      else if function = lit ''del'' then arg 0 (\<lambda>k. done (sb_del_state P k))
      else if function = lit ''range'' then
        io_try (sb_get_state_by_range P [] []) (\<lambda>iter. awaited_map joined_keys (collect_remaining P iter))
      else if function = lit ''event'' then done (set_event stub (lit ''AssetTransferred'') (str_bytes (lit ''asset1'')))
      else if function = lit ''put_pd'' then
        arg 0 (\<lambda>c. arg 1 (\<lambda>k. arg 2 (\<lambda>v. done (put_private_data P c k (str_bytes v)))))
      else if function = lit ''get_pd'' then arg 0 (\<lambda>c. arg 1 (\<lambda>k. awaited_map success (get_private_data P c k)))
      else if function = lit ''del_pd'' then arg 0 (\<lambda>c. arg 1 (\<lambda>k. done (del_private_data P c k)))
      else if function = lit ''purge_pd'' then arg 0 (\<lambda>c. arg 1 (\<lambda>k. done (purge_private_data P c k)))
      else if function = lit ''pd_hash'' then arg 0 (\<lambda>c. arg 1 (\<lambda>k. awaited_map success (get_private_data_hash P c k)))
      else if function = lit ''pd_range'' then arg 0 (\<lambda>c.
        io_try (get_private_data_by_range P c [] []) (\<lambda>iter. awaited_map joined_keys (collect_remaining P iter)))
      else if function = lit ''pkey_put'' then arg 0 (\<lambda>t. arg 1 (\<lambda>a. arg 2 (\<lambda>b.
        case create_composite_key esc t [a, b] of
          Inr key \<Rightarrow> arg 3 (\<lambda>v. done (sb_put_state P key (str_bytes v)))
        | Inl e \<Rightarrow> Ret (Inl e))))
      else if function = lit ''pkey_range'' then arg 0 (\<lambda>t. arg 1 (\<lambda>a.
        io_try (get_state_by_partial_composite_key P esc t [a])
          (\<lambda>iter. awaited_map joined_attributes (collect_remaining P iter))))
      else if function = lit ''transient'' then
        Ret (Inr (success (or_else (fmlookup (get_transient stub) (lit ''secret'')) [])))
      else if function = lit ''whoami'' then
        Ret (res_map (\<lambda>si. success (str_bytes (si_mspid si))) (get_creator_identity P stub))
      else if function = lit ''ts'' then
        Ret (res_map (\<lambda>ts. success (str_bytes (show_int (sint (ts_seconds ts))))) (get_tx_timestamp stub))
      else if function = lit ''panic'' then Panic (lit ''intentional test panic'')
      else Ret (Inr (response_error (lit ''unknown function '' @ function))))"

definition kv_invoke :: "prost \<Rightarrow> (uchr \<Rightarrow> bool) \<Rightarrow> stub \<Rightarrow> response io" where
  "kv_invoke P esc stub =
     (let (function, args) = get_function_and_args stub in
      io_bind (kv_function P esc stub function args) (\<lambda>result. Ret (response_from_result error_display result)))"

definition kv_chaincode :: "prost \<Rightarrow> (uchr \<Rightarrow> bool) \<Rightarrow> chaincode" where
  "kv_chaincode P esc = \<lparr>cc_metadata = None, cc_init = kv_invoke P esc, cc_invoke = kv_invoke P esc\<rparr>"

text \<open>\<open>MetaKv\<close>: the same with metadata; \<open>to_vec\<close> is the text of a JSON tree.\<close>

definition meta_kv_metadata :: metadata where
  "meta_kv_metadata =
     (let string = json_object [(lit ''type'', json_str ''string'')] in
      metadata_contract
        (contract_transaction (transaction_parameter (lit ''key'') string (transaction_evaluate (lit ''get'')))
        (contract_transaction (transaction_parameter (lit ''value'') string
            (transaction_parameter (lit ''key'') string (transaction_submit (lit ''put''))))
          (contract_new (lit ''MetaKv''))))
        (metadata_new (lit ''meta-kv'') (lit ''1.2.3'')))"

definition meta_kv_chaincode :: "(json \<Rightarrow> str + bytes) \<Rightarrow> prost \<Rightarrow> (uchr \<Rightarrow> bool) \<Rightarrow> chaincode" where
  "meta_kv_chaincode to_vec P esc = (kv_chaincode P esc)\<lparr>cc_metadata := Some (to_vec (metadata_json meta_kv_metadata))\<rparr>"

text \<open>What its test reads in the served document.\<close>

lemma meta_kv_document:
  "metadata_of_json (metadata_json meta_kv_metadata) = Some meta_kv_metadata"
  "\<exists>put get. md_contracts meta_kv_metadata = [(lit ''MetaKv'', \<lparr>ct_name = lit ''MetaKv'',
      ct_info = \<lparr>inf_title = lit ''MetaKv'', inf_version = lit ''latest'', inf_description = None\<rparr>,
      ct_transactions = [put, get], ct_default = True\<rparr>)]
    \<and> mt_name put = lit ''put'' \<and> mt_tag put = [lit ''submit''] \<and> map par_name (mt_parameters put) = [lit ''key'', lit ''value'']
    \<and> mt_name get = lit ''get'' \<and> mt_tag get = [lit ''evaluate''] \<and> map par_name (mt_parameters get) = [lit ''key'']"
proof -
  have ok: "metadata_ok meta_kv_metadata" "without_null_returns meta_kv_metadata = meta_kv_metadata"
    by (simp_all add: meta_kv_metadata_def metadata_contract_def contract_transaction_def transaction_parameter_def transaction_evaluate_def
        transaction_submit_def contract_new_def metadata_new_def metadata_ok_def contract_ok_def transaction_ok_def parameter_ok_def
        components_ok_def bt_ok_def json_object_def json_str_def without_null_returns_def forget_nulls_def forget_null_def Let_def)
  show "metadata_of_json (metadata_json meta_kv_metadata) = Some meta_kv_metadata"
    using metadata_json.read_write [OF ok(1)] ok(2) by simp
qed (simp add: meta_kv_metadata_def metadata_contract_def contract_transaction_def transaction_parameter_def transaction_evaluate_def
    transaction_submit_def contract_new_def metadata_new_def Let_def)

subsection \<open>The store\<close>

text \<open>World state (the empty collection) and private collections.\<close>

type_synonym store = "str \<Rightarrow> str \<Rightarrow> bytes option"

text \<open>The calls the tests make; \<open>Other\<close> is a function the chaincode does not know.\<close>

datatype kv_call =
    Put str str
  | Get str
  | Del str
  | Range
  | Event
  | PutPrivate str str str
  | GetPrivate str str
  | DelPrivate str str
  | PurgePrivate str str
  | PrivateHash str str
  | PrivateRange str
  | PutComposite str str str str
  | CompositeRange str str
  | Boom
  | Other str

fun call_texts :: "kv_call \<Rightarrow> str list" where
  "call_texts (Put k v) = [lit ''put'', k, v]"
| "call_texts (Get k) = [lit ''get'', k]"
| "call_texts (Del k) = [lit ''del'', k]"
| "call_texts Range = [lit ''range'']"
| "call_texts Event = [lit ''event'']"
| "call_texts (PutPrivate c k v) = [lit ''put_pd'', c, k, v]"
| "call_texts (GetPrivate c k) = [lit ''get_pd'', c, k]"
| "call_texts (DelPrivate c k) = [lit ''del_pd'', c, k]"
| "call_texts (PurgePrivate c k) = [lit ''purge_pd'', c, k]"
| "call_texts (PrivateHash c k) = [lit ''pd_hash'', c, k]"
| "call_texts (PrivateRange c) = [lit ''pd_range'', c]"
| "call_texts (PutComposite t a b v) = [lit ''pkey_put'', t, a, b, v]"
| "call_texts (CompositeRange t a) = [lit ''pkey_range'', t, a]"
| "call_texts Boom = [lit ''panic'']"
| "call_texts (Other f) = [f]"

definition known_functions :: "str set" where
  "known_functions = lit ` {''put'', ''get'', ''del'', ''range'', ''event'', ''put_pd'', ''get_pd'', ''del_pd'', ''purge_pd'',
     ''pd_hash'', ''pd_range'', ''pkey_put'', ''pkey_range'', ''transient'', ''whoami'', ''ts'', ''panic''}"

fun call_ok :: "kv_call \<Rightarrow> bool" where
  "call_ok (Other f) \<longleftrightarrow> f \<notin> known_functions \<and> f \<noteq> METADATA_FUNCTION"
| "call_ok _ \<longleftrightarrow> True"

definition refused :: "string \<Rightarrow> response" where
  "refused text = response_error (error_display (ErrInvalidArgument (lit text)))"

text \<open>The keys of a collection, in order.\<close>

definition keys_of :: "store \<Rightarrow> str \<Rightarrow> str list" where
  "keys_of l c = sorted_list_of_set (dom (l c))"

definition listed :: "str list \<Rightarrow> response" where
  "listed texts = success (str_bytes (join_with (CHR '','') texts))"

definition store_put :: "str \<Rightarrow> str \<Rightarrow> bytes \<Rightarrow> store \<Rightarrow> response \<times> store" where
  "store_put c k v l =
     (if k = [] then (refused ''key must not be empty'', l) else (success_empty, ledger_upd c k (Some v) l))"

text \<open>What a private data call does, unless the collection has no name.\<close>

definition in_collection :: "str \<Rightarrow> store \<Rightarrow> response \<times> store \<Rightarrow> response \<times> store" where
  "in_collection c l r = (if c = [] then (refused ''collection must not be empty'', l) else r)"

definition key_attributes :: "str \<Rightarrow> shim_error + str" where
  "key_attributes k = res_map (\<lambda>(_, attrs). join_with (CHR ''|'') attrs) (split_composite_key k)"

fun kv_spec :: "(uchr \<Rightarrow> bool) \<Rightarrow> (str \<Rightarrow> str) \<Rightarrow> kv_call \<Rightarrow> store \<Rightarrow> response \<times> store" where
  "kv_spec esc je (Put k v) l = store_put [] k (str_bytes v) l"
| "kv_spec esc je (Get k) l = (success (unwrap_or_default (l [] k)), l)"
| "kv_spec esc je (Del k) l = (success_empty, ledger_upd [] k None l)"
| "kv_spec esc je Range l = (listed (keys_of l []), l)"
| "kv_spec esc je Event l = (success_empty, l)"
| "kv_spec esc je (PutPrivate c k v) l = in_collection c l (store_put c k (str_bytes v) l)"
| "kv_spec esc je (GetPrivate c k) l = in_collection c l (success (unwrap_or_default (l c k)), l)"
| "kv_spec esc je (DelPrivate c k) l = in_collection c l (success_empty, ledger_upd c k None l)"
| "kv_spec esc je (PurgePrivate c k) l = in_collection c l (success_empty, ledger_upd c k None l)"
| "kv_spec esc je (PrivateHash c k) l = in_collection c l (success (unwrap_or_default (l c k)), l)"
| "kv_spec esc je (PrivateRange c) l = in_collection c l (listed (keys_of l c), l)"
| "kv_spec esc je (PutComposite t a b v) l = (case create_composite_key esc t [a, b] of
     Inl e \<Rightarrow> (response_error (error_display e), l)
   | Inr k \<Rightarrow> (success_empty, ledger_upd [] k (Some (str_bytes v)) l))"
| "kv_spec esc je (CompositeRange t a) l = (case create_composite_key esc t [a] of
     Inl e \<Rightarrow> (response_error (error_display e), l)
   | Inr p \<Rightarrow> (case res_collect key_attributes (filter (in_range p (p @ [MAX_UNICODE_RUNE])) (keys_of l [])) of
         Inl e \<Rightarrow> (response_error (error_display e), l)
       | Inr texts \<Rightarrow> (listed texts, l)))"
| "kv_spec esc je Boom l = (response_error (lit ''chaincode handler panicked: '' @ je (lit ''intentional test panic'')), l)"
| "kv_spec esc je (Other f) l = (response_error (lit ''unknown function '' @ f), l)"

text \<open>The event a call leaves in COMPLETED.\<close>

fun call_event :: "str \<Rightarrow> kv_call \<Rightarrow> chaincode_event option" where
  "call_event txid Event = Some \<lparr>ev_chaincode_id = [], ev_tx_id = txid, ev_event_name = lit ''AssetTransferred'',
     ev_payload = str_bytes (lit ''asset1'')\<rparr>"
| "call_event txid _ = None"

subsection \<open>The peer's store\<close>

definition kv_ok :: "mock_peer \<Rightarrow> bool" where
  "kv_ok mp \<longleftrightarrow> mock_inv mp \<and> bt_ok (mp_state mp) \<and> bt_ok (mp_private mp)"

lemma mock_frame_ok: "mock_frame mp mp' \<Longrightarrow> kv_ok mp \<Longrightarrow> kv_ok mp' \<and> ledger mp' = ledger mp"
  by (simp add: mock_frame_def kv_ok_def mock_inv_def ledger_def fun_eq_iff)

lemma run_put_ok:
  assumes "prost_ok P" and "key \<noteq> []" and "kv_ok mp"
  shows "\<exists>mp'. run_io (mock_env P d ch tx) mp ev (put_data P c key v) = Some (Inr (Inr ()), mp', ev)
     \<and> ledger mp' = ledger_upd c key (Some v) (ledger mp) \<and> kv_ok mp'"
  using assms
  by (auto simp: mock_env_eq serve_request_def ledger_def ledger_upd_def fun_eq_iff bt.get_insert kv_ok_def mock_inv_def bt.ok_insert)

lemma run_del_ok:
  assumes "prost_ok P" and "kv_ok mp"
  shows "\<exists>mp'. run_io (mock_env P d ch tx) mp ev (del_data P c key) = Some (Inr (Inr ()), mp', ev)
     \<and> ledger mp' = ledger_upd c key None (ledger mp) \<and> kv_ok mp'"
  using assms
  by (auto simp: mock_env_eq serve_request_def ledger_def ledger_upd_def fun_eq_iff bt.get_remove kv_ok_def mock_inv_def bt.ok_remove)

lemma run_purge_ok:
  assumes "prost_ok P" and "kv_ok mp" and "c \<noteq> []"
  shows "\<exists>mp'. run_io (mock_env P d ch tx) mp ev (purge_private_data P c key) = Some (Inr (Inr ()), mp', ev)
     \<and> ledger mp' = ledger_upd c key None (ledger mp) \<and> kv_ok mp'"
  using assms
  by (auto simp: purge_private_data_def mock_env_eq serve_request_def Let_def ledger_def ledger_upd_def fun_eq_iff
      bt.get_remove kv_ok_def mock_inv_def bt.ok_remove)

lemma bt_keys: "bt_ok m \<Longrightarrow> map fst m = sorted_list_of_set (dom (map_of m))"
  by (rule sorted_distinct_set_unique) (auto simp: bt_ok_def strict_sorted_iff dom_map_of_conv_image_fst finite_dom_map_of)

lemma range_keys:
  assumes "kv_ok mp"
  shows "map fst (range_kvs mp c s e) = filter (in_range s e) (keys_of (ledger mp) c)"
proof (cases "c = []")
  case True
  have "map fst (filter (\<lambda>(k, _). in_range s e k) m) = filter (in_range s e) (map fst m)" for m :: "(str \<times> bytes) list"
    by (induction m) auto
  moreover have "map fst (mp_state mp) = keys_of (ledger mp) []"
    using bt_keys [of "mp_state mp"] assms by (simp add: kv_ok_def keys_of_def ledger_def [abs_def])
  ultimately show ?thesis using True by (simp add: range_kvs_def)
next
  case False
  let ?ks = "map (\<lambda>kv. snd (fst kv)) (filter (\<lambda>kv. fst (fst kv) = c) (mp_private mp))"
  have "map fst (map (\<lambda>((_, k), v). (k, v)) (filter (\<lambda>((c', k), _). c' = c \<and> in_range s e k) m))
      = filter (in_range s e) (map (\<lambda>kv. snd (fst kv)) (filter (\<lambda>kv. fst (fst kv) = c) m))" for m :: "((str \<times> str) \<times> bytes) list"
    by (induction m) auto
  moreover have "?ks = keys_of (ledger mp) c"
    unfolding keys_of_def
  proof (rule sorted_distinct_set_unique)
    have sorted: "sorted_wrt (<) (map fst (mp_private mp))" using assms by (simp add: kv_ok_def bt_ok_def)
    have "sorted_wrt (<) ?ks"
      using sorted unfolding sorted_wrt_map
      by (rule sorted_wrt_filter [THEN sorted_wrt_mono_rel [rotated]]) (auto simp: less_prod_def)
    then show "sorted ?ks" "distinct ?ks" by (auto simp: strict_sorted_iff)
    have "dom (ledger mp c) = {k. \<exists>v. ((c, k), v) \<in> set (mp_private mp)}"
      using False assms bt.entries_get [of "mp_private mp"] by (auto simp: ledger_def kv_ok_def)
    also have "\<dots> = set ?ks" by force
    finally show "set ?ks = set (sorted_list_of_set (dom (ledger mp c)))" by simp
  qed simp_all
  ultimately show ?thesis using False by (simp add: range_kvs_def)
qed

subsection \<open>One call\<close>

lemma run_awaited_map [simp]:
  "run_io env p ev (awaited_map f m) = run_then (run_io env p ev m) (\<lambda>r p' ev'. Some (Inr (res_map f r), p', ev'))"
  by (simp add: awaited_map_def)

lemma run_try_map:
  "run_io env p ev (io_try m (\<lambda>x. awaited_map f (g x)))
     = run_then (run_io env p ev (io_try m g)) (\<lambda>r p' ev'. Some (Inr (res_map f r), p', ev'))"
proof (cases "run_io env p ev m")
  case (Some out)
  obtain r p' ev' where out: "out = (r, p', ev')" by (cases out)
  show ?thesis
  proof (cases r)
    case (Inr x)
    with Some out show ?thesis by (cases x) simp_all
  qed (use Some out in simp)
qed simp

text \<open>A range query collected to its end and mapped to a response.\<close>

lemma run_listing:
  assumes "prost_ok P" and "kv_ok mp"
  shows "\<exists>mp'. run_io (mock_env P d ch tx) mp ev (io_try (io_try (range_query P c s e md) (\<lambda>(iter, _). Ret (Inr iter)))
       (\<lambda>iter. awaited_map f (collect_remaining P iter)))
     = Some (Inr (Inr (f (map test_kv (range_kvs mp c s e)))), mp', ev) \<and> kv_ok mp' \<and> ledger mp' = ledger mp"
proof -
  from assms(2) have "mock_inv mp" by (simp add: kv_ok_def)
  from mock_collect [OF assms(1) this, of d ch tx ev c s e md] mock_frame_ok assms(2) show ?thesis
    unfolding run_try_map by (auto simp del: run_io_try)
qed

lemma joined_keys_listed:
  assumes "kv_ok mp"
  shows "joined_keys (map test_kv (range_kvs mp c [] [])) = listed (keys_of (ledger mp) c)"
proof -
  have "kv_key \<circ> test_kv = fst" by (simp add: fun_eq_iff test_kv_def)
  with range_keys [OF assms, of c "[]" "[]"] show ?thesis by (simp add: joined_keys_def listed_def in_range_def)
qed

lemma joined_attributes_listed:
  assumes "kv_ok mp"
  shows "joined_attributes (map test_kv (range_kvs mp c s e)) =
    (case res_collect key_attributes (filter (in_range s e) (keys_of (ledger mp) c)) of
       Inl er \<Rightarrow> response_error (error_display er) | Inr texts \<Rightarrow> listed texts)"
proof -
  have "res_collect (\<lambda>kv. res_map (\<lambda>(_, attrs). join_with (CHR ''|'') attrs) (split_composite_key (kv_key kv))) (map test_kv kvs)
      = res_collect key_attributes (map fst kvs)" for kvs
    by (induction kvs) (simp_all add: test_kv_def key_attributes_def)
  with range_keys [OF assms] show ?thesis by (simp add: joined_attributes_def listed_def split: sum.split)
qed

text \<open>How a task reports the end of its program.\<close>

definition outcome :: "(str \<Rightarrow> str) \<Rightarrow> str + response \<Rightarrow> response" where
  "outcome je r = outcome_response (case r of Inl panic \<Rightarrow> Panicked (je panic) | Inr resp \<Rightarrow> Returned resp)"

lemma outcome_simps [simp]:
  "outcome je (Inr resp) = resp" "outcome je (Inl panic) = response_error (lit ''chaincode handler panicked: '' @ je panic)"
  by (simp_all add: outcome_def)

definition implements_call :: "prost \<Rightarrow> (uchr \<Rightarrow> bool) \<Rightarrow> (str \<Rightarrow> str) \<Rightarrow> clock \<Rightarrow> str \<Rightarrow> stub \<Rightarrow> mock_peer \<Rightarrow> kv_call \<Rightarrow> bool" where
  "implements_call P esc je d ch stub mp call \<longleftrightarrow> (\<exists>r mp'.
     run_io (mock_env P d ch (sb_tx_id stub)) mp None
       (kv_function P esc stub (hd (call_texts call)) (tl (call_texts call))) = Some (r, mp', call_event (sb_tx_id stub) call)
   \<and> (outcome je (map_sum (\<lambda>t. t) (response_from_result error_display) r), ledger mp') = kv_spec esc je call (ledger mp) \<and> kv_ok mp')"

lemmas call_simps = implements_call_def kv_function_def index_arg_def Let_def

lemma implements_world:
  assumes "prost_ok P" and "kv_ok mp"
  shows "implements_call P esc je d ch stub mp (Put k v)" "implements_call P esc je d ch stub mp (Get k)"
    "implements_call P esc je d ch stub mp (Del k)"
proof -
  show "implements_call P esc je d ch stub mp (Put k v)"
  proof (cases "k = []")
    case True
    with assms(2) show ?thesis by (simp add: call_simps sb_put_state_def store_put_def refused_def del: run_put_data) (simp add: put_data_def)
  next
    case False
    with run_put_ok [OF assms(1) False assms(2), of d ch "sb_tx_id stub" None "[]" "str_bytes v"] show ?thesis
      by (auto simp: call_simps sb_put_state_def store_put_def simp del: run_put_data)
  qed
  show "implements_call P esc je d ch stub mp (Get k)"
    using mock_get [OF assms(1), of d ch "sb_tx_id stub" mp None k "[]"] assms(2)
    by (simp add: call_simps sb_get_state_def del: run_get_data)
  show "implements_call P esc je d ch stub mp (Del k)"
    using run_del_ok [OF assms, of d ch "sb_tx_id stub" None "[]" k]
    by (auto simp: call_simps sb_del_state_def simp del: run_del_data)
qed

lemma implements_listing:
  assumes "prost_ok P" and "kv_ok mp"
  shows "implements_call P esc je d ch stub mp Range"
    "c \<noteq> [] \<Longrightarrow> implements_call P esc je d ch stub mp (PrivateRange c)"
    "implements_call P esc je d ch stub mp (CompositeRange t a)"
proof -
  note run = run_listing [OF assms, of d ch "sb_tx_id stub" None]
  show "implements_call P esc je d ch stub mp Range"
    using run [of "[]" "[]" "[]" None joined_keys] joined_keys_listed [OF assms(2)]
    by (auto simp: call_simps sb_get_state_by_range_def simp del: run_io_try)
  show "implements_call P esc je d ch stub mp (PrivateRange c)" if "c \<noteq> []"
    using run [of c "[]" "[]" None joined_keys] joined_keys_listed [OF assms(2)] that
    by (auto simp: call_simps get_private_data_by_range_def in_collection_def simp del: run_io_try)
  show "implements_call P esc je d ch stub mp (CompositeRange t a)"
  proof (cases "create_composite_key esc t [a]")
    case (Inl e)
    with assms(2) show ?thesis by (simp add: call_simps get_state_by_partial_composite_key_def)
  next
    case (Inr p)
    with run [of "[]" p "p @ [MAX_UNICODE_RUNE]" None joined_attributes] joined_attributes_listed [OF assms(2)] show ?thesis
      by (auto simp: call_simps get_state_by_partial_composite_key_def partial_key_range_def sb_get_state_by_range_def
          simp del: run_io_try split: sum.splits)
  qed
qed

lemma implements_private:
  assumes "prost_ok P" and "kv_ok mp" and c: "c \<noteq> []"
  shows "implements_call P esc je d ch stub mp (PutPrivate c k v)" "implements_call P esc je d ch stub mp (GetPrivate c k)"
    "implements_call P esc je d ch stub mp (DelPrivate c k)" "implements_call P esc je d ch stub mp (PurgePrivate c k)"
    "implements_call P esc je d ch stub mp (PrivateHash c k)"
proof -
  show "implements_call P esc je d ch stub mp (PutPrivate c k v)"
  proof (cases "k = []")
    case True
    with assms(2) c show ?thesis by (simp add: call_simps put_private_data_def in_collection_def store_put_def refused_def put_data_def del: run_put_data)
  next
    case False
    with run_put_ok [OF assms(1) False assms(2), of d ch "sb_tx_id stub" None c "str_bytes v"] c show ?thesis
      by (auto simp: call_simps put_private_data_def in_collection_def store_put_def simp del: run_put_data)
  qed
  show "implements_call P esc je d ch stub mp (GetPrivate c k)"
    using mock_get [OF assms(1), of d ch "sb_tx_id stub" mp None k c] assms(2) c
    by (simp add: call_simps get_private_data_def in_collection_def del: run_get_data)
  show "implements_call P esc je d ch stub mp (PrivateHash c k)"
    using mock_get_hash [OF assms(1) c, of d ch "sb_tx_id stub" mp None k] assms(2) c
    by (simp add: call_simps get_private_data_hash_def in_collection_def del: run_get_data)
  show "implements_call P esc je d ch stub mp (DelPrivate c k)"
    using run_del_ok [OF assms(1,2), of d ch "sb_tx_id stub" None c k] c
    by (auto simp: call_simps del_private_data_def in_collection_def simp del: run_del_data)
  show "implements_call P esc je d ch stub mp (PurgePrivate c k)"
    using run_purge_ok [OF assms, of d ch "sb_tx_id stub" None k] c
    by (auto simp: call_simps in_collection_def)
qed

text \<open>A collection without a name is refused before anything is sent.\<close>

lemma implements_no_collection:
  assumes "kv_ok mp"
  shows "implements_call P esc je d ch stub mp (PutPrivate [] k v)" "implements_call P esc je d ch stub mp (GetPrivate [] k)"
    "implements_call P esc je d ch stub mp (DelPrivate [] k)" "implements_call P esc je d ch stub mp (PurgePrivate [] k)"
    "implements_call P esc je d ch stub mp (PrivateHash [] k)" "implements_call P esc je d ch stub mp (PrivateRange [])"
  using assms
  by (simp_all add: call_simps put_private_data_def get_private_data_def del_private_data_def purge_private_data_def
      get_private_data_hash_def get_private_data_by_range_def in_collection_def refused_def)

lemma implements_rest:
  assumes "prost_ok P" and "kv_ok mp"
  shows "implements_call P esc je d ch stub mp (PutComposite t a b v)" "implements_call P esc je d ch stub mp Event"
    "implements_call P esc je d ch stub mp Boom" "f \<notin> known_functions \<Longrightarrow> implements_call P esc je d ch stub mp (Other f)"
proof -
  show "implements_call P esc je d ch stub mp (PutComposite t a b v)"
  proof (cases "create_composite_key esc t [a, b]")
    case (Inl e)
    with assms(2) show ?thesis by (simp add: call_simps)
  next
    case (Inr k)
    then have "k \<noteq> []" by (auto simp: create_iff)
    from run_put_ok [OF assms(1) this assms(2), of d ch "sb_tx_id stub" None "[]" "str_bytes v"] Inr show ?thesis
      by (auto simp: call_simps sb_put_state_def simp del: run_put_data)
  qed
  show "implements_call P esc je d ch stub mp Event" using assms(2) by (simp add: call_simps)
  show "implements_call P esc je d ch stub mp Boom" using assms(2) by (simp add: call_simps)
  show "implements_call P esc je d ch stub mp (Other f)" if "f \<notin> known_functions"
    using assms(2) that by (simp add: call_simps known_functions_def)
qed

lemma kv_call_implements:
  assumes "prost_ok P" and "kv_ok mp" and "call_ok call"
  shows "implements_call P esc je d ch stub mp call"
proof (cases call)
  case (Other f)
  with assms show ?thesis using implements_rest(4) [OF assms(1,2)] by simp
qed (use implements_world [OF assms(1,2)] implements_listing [OF assms(1,2)] implements_private [OF assms(1,2)]
    implements_no_collection [OF assms(2)] implements_rest [OF assms(1,2)] in \<open>metis\<close>)+

subsection \<open>Whole transactions\<close>

definition call_message :: "prost \<Rightarrow> str \<Rightarrow> kv_call \<Rightarrow> chaincode_message" where
  "call_message P txid call = start_tx P txid (call_texts call) None"

lemma call_texts_nonempty [simp]: "call_texts call \<noteq> []"
  by (cases call) simp_all

lemma kv_invoke_args:
  assumes "sb_args stub = map str_bytes (call_texts call)"
  shows "kv_invoke P esc stub = io_bind (kv_function P esc stub (hd (call_texts call)) (tl (call_texts call)))
    (\<lambda>result. Ret (response_from_result error_display result))"
proof -
  have "stub = stub\<lparr>sb_args := map str_bytes (call_texts call)\<rparr>" using assms by simp
  then have "get_function_and_args stub = (hd (call_texts call), tl (call_texts call))"
    using function_and_args_of_strings [where stub = stub and ss = "call_texts call"] by (simp split: list.splits)
  then show ?thesis by (simp add: kv_invoke_def)
qed

lemma run_then_map_sum:
  "run_then (Some (r, p, ev)) (\<lambda>a p' ev'. Some (Inr (f a), p', ev')) = Some (map_sum (\<lambda>t. t) f r, p, ev)"
  by (cases r) simp_all

lemma run_call:
  assumes P: "prost_ok P" and mp: "kv_ok mp" and call: "call_ok call"
  shows "\<exists>mp'. run_transaction P je (kv_chaincode P esc) (mock_serve P) d (call_message P txid call) mp
      = Some (completed_message P d (lit ''testchannel'') txid (fst (kv_spec esc je call (ledger mp))) (call_event txid call), mp')
    \<and> ledger mp' = snd (kv_spec esc je call (ledger mp)) \<and> kv_ok mp'"
proof -
  let ?input = "\<lparr>ci_args = map str_bytes (call_texts call), ci_decorations = fmempty, ci_is_init = False\<rparr>"
  obtain stub where stub: "stub_new P (lit ''testchannel'') txid ?input None = Inr stub" by (simp add: stub_new_def)
  then have sel: "sb_tx_id stub = txid" "sb_args stub = map str_bytes (call_texts call)"
    using stub_new_ids [OF stub] by simp_all
  from kv_call_implements [OF P mp call, of esc je d "lit ''testchannel''" stub] sel(1) obtain r mp' where
    run: "run_io (mock_env P d (lit ''testchannel'') txid) mp None
       (kv_function P esc stub (hd (call_texts call)) (tl (call_texts call))) = Some (r, mp', call_event txid call)"
    and spec: "kv_spec esc je call (ledger mp) = (outcome je (map_sum (\<lambda>t. t) (response_from_result error_display) r), ledger mp')"
    and ok: "kv_ok mp'" by (auto simp: implements_call_def)
  have "run_io (mock_env P d (lit ''testchannel'') txid) mp None (kv_invoke P esc stub)
      = Some (map_sum (\<lambda>t. t) (response_from_result error_display) r, mp', call_event txid call)"
    unfolding kv_invoke_args [OF sel(2)] run_io_bind run run_io_simps by (rule run_then_map_sum)
  moreover have "prepare_transaction P None d (call_message P txid call) = RunUser False stub"
    using P stub by (simp add: prepare_transaction_def call_message_def Let_def)
  ultimately show ?thesis
    using spec ok by (simp add: run_transaction_def kv_chaincode_def outcome_def call_message_def)
qed

fun kv_spec_run :: "(uchr \<Rightarrow> bool) \<Rightarrow> (str \<Rightarrow> str) \<Rightarrow> kv_call list \<Rightarrow> store \<Rightarrow> response list \<times> store" where
  "kv_spec_run esc je [] l = ([], l)"
| "kv_spec_run esc je (call # calls) l =
     (let (r, l') = kv_spec esc je call l; (rs, l'') = kv_spec_run esc je calls l' in (r # rs, l''))"

lemma run_calls:
  assumes P: "prost_ok P" and "kv_ok mp" and "list_all (\<lambda>(t, call). call_ok call) history"
  shows "\<exists>ms mp'. run_transactions P je (kv_chaincode P esc) (mock_serve P) d (map (\<lambda>(t, call). call_message P t call) history) mp = Some (ms, mp')
    \<and> map key_of ms = map (\<lambda>(t, call). (lit ''testchannel'', t)) history \<and> list_all (\<lambda>m. cm_kind m = MT_Completed) ms
    \<and> map cm_chaincode_event ms = map (\<lambda>(t, call). call_event t call) history
    \<and> map (\<lambda>m. decode (c_response P) (cm_payload m)) ms
        = map (\<lambda>r. Inr (into_proto r)) (fst (kv_spec_run esc je (map snd history) (ledger mp)))
    \<and> ledger mp' = snd (kv_spec_run esc je (map snd history) (ledger mp)) \<and> kv_ok mp'"
  using assms(2,3)
proof (induction history arbitrary: mp)
  case (Cons h history)
  obtain t call where h: "h = (t, call)" by fastforce
  with Cons.prems have "call_ok call" by simp
  from run_call [OF P Cons.prems(1) this, of je esc d t] obtain mp1 where
    m: "run_transaction P je (kv_chaincode P esc) (mock_serve P) d (call_message P t call) mp
        = Some (completed_message P d (lit ''testchannel'') t (fst (kv_spec esc je call (ledger mp))) (call_event t call), mp1)"
      "ledger mp1 = snd (kv_spec esc je call (ledger mp))" "kv_ok mp1" by blast
  from Cons.IH [OF m(3)] Cons.prems obtain ms mp' where
    ms: "run_transactions P je (kv_chaincode P esc) (mock_serve P) d (map (\<lambda>(t, call). call_message P t call) history) mp1 = Some (ms, mp')"
      "map key_of ms = map (\<lambda>(t, call). (lit ''testchannel'', t)) history" "list_all (\<lambda>m. cm_kind m = MT_Completed) ms"
      "map cm_chaincode_event ms = map (\<lambda>(t, call). call_event t call) history"
      "map (\<lambda>m. decode (c_response P) (cm_payload m)) ms
        = map (\<lambda>r. Inr (into_proto r)) (fst (kv_spec_run esc je (map snd history) (ledger mp1)))"
      "ledger mp' = snd (kv_spec_run esc je (map snd history) (ledger mp1))" "kv_ok mp'" by auto
  show ?case
    using m ms P by (intro exI [of _ "completed_message P d (lit ''testchannel'') t (fst (kv_spec esc je call (ledger mp))) (call_event t call) # ms"]
        exI [of _ mp']) (simp add: h case_prod_unfold Let_def)
qed simp

subsection \<open>Property\<close>

text \<open>C6. The shim turns the test chaincode into a key-value store: any sequence of its calls (world state, private
  collections, purging, hashes, listings page by page, composite keys, an event, an unknown function, a panic),
  sent as text arguments over a connection, is answered by one COMPLETED each that holds the store's
  answer, or its error, and the event of the calls that set one, and leaves the peer with the store's content. Collections are
  independent, listings are complete and in key order, and a call that fails changes nothing.\<close>

theorem test_chaincode_refines_store:
  assumes "prost_ok P" and "kv_ok mp" and "list_all (\<lambda>(t, call). call_ok call) history" and "quiet s"
  shows "\<exists>ms mp'. connection_transactions P je (kv_chaincode P esc) (mock_serve P) d
        (map (\<lambda>(t, call). call_message P t call) history) s mp = Some (ms, mp')
    \<and> map key_of ms = map (\<lambda>(t, call). (lit ''testchannel'', t)) history \<and> list_all (\<lambda>m. cm_kind m = MT_Completed) ms
    \<and> map cm_chaincode_event ms = map (\<lambda>(t, call). call_event t call) history
    \<and> map (\<lambda>m. decode (c_response P) (cm_payload m)) ms
        = map (\<lambda>r. Inr (into_proto r)) (fst (kv_spec_run esc je (map snd history) (ledger mp)))
    \<and> ledger mp' = snd (kv_spec_run esc je (map snd history) (ledger mp)) \<and> kv_ok mp'"
proof -
  have "list_all (\<lambda>m. cm_kind m = MT_Init \<or> cm_kind m = MT_Transaction) (map (\<lambda>(t, call). call_message P t call) history)"
    by (induction history) (auto simp: call_message_def)
  note connection_transactions_link [OF mock_answers_requests assms(4) this]
  with run_calls [OF assms(1-3)] show ?thesis by simp
qed

theorem test_chaincode_refines_store_witness:
  "\<exists>s ms mp'. quiet s \<and> connection_transactions wire_prost id (kv_chaincode wire_prost (\<lambda>_. False)) (mock_serve wire_prost) None
        (map (\<lambda>(t, call). call_message wire_prost t call)
          [(lit ''t1'', Put (lit ''a'') (lit ''x'')), (lit ''t2'', PutPrivate (lit ''c'') (lit ''a'') (lit ''y'')),
           (lit ''t3'', Get (lit ''a'')), (lit ''t4'', Put [] (lit ''z'')), (lit ''t5'', PurgePrivate (lit ''c'') (lit ''a'')),
           (lit ''t6'', GetPrivate (lit ''c'') (lit ''a''))]) s empty_peer = Some (ms, mp')
    \<and> map (\<lambda>m. decode (c_response wire_prost) (cm_payload m)) ms
        = map (\<lambda>r. Inr (into_proto r)) [success_empty, success_empty, success (str_bytes (lit ''x'')), refused ''key must not be empty'',
            success_empty, success []]"
proof -
  let ?history = "[(lit ''t1'', Put (lit ''a'') (lit ''x'')), (lit ''t2'', PutPrivate (lit ''c'') (lit ''a'') (lit ''y'')),
           (lit ''t3'', Get (lit ''a'')), (lit ''t4'', Put [] (lit ''z'')), (lit ''t5'', PurgePrivate (lit ''c'') (lit ''a'')),
           (lit ''t6'', GetPrivate (lit ''c'') (lit ''a''))]"
  obtain s where s: "quiet s" using handshake_quiet by blast
  have mp: "kv_ok empty_peer" by (simp add: kv_ok_def empty_peer_def mock_inv_def bt_ok_def)
  have ok: "list_all (\<lambda>(t, call). call_ok call) ?history" by simp
  have spec: "fst (kv_spec_run (\<lambda>_. False) id (map snd ?history) (ledger empty_peer)) =
      [success_empty, success_empty, success (str_bytes (lit ''x'')), refused ''key must not be empty'', success_empty, success []]"
    by (simp add: store_put_def in_collection_def ledger_upd_def unwrap_or_default_def)
  from test_chaincode_refines_store [OF wire_prost_ok mp ok s, of id "\<lambda>_. False" None] spec s show ?thesis by auto
qed

end
