(* ===== verification/Fuzz_Targets.thy ===== *)
theory Fuzz_Targets imports Composite_Key Stub
begin

section \<open>The fuzz targets\<close>

text \<open>
  \<open>fuzz/fuzz_targets/*.rs\<close>, the bodies of the three targets as functions of the fuzzer's
  bytes. A target reports a bug by panicking: the composite key target returns the panic
  or \<open>()\<close>. The decoding targets only decode; they are modelled as the list of the results they
  drop, in the order of the calls. The lemmas show that the composite key target passes on every
  input, and that the proposal chain target exercises exactly the decoding on which
  \<open>ChaincodeStub::new\<close> depends: the stub is built if and only if no decode of the target fails,
  and the error of the stub is the error of one of them.
\<close>

subsection \<open>Composite keys\<close>

datatype fuzz_panic =
    Expect str shim_error
  | Assert_Eq_Type str str
  | Assert_Eq_Attributes "str list" "str list"

definition composite_key_roundtrip :: "(uchr \<Rightarrow> bool) \<Rightarrow> bytes \<Rightarrow> fuzz_panic + unit" where
  "composite_key_roundtrip esc data =
     (let text = from_utf8_lossy data;
          parts = split_on (uchr_of 10) text;
          object_type = (case parts of [] \<Rightarrow> [] | p # ps \<Rightarrow> p);
          attributes = tl parts in
      res_bind
        (case create_composite_key esc object_type attributes of
           Inl e \<Rightarrow> Inr ()
         | Inr key \<Rightarrow> (case split_composite_key key of
             Inl e \<Rightarrow> Inl (Expect (lit ''a composite key we just built must be splittable'') e)
           | Inr (parsed_type, parsed_attrs) \<Rightarrow>
               if parsed_type \<noteq> object_type then Inl (Assert_Eq_Type parsed_type object_type)
               else if parsed_attrs \<noteq> attributes then Inl (Assert_Eq_Attributes parsed_attrs attributes)
               else Inr ()))
        (\<lambda>_. let _ = split_composite_key text in Inr ()))"

lemma composite_key_roundtrip_passes: "composite_key_roundtrip esc data = Inr ()"
proof -
  let ?parts = "split_on (uchr_of 10) (from_utf8_lossy data)"
  obtain ot as where parts: "?parts = ot # as" by (cases ?parts) auto
  show ?thesis
  proof (cases "create_composite_key esc ot as")
    case (Inr key)
    then have "split_composite_key key = Inr (ot, as)" by (rule create_split)
    with Inr parts show ?thesis by (simp add: composite_key_roundtrip_def)
  qed (simp add: composite_key_roundtrip_def parts)
qed

text \<open>The target is not vacuous: text of valid components, one per line, reaches the assertions.\<close>

definition lines_of :: "str list \<Rightarrow> str" where
  "lines_of ss = concat (map (\<lambda>s. s @ [uchr_of 10]) (butlast ss)) @ last ss"

lemma split_on_id: "d \<notin> set s \<Longrightarrow> split_on d s = [s]"
  by (induction s) auto

lemma split_lines:
  assumes "ss \<noteq> []" and "\<forall>s\<in>set ss. uchr_of 10 \<notin> set s"
  shows "split_on (uchr_of 10) (lines_of ss) = ss"
  using assms
proof (induction ss rule: list_nonempty_induct)
  case (single s)
  then show ?case by (simp add: lines_of_def split_on_id)
next
  case (cons s ss)
  then have "lines_of (s # ss) = s @ uchr_of 10 # lines_of ss" by (simp add: lines_of_def)
  with cons show ?case by (simp add: split_on_append)
qed

lemma composite_key_roundtrip_reaches_keys:
  assumes "\<forall>s\<in>set (ot # as). valid_component s \<and> uchr_of 10 \<notin> set s"
  shows "split_on (uchr_of 10) (from_utf8_lossy (str_bytes (lines_of (ot # as)))) = ot # as
    \<and> create_composite_key esc ot as = Inr (COMPOSITE_KEY_NAMESPACE # terminated (ot # as))"
  using assms split_lines [of "ot # as"] by (auto simp: create_iff)

subsection \<open>Decoding\<close>

text \<open>A decode call of a target and its result; \<open>SignedProposal::decode\<close> is used by no other
  code of the shim, so its codec is a parameter of its own.\<close>

datatype decoded =
    Signed_Proposal "str + signed_proposal"
  | Proposal "str + proposal"
  | Proposal_Payload "str + chaincode_proposal_payload"
  | Header "str + header"
  | Channel_Header "str + channel_header"
  | Signature_Header "str + signature_header"
  | Chaincode_Message "str + chaincode_message"

fun err_of :: "'e + 'a \<Rightarrow> 'e option" where
  "err_of (Inl e) = Some e"
| "err_of (Inr a) = None"

fun decode_failure :: "decoded \<Rightarrow> str option" where
  "decode_failure (Signed_Proposal r) = err_of r"
| "decode_failure (Proposal r) = err_of r"
| "decode_failure (Proposal_Payload r) = err_of r"
| "decode_failure (Header r) = err_of r"
| "decode_failure (Channel_Header r) = err_of r"
| "decode_failure (Signature_Header r) = err_of r"
| "decode_failure (Chaincode_Message r) = err_of r"

definition decode_proposal_chain :: "signed_proposal codec \<Rightarrow> prost \<Rightarrow> bytes \<Rightarrow> decoded list" where
  "decode_proposal_chain c P data =
     (let r = decode c data in Signed_Proposal r # (case r of Inl _ \<Rightarrow> [] | Inr signed_proposal \<Rightarrow>
      let r = decode (c_proposal P) (sp_proposal_bytes signed_proposal) in Proposal r # (case r of Inl _ \<Rightarrow> [] | Inr proposal \<Rightarrow>
      Proposal_Payload (decode (c_chaincode_proposal_payload P) (prop_payload proposal)) #
      (let r = decode (c_header P) (prop_header proposal) in Header r # (case r of Inl _ \<Rightarrow> [] | Inr header \<Rightarrow>
      [Channel_Header (decode (c_channel_header P) (hd_channel_header header)),
       Signature_Header (decode (c_signature_header P) (hd_signature_header header))])))))"

definition decode_chaincode_message :: "prost \<Rightarrow> bytes \<Rightarrow> decoded list" where
  "decode_chaincode_message P data = [Chaincode_Message (decode (c_chaincode_message P) data)]"

text \<open>The chain on the stub's side, decode by decode.\<close>

lemma read_proposal_cases:
  assumes "decode c data = Inr sp"
  shows "case read_proposal P sp of
      Inr _ \<Rightarrow> length (decode_proposal_chain c P data) = 6 \<and> (\<forall>d\<in>set (decode_proposal_chain c P data). decode_failure d = None)
    | Inl e \<Rightarrow> \<exists>d\<in>set (decode_proposal_chain c P data). \<exists>x. decode_failure d = Some x \<and> e = ErrDecode x"
proof (cases "decode (c_proposal P) (sp_proposal_bytes sp)")
  case (Inr prp)
  show ?thesis
  proof (cases "decode (c_header P) (prop_header prp)")
    case hdr: (Inr hdr)
    show ?thesis
      using assms Inr hdr
      by (cases "decode (c_channel_header P) (hd_channel_header hdr)";
          cases "decode (c_signature_header P) (hd_signature_header hdr)";
          cases "decode (c_chaincode_proposal_payload P) (prop_payload prp)")
        (simp_all add: read_proposal_def decode_proposal_chain_def decode_or_def)
  qed (use assms Inr in \<open>simp add: read_proposal_def decode_proposal_chain_def decode_or_def\<close>)
qed (use assms in \<open>simp add: read_proposal_def decode_proposal_chain_def decode_or_def\<close>)

lemma stub_new_cases:
  assumes "decode c data = Inr sp"
  shows "case stub_new P ch tx input (Some sp) of
      Inr _ \<Rightarrow> list_all (\<lambda>d. decode_failure d = None) (decode_proposal_chain c P data)
    | Inl e \<Rightarrow> \<exists>d\<in>set (decode_proposal_chain c P data). \<exists>x. decode_failure d = Some x \<and> e = ErrDecode x"
  using read_proposal_cases [OF assms, of P]
  by (cases "read_proposal P sp") (auto simp: stub_new_def list_all_iff)

text \<open>C33. The proposal chain target covers what the stub decodes: for every bytes that are a signed
  proposal, \<open>ChaincodeStub::new\<close> succeeds exactly when no decode of the target fails, and then the
  target has run all six; when the stub is refused, its \<open>Decode\<close> error is the error of one of
  the target's decodes. Bytes that are no signed proposal end the target after its first decode.\<close>

theorem proposal_chain_covers_stub_new:
  assumes "decode c data = r"
  shows "case r of
      Inl e \<Rightarrow> decode_proposal_chain c P data = [Signed_Proposal (Inl e)]
    | Inr sp \<Rightarrow>
        (is_ok (stub_new P ch tx input (Some sp)) \<longleftrightarrow> list_all (\<lambda>d. decode_failure d = None) (decode_proposal_chain c P data))
      \<and> (is_ok (stub_new P ch tx input (Some sp)) \<longrightarrow> length (decode_proposal_chain c P data) = 6)
      \<and> (\<forall>e. stub_new P ch tx input (Some sp) = Inl e \<longrightarrow>
            (\<exists>x. e = ErrDecode x \<and> Some x \<in> decode_failure ` set (decode_proposal_chain c P data)))"
proof (cases r)
  case (Inl e)
  with assms show ?thesis by (simp add: decode_proposal_chain_def)
next
  case (Inr sp)
  with assms have d: "decode c data = Inr sp" by simp
  have six: "is_ok (stub_new P ch tx input (Some sp)) \<Longrightarrow> length (decode_proposal_chain c P data) = 6"
    using read_proposal_cases [OF d, of P] by (cases "read_proposal P sp") (auto simp: stub_new_def)
  show ?thesis
    using stub_new_cases [OF d, of P ch tx input] six Inr
    by (cases "stub_new P ch tx input (Some sp)") (auto simp: list_all_iff image_iff intro: sym)
qed

theorem proposal_chain_covers_stub_new_witness:
  "\<exists>sp. decode w_signed_proposal (encode w_signed_proposal sp) = Inr sp
    \<and> length (decode_proposal_chain w_signed_proposal wire_prost (encode w_signed_proposal sp)) = 6
    \<and> list_all (\<lambda>d. decode_failure d = None) (decode_proposal_chain w_signed_proposal wire_prost (encode w_signed_proposal sp))"
proof -
  let ?sp = "make_signed_proposal wire_prost (lit ''Org1MSP'') [1, 2] fmempty 5"
  let ?input = "\<lparr>ci_args = [[7]], ci_decorations = fmempty, ci_is_init = False\<rparr>"
  have d: "decode w_signed_proposal (encode w_signed_proposal ?sp) = Inr ?sp"
    by (rule signed_proposal_wire.decode_encode)
  have "is_ok (stub_new wire_prost [] [] ?input (Some ?sp))"
    by (simp add: stub_new_def read_proposal_def decode_or_def make_signed_proposal_def)
  then show ?thesis
    using proposal_chain_covers_stub_new [OF d, of wire_prost "[]" "[]" ?input] d by auto
qed

end
