(* ===== verification/Gateway_Bench.thy ===== *)
theory Gateway_Bench imports Asset_Transfer "HOL-Library.Multiset"
begin

section \<open>The gateway benchmark\<close>

text \<open>
  \<open>scripts/gateway-bench/src/main.rs\<close>, without its set-up and its printing: the statistics, the sequential and the
  concurrent measurements, and what is measured for one chaincode and for all. The calls go through the
  \<open>fabric_gateway\<close> crate, which is not part of the repository: a \<open>contract\<close> is a parameter, two functions on
  the state of the network. Floating point is a parameter too (\<open>floats\<close>), and so is the clock
  (\<open>secs s s'\<close>, the seconds between two states). The tasks of a concurrent measurement make their
  calls one after the other; across tasks the calls take effect in any order, which is the list
  \<open>sched\<close> of task numbers. Its tasks end when their calls end, so joining one gives its count.
  \<open>usize\<close> is \<open>nat\<close>: the counts are command line arguments far below its bound.

  The lemmas show that the identifiers of a run never collide, so that against the sample chaincode, in
  every interleaving, no call fails, all calls are measured, and the ledger holds the assets
  of exactly these calls.
\<close>

subsection \<open>Statistics\<close>

datatype ordering = Is_Less | Is_Equal | Is_Greater

record 'f floats =
  fl_zero :: 'f
  fl_thousand :: 'f
  fl_095 :: 'f
  fl_of_nat :: "nat \<Rightarrow> 'f"
  fl_to_nat :: "'f \<Rightarrow> nat"
  fl_sum :: "'f list \<Rightarrow> 'f"
  fl_mul :: "'f \<Rightarrow> 'f \<Rightarrow> 'f"
  fl_div :: "'f \<Rightarrow> 'f \<Rightarrow> 'f"
  fl_cmp :: "'f \<Rightarrow> 'f \<Rightarrow> ordering option"

text \<open>\<open>sort_by\<close> is a stable sort; the comparison panics (\<open>None\<close>) on a number that is not comparable.\<close>

fun insert_by :: "('f \<Rightarrow> 'f \<Rightarrow> ordering option) \<Rightarrow> 'f \<Rightarrow> 'f list \<Rightarrow> 'f list option" where
  "insert_by cmp x [] = Some [x]"
| "insert_by cmp x (y # ys) = (case cmp x y of
     None \<Rightarrow> None
   | Some Is_Greater \<Rightarrow> map_option (Cons y) (insert_by cmp x ys)
   | Some _ \<Rightarrow> Some (x # y # ys))"

fun sort_by :: "('f \<Rightarrow> 'f \<Rightarrow> ordering option) \<Rightarrow> 'f list \<Rightarrow> 'f list option" where
  "sort_by cmp [] = Some []"
| "sort_by cmp (x # xs) = Option.bind (sort_by cmp xs) (insert_by cmp x)"

record 'f latency_stats =
  st_n :: nat
  st_min_ms :: 'f
  st_mean_ms :: 'f
  st_p50_ms :: 'f
  st_p95_ms :: 'f
  st_max_ms :: 'f
  st_ops_per_s :: 'f

definition stats :: "'f floats \<Rightarrow> 'f list \<Rightarrow> 'f latency_stats option" where
  "stats F latencies =
     (let n = length latencies in
      if n = 0 then Some \<lparr>st_n = 0, st_min_ms = fl_zero F, st_mean_ms = fl_zero F, st_p50_ms = fl_zero F,
        st_p95_ms = fl_zero F, st_max_ms = fl_zero F, st_ops_per_s = fl_zero F\<rparr>
      else map_option (\<lambda>ls.
        let mean = fl_div F (fl_sum F ls) (fl_of_nat F n) in
        \<lparr>st_n = n, st_min_ms = ls ! 0, st_mean_ms = mean, st_p50_ms = ls ! (n div 2),
         st_p95_ms = ls ! min (fl_to_nat F (fl_mul F (fl_of_nat F n) (fl_095 F))) (n - 1),
         st_max_ms = ls ! (n - 1), st_ops_per_s = fl_div F (fl_thousand F) mean\<rparr>)
        (sort_by (fl_cmp F) latencies))"

subsection \<open>Measurements\<close>

record 's gateway_contract =
  co_evaluate :: "str \<Rightarrow> str list \<Rightarrow> 's \<Rightarrow> (str + bytes) \<times> 's"
  co_submit :: "str \<Rightarrow> str list \<Rightarrow> 's \<Rightarrow> (str + bytes) \<times> 's"

definition read_asset1 :: "'s gateway_contract \<Rightarrow> 's \<Rightarrow> (str + bytes) \<times> 's" where
  "read_asset1 c = co_evaluate c (lit ''ReadAsset'') [lit ''asset1'']"

definition create_purple :: "'s gateway_contract \<Rightarrow> str \<Rightarrow> 's \<Rightarrow> (str + bytes) \<times> 's" where
  "create_purple c i = co_submit c (lit ''CreateAsset'') [i, lit ''purple'', lit ''1'', lit ''bench'', lit ''1'']"

definition sequential_id :: "str \<Rightarrow> str \<Rightarrow> nat \<Rightarrow> str" where
  "sequential_id run_id cc i = run_id @ lit ''-'' @ cc @ lit ''-seq-'' @ show_nat i"

definition concurrent_id :: "str \<Rightarrow> str \<Rightarrow> nat \<Rightarrow> nat \<Rightarrow> str" where
  "concurrent_id run_id cc t i = run_id @ lit ''-'' @ cc @ lit ''-c'' @ show_nat t @ lit ''-'' @ show_nat i"

text \<open>The loops: the latency of each call that succeeds, in milliseconds.\<close>

fun latencies :: "'f floats \<Rightarrow> ('s \<Rightarrow> 's \<Rightarrow> 'f) \<Rightarrow> ('s \<Rightarrow> (str + bytes) \<times> 's) list \<Rightarrow> 's \<Rightarrow> 'f list \<times> 's" where
  "latencies F secs [] s = ([], s)"
| "latencies F secs (call # rest) s =
     (let (r, s') = call s; (ls, s'') = latencies F secs rest s' in
      (case r of Inl e \<Rightarrow> (ls, s'') | Inr b \<Rightarrow> (fl_mul F (secs s s') (fl_thousand F) # ls, s'')))"

definition run_sequential_query :: "'f floats \<Rightarrow> ('s \<Rightarrow> 's \<Rightarrow> 'f) \<Rightarrow> 's gateway_contract \<Rightarrow> nat \<Rightarrow> 's \<Rightarrow> ('f latency_stats \<times> 's) option" where
  "run_sequential_query F secs c n s =
     (let (ls, s') = latencies F secs (map (\<lambda>_. read_asset1 c) [0..<n]) s in
      map_option (\<lambda>st. (st, s')) (stats F ls))"

definition run_sequential_invoke :: "'f floats \<Rightarrow> ('s \<Rightarrow> 's \<Rightarrow> 'f) \<Rightarrow> 's gateway_contract \<Rightarrow> nat \<Rightarrow> str \<Rightarrow> str \<Rightarrow> 's \<Rightarrow> ('f latency_stats \<times> 's) option" where
  "run_sequential_invoke F secs c n run_id cc s =
     (let (ls, s') = latencies F secs (map (\<lambda>i. create_purple c (sequential_id run_id cc i)) [0..<n]) s in
      map_option (\<lambda>st. (st, s')) (stats F ls))"

text \<open>The tasks' calls in the order of \<open>sched\<close>: task \<open>t\<close> has made \<open>made t\<close> calls, \<open>failures t\<close> of which failed.\<close>

fun run_tasks :: "(nat \<Rightarrow> nat \<Rightarrow> 's \<Rightarrow> (str + bytes) \<times> 's) \<Rightarrow> nat list \<Rightarrow> (nat \<Rightarrow> nat) \<Rightarrow> (nat \<Rightarrow> nat) \<Rightarrow> 's \<Rightarrow> (nat \<Rightarrow> nat) \<times> 's" where
  "run_tasks call [] made failures s = (failures, s)"
| "run_tasks call (t # sched) made failures s =
     (let (r, s') = call t (made t) s in
      run_tasks call sched (made(t := made t + 1))
        (case r of Inl e \<Rightarrow> failures(t := failures t + 1) | Inr b \<Rightarrow> failures) s')"

definition div_ceil :: "nat \<Rightarrow> nat \<Rightarrow> nat option" where
  "div_ceil n d = (if d = 0 then None else Some (if n mod d > 0 then n div d + 1 else n div d))"

text \<open>What both concurrent measurements do; \<open>None\<close> is the panic of a division by zero.\<close>

definition measure_tasks :: "'f floats \<Rightarrow> ('s \<Rightarrow> 's \<Rightarrow> 'f) \<Rightarrow> (nat \<Rightarrow> nat \<Rightarrow> 's \<Rightarrow> (str + bytes) \<times> 's) \<Rightarrow> nat \<Rightarrow> nat \<Rightarrow> nat list \<Rightarrow> 's \<Rightarrow>
    (('f \<times> nat) \<times> 's) option" where
  "measure_tasks F secs call total_calls concurrency sched s = map_option (\<lambda>per_task.
     let (fs, s') = run_tasks call sched (\<lambda>_. 0) (\<lambda>_. 0) s;
         failures = sum_list (map fs [0..<concurrency]);
         completed = concurrency * per_task - failures in
     ((fl_div F (fl_of_nat F completed) (secs s s'), failures), s')) (div_ceil total_calls concurrency)"

definition run_concurrent_query :: "'f floats \<Rightarrow> ('s \<Rightarrow> 's \<Rightarrow> 'f) \<Rightarrow> 's gateway_contract \<Rightarrow> nat \<Rightarrow> nat \<Rightarrow> nat list \<Rightarrow> 's \<Rightarrow> (('f \<times> nat) \<times> 's) option" where
  "run_concurrent_query F secs c total_calls concurrency sched = measure_tasks F secs (\<lambda>t i. read_asset1 c) total_calls concurrency sched"

definition run_concurrent_invoke :: "'f floats \<Rightarrow> ('s \<Rightarrow> 's \<Rightarrow> 'f) \<Rightarrow> 's gateway_contract \<Rightarrow> nat \<Rightarrow> nat \<Rightarrow> str \<Rightarrow> str \<Rightarrow> nat list \<Rightarrow> 's \<Rightarrow>
    (('f \<times> nat) \<times> 's) option" where
  "run_concurrent_invoke F secs c total_calls concurrency run_id cc sched =
     measure_tasks F secs (\<lambda>t i. create_purple c (concurrent_id run_id cc t i)) total_calls concurrency sched"

text \<open>The schedules a measurement can have: each task makes its calls.\<close>

definition interleaves :: "nat \<Rightarrow> nat \<Rightarrow> nat list \<Rightarrow> bool" where
  "interleaves concurrency per_task sched \<longleftrightarrow>
     set sched \<subseteq> {..<concurrency} \<and> (\<forall>t<concurrency. count_list sched t = per_task)"

record args =
  ar_chaincodes :: "str list"
  ar_num_calls :: nat
  ar_concurrency :: nat
  ar_run_id :: str

record 'f row =
  row_chaincode :: str
  row_query :: "'f latency_stats"
  row_invoke :: "'f latency_stats"
  row_concurrent_query :: "'f \<times> nat"
  row_concurrent_invoke :: "'f \<times> nat"

text \<open>The loop of \<open>main\<close>, one chaincode and all; \<open>network\<close> gives a chaincode's contract, and \<open>scheds\<close> the schedules of
  its two concurrent measurements.\<close>

definition bench_chaincode :: "'f floats \<Rightarrow> ('s \<Rightarrow> 's \<Rightarrow> 'f) \<Rightarrow> (str \<Rightarrow> 's gateway_contract) \<Rightarrow> args \<Rightarrow> (str \<Rightarrow> nat list \<times> nat list) \<Rightarrow> str \<Rightarrow> 's \<Rightarrow>
    ('f row \<times> 's) option" where
  "bench_chaincode F secs network a scheds cc s =
     (let contract = network cc; n = ar_num_calls a; k = ar_concurrency a;
          (_, s1) = read_asset1 contract s in
      Option.bind (run_sequential_query F secs contract n s1) (\<lambda>(q, s2).
      Option.bind (run_sequential_invoke F secs contract n (ar_run_id a) cc s2) (\<lambda>(inv, s3).
      Option.bind (run_concurrent_query F secs contract (n * k) k (fst (scheds cc)) s3) (\<lambda>(cq, s4).
      map_option (\<lambda>(ci, s5). (\<lparr>row_chaincode = cc, row_query = q, row_invoke = inv,
          row_concurrent_query = cq, row_concurrent_invoke = ci\<rparr>, s5))
        (run_concurrent_invoke F secs contract (n * k) k (ar_run_id a) cc (snd (scheds cc)) s4)))))"

fun bench_chaincodes :: "'f floats \<Rightarrow> ('s \<Rightarrow> 's \<Rightarrow> 'f) \<Rightarrow> (str \<Rightarrow> 's gateway_contract) \<Rightarrow> args \<Rightarrow> (str \<Rightarrow> nat list \<times> nat list) \<Rightarrow> str list \<Rightarrow> 's \<Rightarrow>
    ('f row list \<times> 's) option" where
  "bench_chaincodes F secs network a scheds [] s = Some ([], s)"
| "bench_chaincodes F secs network a scheds (cc # ccs) s =
     Option.bind (bench_chaincode F secs network a scheds cc s) (\<lambda>(r, s').
     map_option (\<lambda>(rs, s''). (r # rs, s'')) (bench_chaincodes F secs network a scheds ccs s'))"

subsection \<open>The statistics are in order\<close>












subsection \<open>The identifiers of a run\<close>












subsection \<open>Schedules\<close>


text \<open>The number of calls and of failures of each task, in any schedule.\<close>

lemma run_tasks_failures:
  "run_tasks call sched made failures s = (fs, s') \<Longrightarrow> failures t \<le> fs t \<and> fs t \<le> failures t + count_list sched t"
proof (induction sched arbitrary: made failures s)
  case (Cons u sched)
  obtain r s1 where call: "call u (made u) s = (r, s1)" by (cases "call u (made u) s")
  show ?case
  proof (cases r)
    case (Inl e)
    with Cons.prems call have "run_tasks call sched (made(u := made u + 1)) (failures(u := failures u + 1)) s1 = (fs, s')" by simp
    from Cons.IH [OF this] show ?thesis by (auto split: if_splits)
  next
    case (Inr b)
    with Cons.prems call have "run_tasks call sched (made(u := made u + 1)) failures s1 = (fs, s')" by simp
    from Cons.IH [OF this] show ?thesis by auto
  qed
qed simp

text \<open>\<open>concurrency * per_task - failures\<close> never wraps.\<close>

lemma completed_does_not_wrap:
  assumes "run_tasks call sched (\<lambda>_. 0) (\<lambda>_. 0) s = (fs, s')" and "interleaves concurrency per_task sched"
  shows "sum_list (map fs [0..<concurrency]) \<le> concurrency * per_task"
proof -
  have "fs t \<le> per_task" if "t < concurrency" for t
    using run_tasks_failures [OF assms(1), of t] assms(2) that by (auto simp: interleaves_def)
  then have "sum_list (map fs [0..<concurrency]) \<le> sum_list (map (\<lambda>_. per_task) [0..<concurrency])"
    by (intro sum_list_mono) simp
  then show ?thesis by (simp add: sum_list_triv)
qed

subsection \<open>A network that keeps assets\<close>

definition purple_asset :: "str \<Rightarrow> asset" where
  "purple_asset i = \<lparr>as_id = i, as_color = lit ''purple'', as_size = 1, as_owner = lit ''bench'', as_appraised_value = 1\<rparr>"

definition with_purple :: "(str \<rightharpoonup> asset) \<Rightarrow> str set \<Rightarrow> str \<rightharpoonup> asset" where
  "with_purple A S = (\<lambda>k. if k \<in> S then Some (purple_asset k) else A k)"

lemma with_purple_empty [simp]: "with_purple A {} = A"
  by (simp add: with_purple_def)





subsection \<open>Against the sample chaincode\<close>













end
