(* ===== verification/Spec2Isabelle.thy ===== *)
theory Spec2Isabelle imports Enumerations Fabric_Messages Grpc_Services Sample_Program Interleaving Test_Kv Fuzz_Targets Gateway_Bench
begin

section \<open>The Rust chaincode shim for Hyperledger Fabric\<close>

text \<open>
  This library models \<open>fabric-chaincode-rs\<close>, a shim that lets Hyperledger Fabric run chaincode written in
  Rust as an external service. The peer opens one bidirectional stream to the chaincode's server
  and sends protobuf messages over it: after a handshake (REGISTER, REGISTERED, READY) each INIT or
  TRANSACTION message starts a task that runs the user's code, the code's ledger calls travel back as
  request messages that the peer answers, and the task ends with one COMPLETED or ERROR.

  \<^bold>\<open>The parts and their theories\<close> (paths under \<open>src/\<close>; theories in the order of their imports).

  \<^item> \<open>Prelude\<close>, \<open>Rust_Str\<close>, \<open>Rust_Num\<close>: what the code uses of the language and its standard library.
    \<open>Result<T, E>\<close> is \<open>'e + 'a\<close>, a \<open>String\<close> a list of scalar values (\<open>uchr\<close>) with the UTF-8 codec written
    out, numbers parsed from text are \<open>int\<close> with the bounds of their type, the protocol's
    integers are words.
  \<^item> \<open>Messages\<close>, \<open>Codec\<close>, \<open>Wire\<close>: \<open>fabric-shim-protos/src/generated\<close>. One record per message the shim
    builds or reads, the message type enumeration with its name tables. Encoding is prost's: a codec is a
    parameter with the law \<open>prost_ok\<close> (decoding inverts encoding); \<open>Wire\<close> implements the wire format
    and proves the law, so every witness runs on bytes.
  \<^item> \<open>Enumerations\<close>, \<open>Fabric_Messages\<close>, \<open>Grpc_Services\<close>: the rest of the generated code: the other enumerations with their tables, the
    messages the shim does not touch (recursive policies included), and the gRPC servers' routing and clients' calls over tonic.
  \<^item> \<open>Shim_Types\<close>, \<open>Composite_Key\<close>: \<open>fabric-shim/src/error.rs\<close>, \<open>response.rs\<close>, and the composite keys of \<open>stub.rs\<close>.
  \<^item> \<open>Io\<close>: asynchronous code as interaction trees (return, ledger request, event slot, silent loop turn,
    panic) and their runs against an environment (\<open>run_io\<close>; no result if the run does not end).
  \<^item> \<open>Iterators\<close>, \<open>Stub\<close>: \<open>iterators.rs\<close> and the methods of \<open>ChaincodeStub\<close>, one definition each, as programs.
  \<^item> \<open>Handler\<close>: the sequential decisions of \<open>handler.rs\<close> (dispatch table, building messages, judging
    replies, preparing a transaction) and a whole transaction as a function, \<open>run_transaction\<close>.
  \<^item> \<open>System\<close>: \<open>handler.rs\<close> as a concurrent system. The state holds the loop, the out channel, the pending
    table, the oneshot cells and the tasks with their gates and strands; an action is what one task does
    between two suspension points, so runs over action lists are all interleavings.
  \<^item> \<open>System_Inv\<close>, \<open>System_Order\<close>, \<open>Connection\<close>: invariants of the reachable states, order of the replies,
    and the properties of the connection with example runs.
  \<^item> \<open>Interleaving\<close>: programs inside the concurrent connection: which actions a task's program allows, and any schedule
    of loop, peer and tasks against the sequential run of each program.
  \<^item> \<open>Server\<close>: \<open>server.rs\<close>: the configuration, binding, the shutdown signals, and serving as a step function in
    which each accepted stream is a connection of its own.
  \<^item> \<open>Btree_Map\<close>, \<open>Mock_Peer\<close>: the in-process peer of \<open>fabric-shim/tests/mock_peer.rs\<close>, which serves requests from
    ordered maps and pages query results; it is the reference environment for the stub.
  \<^item> \<open>Session\<close>: the sequential semantics against the concurrent connection.
  \<^item> \<open>Metadata\<close>, \<open>Contract_Types\<close>: \<open>metadata.rs\<close> and \<open>contract.rs\<close> (schemas, argument parsing, payloads).
  \<^item> \<open>Macro_Syntax\<close>, \<open>Data_Type\<close>, \<open>Contract_Macro\<close>: \<open>fabric-shim-macros/src/lib.rs\<close>. The macros are
    functions from syn's trees to what the generated code is: a derived struct's \<open>data_type\<close>, a contract's
    \<open>expansion\<close>; \<open>gen_metadata\<close> and \<open>gen_invoke\<close> are the generated methods.
  \<^item> \<open>Metadata_Json\<close>, \<open>Schema_Conformance\<close>: the JSON that \<open>derive(Serialize, Deserialize)\<close> writes and reads for \<open>metadata.rs\<close>, and
    a validator for the published schemas, with the JSON serde writes for typed values.
  \<^item> \<open>Asset_Json\<close>, \<open>Json_Text\<close>: the derived JSON of the sample's \<open>Asset\<close> and \<open>QueryResult\<close>; JSON text is a parameter
    (\<open>json_text\<close>: serde_json is not in the repository) whose law \<open>text_ok\<close> a written-out reader and writer satisfies.
  \<^item> \<open>Inventory\<close>, \<open>Asset_Transfer\<close>: the test contract and \<open>examples/asset-transfer/src/main.rs\<close>, expanded by
    the macro's model and run through all layers against the peer.
  \<^item> \<open>Sample_Program\<close>: \<open>main\<close> of the sample: environment, server, connection, chaincode and JSON together.
  \<^item> \<open>Test_Kv\<close>: the chaincodes \<open>TestKv\<close> and \<open>MetaKv\<close> of \<open>fabric-shim/tests/mock_peer.rs\<close>, which call most of the stub.
  \<^item> \<open>Fuzz_Targets\<close>: \<open>fuzz/fuzz_targets\<close>, as functions of the fuzzer's bytes.
  \<^item> \<open>Gateway_Bench\<close>: \<open>scripts/gateway-bench/src/main.rs\<close>, the benchmark client, over an abstract network.

  \<^bold>\<open>What the lemmas show.\<close> Requests and replies are matched: the gate serializes a transaction's calls, a
  reply reaches only the call that asked, results are the replies in order, each task sends one terminal message and leaves
  nothing behind, no transaction precedes the handshake (\<open>Connection\<close>). The connection computes what the
  sequential semantics says (\<open>Session\<close>), in every interleaving of the transactions (\<open>Interleaving\<close>), and the connections of
  a server do not interfere (\<open>Server\<close>). The stub implements an abstract ledger, range queries and
  partial composite key queries are complete and exact for every page size (\<open>Mock_Peer\<close>), composite keys
  round-trip. The macros accept exactly the described inputs, generated code routes each
  call to its method with well-typed arguments or answers with an error, metadata lists exactly the
  routed transactions with closed schemas (\<open>Contract_Macro\<close>, \<open>Contract_Types\<close>); the metadata document reads back as it was
  generated, and its schemas accept exactly the JSON of values without absent optional fields (\<open>Metadata_Json\<close>,
  \<open>Schema_Conformance\<close>); what the sample answers over the wire conforms to the metadata it serves over the wire (\<open>Asset_Json\<close>), and
  the program as a whole, from its environment on, implements the map of assets (\<open>Sample_Program\<close>). The sample contract refines a map of assets through all layers (\<open>Asset_Transfer\<close>), the test chaincode
  a store with private collections (\<open>Test_Kv\<close>); the proposal fuzz target covers the decoding the stub
  depends on (\<open>Fuzz_Targets\<close>), and a benchmark run has no failing call in any order of its concurrent calls (\<open>Gateway_Bench\<close>). Some theorems state defects: a call in flight hangs when the stream
  ends, a dropped call blocks the next one, endless empty pages never end, names with a colon are unreachable.

  \<^bold>\<open>Interfaces.\<close> \<open>lossless\<close> (codecs, interpreted on every message of the wire format), \<open>ordered_map\<close>
  (interpreted on the sorted list), \<open>paging_peer\<close> (what an iterator needs of a peer, interpreted on the test peer),
  \<open>json_type\<close> (writing and reading a struct's JSON, interpreted on the metadata structs), \<open>asset_gateway\<close> (what
  the benchmark needs of a network, interpreted on the sample chaincode behind the shim), \<open>enumeration\<close> (the tables of a
  generated enumeration, interpreted on all of them), \<open>grpc_route\<close> (what a generated server does with a request,
  interpreted on both).

  \<^bold>\<open>Bounds and fuel.\<close> No definition of the program has fuel: loops that may not end are \<open>io_loop\<close> (a silent turn per
  iteration) or \<open>partial_function\<close>, and termination is proved where it holds. The reader of JSON text counts down from
  the length of the text, which reads back all that is written (\<open>json_of_written\<close>). \<open>OUT_CAPACITY\<close> is the channel's 64.

  \<^bold>\<open>Parameters\<close> (code not in the repository, or the platform): prost's codecs, the clock, the environment and name
  resolution, the Unicode tables behind \<open>{:?}\<close>, tokio's text for a panic, heck's case
  conversions, syn's parser, the compiler's name resolution \<open>rt\<close>, floating point text and arithmetic, the JSON text of a tree, and the gateway client. Their laws are hypotheses, each with
  a witness on a concrete function.

  \<^bold>\<open>Not modelled.\<close> TLS, gRPC framing and flow control (tonic), logging, and the scheduler's
  fairness: \<open>System\<close> allows every interleaving, so liveness is stated as what is enabled. Of the
  generated gRPC code, interceptors and the options of a client, which are handed to tonic, are left out. The benchmark's command line, connection set-up and
  printing are left out, the test functions of the peer are assertions over the modelled calls, and the shell and Python
  scripts drive containers.
\<close>

end
